(* ===== verification/Prelude.thy ===== *)
theory Prelude
  imports Complex_Main "HOL-Library.Word"
begin

text \<open>
  Shared vocabulary of the development.

  \<^item> The Rust types the sources use: a string is the list of its Unicode scalar values
    (\<open>rstr\<close>), a byte vector is a list of 8-bit words, an \<open>Instant\<close> or a \<open>Duration\<close> is a
    number of milliseconds.
  \<^item> The operations of Rust's standard library on strings, the UTF-8 encoder and the
    lossy UTF-8 decoder, and saturating addition on \<open>u32\<close>.
  \<^item> The two interfaces the components share: a state machine that keeps an invariant
    (locale \<open>invariant_machine\<close>), and a bounded queue that forgets its oldest element
    (locale \<open>bounded_fifo\<close>).
\<close>

named_theorems rust_str \<open>equations of the string operations\<close>
named_theorems ring_laws \<open>facts about the bounded rings\<close>

type_synonym rstr = "nat list"
type_synonym bytes = "8 word list"
type_synonym millis = nat
type_synonym u32 = "32 word"
type_synonym u64 = "64 word"

subsection \<open>String literals\<close>

definition lit :: "string \<Rightarrow> rstr" where
  "lit s = map of_char s"

lemma lit_simps [simp]:
  "lit [] = []" "lit (c # cs) = of_char c # lit cs"
  by (simp_all add: lit_def)

lemma lit_eq_iff: "lit a = lit b \<longleftrightarrow> a = b"
proof -
  have "inj (of_char :: char \<Rightarrow> nat)"
    by (rule injI) simp
  then show ?thesis
    unfolding lit_def by (rule inj_map_eq_map)
qed

subsection \<open>Prefixes, substrings, trimming and case\<close>

fun starts_with :: "rstr \<Rightarrow> rstr \<Rightarrow> bool" where
  "starts_with s [] = True"
| "starts_with [] (p # ps) = False"
| "starts_with (c # cs) (p # ps) = (c = p \<and> starts_with cs ps)"

fun contains :: "rstr \<Rightarrow> rstr \<Rightarrow> bool" where
  "contains [] p = (p = [])"
| "contains (c # cs) p = (starts_with (c # cs) p \<or> contains cs p)"

definition strip_prefix :: "rstr \<Rightarrow> rstr \<Rightarrow> rstr option" where
  "strip_prefix s p = (if starts_with s p then Some (drop (length p) s) else None)"

text \<open>The Unicode property \<open>White_Space\<close>, as \<open>char::is_whitespace\<close> tests it.\<close>

definition is_whitespace :: "nat \<Rightarrow> bool" where
  "is_whitespace c \<longleftrightarrow>
     (9 \<le> c \<and> c \<le> 13) \<or> c = 32 \<or> c = 0x85 \<or> c = 0xA0 \<or> c = 0x1680
     \<or> (0x2000 \<le> c \<and> c \<le> 0x200A) \<or> c = 0x2028 \<or> c = 0x2029 \<or> c = 0x202F
     \<or> c = 0x205F \<or> c = 0x3000"

definition trim_end_by :: "(nat \<Rightarrow> bool) \<Rightarrow> rstr \<Rightarrow> rstr" where
  "trim_end_by f s = rev (dropWhile f (rev s))"

definition trim :: "rstr \<Rightarrow> rstr" where
  "trim s = trim_end_by is_whitespace (dropWhile is_whitespace s)"

lemma trim_replicate: "\<not> is_whitespace c \<Longrightarrow> trim (replicate n c) = replicate n c"
  by (simp add: trim_def trim_end_by_def)

abbreviation trim_end_matches :: "rstr \<Rightarrow> nat \<Rightarrow> rstr" where
  "trim_end_matches s c \<equiv> trim_end_by (\<lambda>x. x = c) s"

fun split_on :: "nat \<Rightarrow> rstr \<Rightarrow> rstr list" where
  "split_on d [] = [[]]"
| "split_on d (c # cs) =
     (if c = d then [] # split_on d cs
      else (case split_on d cs of [] \<Rightarrow> [[c]] | w # ws \<Rightarrow> (c # w) # ws))"

fun join_with :: "rstr \<Rightarrow> rstr list \<Rightarrow> rstr" where
  "join_with sep [] = []"
| "join_with sep [w] = w"
| "join_with sep (w # ws) = w @ sep @ join_with sep ws"

definition ascii_lower :: "nat \<Rightarrow> nat" where
  "ascii_lower c = (if 65 \<le> c \<and> c \<le> 90 then c + 32 else c)"

abbreviation to_ascii_lowercase :: "rstr \<Rightarrow> rstr" where
  "to_ascii_lowercase s \<equiv> map ascii_lower s"

definition is_ascii_digit :: "nat \<Rightarrow> bool" where
  "is_ascii_digit c \<longleftrightarrow> 48 \<le> c \<and> c \<le> 57"

definition is_ascii_lowercase :: "nat \<Rightarrow> bool" where
  "is_ascii_lowercase c \<longleftrightarrow> 97 \<le> c \<and> c \<le> 122"

definition is_ascii_uppercase :: "nat \<Rightarrow> bool" where
  "is_ascii_uppercase c \<longleftrightarrow> 65 \<le> c \<and> c \<le> 90"

lemmas ascii_defs = is_ascii_digit_def is_ascii_lowercase_def is_ascii_uppercase_def
  ascii_lower_def

lemma starts_with_iff: "starts_with s p \<longleftrightarrow> (\<exists>r. s = p @ r)"
  by (induction s p rule: starts_with.induct) auto

lemma contains_iff: "contains s p \<longleftrightarrow> (\<exists>a b. s = a @ p @ b)"
proof (induction s)
  case (Cons c cs)
  show ?case
  proof
    assume "contains (c # cs) p"
    then consider "starts_with (c # cs) p" | "contains cs p" by auto
    then show "\<exists>a b. c # cs = a @ p @ b"
    proof cases
      case 1
      then show ?thesis by (metis append_Nil starts_with_iff)
    next
      case 2
      then show ?thesis using Cons.IH by (metis append_Cons)
    qed
  next
    assume "\<exists>a b. c # cs = a @ p @ b"
    then obtain a b where ab: "c # cs = a @ p @ b" by blast
    show "contains (c # cs) p"
    proof (cases a)
      case Nil
      with ab have "starts_with (c # cs) p" by (auto simp: starts_with_iff)
      then show ?thesis by simp
    next
      case (Cons x xs)
      with ab have "cs = xs @ p @ b" by simp
      with Cons.IH show ?thesis by auto
    qed
  qed
qed auto

lemma trim_end_by_idem [simp]: "trim_end_by f (trim_end_by f s) = trim_end_by f s"
  by (simp add: trim_end_by_def dropWhile_idem)

lemma trim_end_by_takes: "\<exists>r. s = trim_end_by f s @ r \<and> (\<forall>c\<in>set r. f c)"
proof -
  have "s = trim_end_by f s @ rev (takeWhile f (rev s))"
    unfolding trim_end_by_def
    by (metis rev_append rev_rev_ident takeWhile_dropWhile_id)
  then show ?thesis by (metis set_rev set_takeWhileD)
qed

lemma last_trim_end_by: "trim_end_by f s \<noteq> [] \<Longrightarrow> \<not> f (last (trim_end_by f s))"
  by (simp add: trim_end_by_def last_rev hd_dropWhile)

lemma trim_idem [simp]: "trim (trim s) = trim s"
proof (cases "dropWhile is_whitespace s")
  case Nil
  then have "trim s = []" by (simp only: trim_def) (simp add: trim_end_by_def)
  moreover have "trim [] = []" by (simp add: trim_def trim_end_by_def)
  ultimately show ?thesis by simp
next
  case (Cons c cs)
  then have c: "\<not> is_whitespace c"
    by (metis dropWhile_eq_Cons_conv)
  obtain r where r: "c # cs = trim_end_by is_whitespace (c # cs) @ r"
    and w: "\<forall>x\<in>set r. is_whitespace x"
    using trim_end_by_takes by blast
  then obtain ds where "trim_end_by is_whitespace (c # cs) = c # ds"
    using c by (metis append_eq_Cons_conv append_self_conv2 list.set_intros(1))
  with Cons c show ?thesis
    unfolding trim_def by (metis dropWhile.simps(2) trim_end_by_idem)
qed

lemma set_trim: "set (trim s) \<subseteq> set s"
  unfolding trim_def trim_end_by_def
  by (auto dest!: set_dropWhileD)

lemma join_with_Cons [simp]:
  "ws \<noteq> [] \<Longrightarrow> join_with sep (w # ws) = w @ sep @ join_with sep ws"
  by (cases ws) auto


subsection \<open>UTF-8\<close>

text \<open>
  The scalar values a \<open>char\<close> can hold, the encoder behind \<open>str::as_bytes\<close> and
  \<open>str::len\<close>, and \<open>String::from_utf8_lossy\<close>: every maximal prefix of an ill-formed
  sequence becomes one U+FFFD, as the standard library's chunked decoder does it.
\<close>

definition scalar :: "nat \<Rightarrow> bool" where
  "scalar c \<longleftrightarrow> c < 0xD800 \<or> (0xE000 \<le> c \<and> c < 0x110000)"

definition utf8_width :: "nat \<Rightarrow> nat" where
  "utf8_width c = (if c < 0x80 then 1 else if c < 0x800 then 2 else if c < 0x10000 then 3 else 4)"

definition utf8_char :: "nat \<Rightarrow> nat list" where
  "utf8_char c =
     (if c < 0x80 then [c]
      else if c < 0x800 then [0xC0 + c div 64, 0x80 + c mod 64]
      else if c < 0x10000 then
        [0xE0 + c div 4096, 0x80 + c div 64 mod 64, 0x80 + c mod 64]
      else [0xF0 + c div 262144, 0x80 + c div 4096 mod 64, 0x80 + c div 64 mod 64,
            0x80 + c mod 64])"

definition as_bytes :: "rstr \<Rightarrow> bytes" where
  "as_bytes s = map of_nat (concat (map utf8_char s))"

definition str_len :: "rstr \<Rightarrow> nat" where
  "str_len s = sum_list (map utf8_width s)"

definition utf8_cont :: "nat \<Rightarrow> bool" where
  "utf8_cont b \<longleftrightarrow> 0x80 \<le> b \<and> b \<le> 0xBF"

definition utf8_second3 :: "nat \<Rightarrow> nat \<Rightarrow> bool" where
  "utf8_second3 b c \<longleftrightarrow>
     (b = 0xE0 \<and> 0xA0 \<le> c \<and> c \<le> 0xBF) \<or> (0xE1 \<le> b \<and> b \<le> 0xEC \<and> utf8_cont c)
     \<or> (b = 0xED \<and> 0x80 \<le> c \<and> c \<le> 0x9F) \<or> (0xEE \<le> b \<and> b \<le> 0xEF \<and> utf8_cont c)"

definition utf8_second4 :: "nat \<Rightarrow> nat \<Rightarrow> bool" where
  "utf8_second4 b c \<longleftrightarrow>
     (b = 0xF0 \<and> 0x90 \<le> c \<and> c \<le> 0xBF) \<or> (0xF1 \<le> b \<and> b \<le> 0xF3 \<and> utf8_cont c)
     \<or> (b = 0xF4 \<and> 0x80 \<le> c \<and> c \<le> 0x8F)"

fun utf8_lossy :: "nat list \<Rightarrow> rstr" where
  "utf8_lossy [] = []"
| "utf8_lossy (b # bs) =
     (if b < 0x80 then b # utf8_lossy bs
      else if 0xC2 \<le> b \<and> b \<le> 0xDF then
        (case bs of
           c1 # r1 \<Rightarrow> if utf8_cont c1 then ((b - 0xC0) * 64 + (c1 - 0x80)) # utf8_lossy r1
                      else 0xFFFD # utf8_lossy bs
         | [] \<Rightarrow> [0xFFFD])
      else if 0xE0 \<le> b \<and> b \<le> 0xEF then
        (case bs of
           c1 # r1 \<Rightarrow>
             if utf8_second3 b c1 then
               (case r1 of
                  c2 # r2 \<Rightarrow>
                    if utf8_cont c2
                    then ((b - 0xE0) * 4096 + (c1 - 0x80) * 64 + (c2 - 0x80)) # utf8_lossy r2
                    else 0xFFFD # utf8_lossy r1
                | [] \<Rightarrow> [0xFFFD])
             else 0xFFFD # utf8_lossy bs
         | [] \<Rightarrow> [0xFFFD])
      else if 0xF0 \<le> b \<and> b \<le> 0xF4 then
        (case bs of
           c1 # r1 \<Rightarrow>
             if utf8_second4 b c1 then
               (case r1 of
                  c2 # r2 \<Rightarrow>
                    if utf8_cont c2 then
                      (case r2 of
                         c3 # r3 \<Rightarrow>
                           if utf8_cont c3
                           then ((b - 0xF0) * 262144 + (c1 - 0x80) * 4096 + (c2 - 0x80) * 64
                                 + (c3 - 0x80)) # utf8_lossy r3
                           else 0xFFFD # utf8_lossy r2
                       | [] \<Rightarrow> [0xFFFD])
                    else 0xFFFD # utf8_lossy r1
                | [] \<Rightarrow> [0xFFFD])
             else 0xFFFD # utf8_lossy bs
         | [] \<Rightarrow> [0xFFFD])
      else 0xFFFD # utf8_lossy bs)"

definition from_utf8_lossy :: "bytes \<Rightarrow> rstr" where
  "from_utf8_lossy bs = utf8_lossy (map unat bs)"

text \<open>\<open>String::from_utf8\<close> accepts what re-encodes to the same bytes.\<close>

definition from_utf8 :: "bytes \<Rightarrow> rstr option" where
  "from_utf8 b = (let s = from_utf8_lossy b in if as_bytes s = b then Some s else None)"

lemma utf8_char_byte: "b \<in> set (utf8_char c) \<Longrightarrow> scalar c \<Longrightarrow> b < 256"
  by (auto simp: utf8_char_def scalar_def split: if_splits)

lemma length_utf8_char: "length (utf8_char c) = utf8_width c"
  by (simp add: utf8_char_def utf8_width_def)

lemma length_as_bytes: "length (as_bytes s) = str_len s"
  by (induction s) (simp_all add: as_bytes_def str_len_def length_utf8_char)

lemma div_mod_64: "c div 64 * 64 + c mod 64 = (c::nat)"
  by simp

lemma utf8_digits:
  fixes c :: nat
  obtains p m r where "c div 4096 = p" "c div 64 mod 64 = m" "c mod 64 = r"
    "c = p * 4096 + m * 64 + r" "m < 64" "r < 64"
proof
  have "c div 64 = c div 4096 * 64 + c div 64 mod 64"
    using div_mult_mod_eq [of "c div 64" 64] by (simp add: div_mult2_eq [symmetric])
  then have "c div 64 * 64 + c mod 64 = (c div 4096 * 64 + c div 64 mod 64) * 64 + c mod 64"
    by simp
  then show "c = c div 4096 * 4096 + c div 64 mod 64 * 64 + c mod 64"
    unfolding div_mod_64 by simp
qed simp_all

lemma utf8_second3_encoded:
  assumes "(c::nat) = p * 4096 + m * 64 + r" "m < 64" "r < 64"
    and "scalar c" "0x800 \<le> c" "c < 0x10000"
  shows "utf8_second3 (0xE0 + p) (0x80 + m)"
proof -
  have "p < 16" using assms by linarith
  moreover have "p = 0 \<Longrightarrow> 32 \<le> m" using assms by linarith
  moreover have "p = 13 \<Longrightarrow> m < 32" using assms unfolding scalar_def by linarith
  ultimately show ?thesis
    using assms(2) by (cases "p = 0 \<or> p = 13") (auto simp: utf8_second3_def utf8_cont_def)
qed

lemma utf8_second4_encoded:
  assumes "(c::nat) = p * 4096 + n" "n < 4096" "p = q * 64 + m" "m < 64"
    and "scalar c" "0x10000 \<le> c"
  shows "utf8_second4 (0xF0 + q) (0x80 + m)"
proof -
  have "c < 0x110000" using assms(5) by (auto simp: scalar_def)
  then have "p < 272" using assms by linarith
  then have "q < 5" using assms by linarith
  moreover have "q = 0 \<Longrightarrow> 16 \<le> m" using assms by linarith
  moreover have "q = 4 \<Longrightarrow> m < 16" using assms \<open>p < 272\<close> by linarith
  ultimately show ?thesis
    using assms(4) unfolding utf8_second4_def utf8_cont_def by linarith
qed

lemma utf8_cont_encoded [simp]: "m < 64 \<Longrightarrow> utf8_cont (0x80 + m)"
  by (simp add: utf8_cont_def)

lemma utf8_lossy_char:
  assumes "scalar c"
  shows "utf8_lossy (utf8_char c @ r) = c # utf8_lossy r"
proof -
  obtain p m d where pmd: "c div 4096 = p" "c div 64 mod 64 = m" "c mod 64 = d"
    "c = p * 4096 + m * 64 + d" "m < 64" "d < 64"
    by (rule utf8_digits)
  consider "c < 0x80" | "0x80 \<le> c" "c < 0x800" | "0x800 \<le> c" "c < 0x10000" | "0x10000 \<le> c"
    by linarith
  then show ?thesis
  proof cases
    case 1
    then show ?thesis by (simp add: utf8_char_def)
  next
    case 2
    then have "2 \<le> c div 64" "c div 64 < 32" by auto
    moreover have "utf8_cont (0x80 + c mod 64)" by simp
    moreover have "c div 64 * 64 + c mod 64 = c" by (rule div_mod_64)
    ultimately show ?thesis using 2 by (simp add: utf8_char_def)
  next
    case 3
    then have "p < 16" using pmd by linarith
    moreover have "utf8_second3 (0xE0 + p) (0x80 + m)"
      using utf8_second3_encoded [OF pmd(4-6) assms 3] .
    ultimately show ?thesis using 3 pmd by (simp add: utf8_char_def)
  next
    case 4
    define q where "q = p div 64"
    define k where "k = p mod 64"
    have q: "c div 262144 = q"
      unfolding q_def using pmd(1) by (simp add: div_mult2_eq [symmetric] flip: pmd(1))
    have k: "c div 4096 mod 64 = k" "k < 64" unfolding k_def using pmd(1) by simp_all
    have p: "p = q * 64 + k" unfolding q_def k_def by simp
    have "c = p * 4096 + (m * 64 + d)" "m * 64 + d < 4096" using pmd by linarith+
    then have "utf8_second4 (0xF0 + q) (0x80 + k)"
      using utf8_second4_encoded p k(2) assms 4 by blast
    moreover from this have "q < 5" by (auto simp: utf8_second4_def)
    moreover have "c = q * 262144 + k * 4096 + m * 64 + d" using pmd(4) p by linarith
    ultimately show ?thesis using 4 pmd(2,3,5,6) q k by (simp add: utf8_char_def)
  qed
qed

lemma map_unat_of_nat_bytes:
  "\<forall>b\<in>set bs. b < 256 \<Longrightarrow> map unat (map (of_nat :: nat \<Rightarrow> 8 word) bs) = bs"
  by (induction bs) (simp_all add: unat_of_nat)

lemma from_utf8_lossy_as_bytes:
  assumes "list_all scalar s"
  shows "from_utf8_lossy (as_bytes s) = s"
proof -
  have "map unat (as_bytes s) = concat (map utf8_char s)"
    unfolding as_bytes_def using assms
    by (intro map_unat_of_nat_bytes) (auto simp: list_all_iff dest: utf8_char_byte)
  moreover have "utf8_lossy (concat (map utf8_char s)) = s"
    using assms by (induction s) (simp_all add: utf8_lossy_char del: utf8_lossy.simps(2))
  ultimately show ?thesis by (simp add: from_utf8_lossy_def)
qed

lemma from_utf8_as_bytes: "list_all scalar s \<Longrightarrow> from_utf8 (as_bytes s) = Some s"
  by (simp add: from_utf8_def from_utf8_lossy_as_bytes)

text \<open>Whatever the bytes, what the lossy decoder returns are scalar values.\<close>

lemma decoded_scalar:
  "0xC2 \<le> b \<Longrightarrow> b \<le> 0xDF \<Longrightarrow> utf8_cont c \<Longrightarrow> scalar ((b - 0xC0) * 64 + (c - 0x80))"
  "utf8_second3 b c \<Longrightarrow> utf8_cont d \<Longrightarrow> scalar ((b - 0xE0) * 4096 + (c - 0x80) * 64 + (d - 0x80))"
  "utf8_second4 b c \<Longrightarrow> utf8_cont d \<Longrightarrow> utf8_cont e \<Longrightarrow>
     scalar ((b - 0xF0) * 262144 + (c - 0x80) * 4096 + (d - 0x80) * 64 + (e - 0x80))"
  unfolding scalar_def utf8_cont_def utf8_second3_def utf8_second4_def by linarith+

lemma utf8_lossy_scalar: "list_all scalar (utf8_lossy bs)"
proof (induction bs rule: utf8_lossy.induct)
  case (2 b bs)
  have "scalar 0xFFFD" and "b < 0x80 \<Longrightarrow> scalar b" by (simp_all add: scalar_def)
  with 2 show ?case
    unfolding utf8_lossy.simps(2)
    by (simp add: decoded_scalar split: list.split)
qed simp

lemma from_utf8_lossy_scalar: "list_all scalar (from_utf8_lossy b)"
  by (simp add: from_utf8_lossy_def utf8_lossy_scalar)

text \<open>\<open>str::get(..n)\<close>: the first \<open>n\<close> bytes, if they exist and end at a character boundary.\<close>

fun get_to :: "nat \<Rightarrow> rstr \<Rightarrow> rstr option" where
  "get_to n [] = (if n = 0 then Some [] else None)"
| "get_to n (c # cs) =
     (if n = 0 then Some []
      else if utf8_width c \<le> n then map_option (\<lambda>r. c # r) (get_to (n - utf8_width c) cs)
      else None)"


subsection \<open>Machine integers\<close>

text \<open>\<open>u32::saturating_add\<close>: the sum, or the largest value when it does not fit.\<close>

definition saturating_add :: "u32 \<Rightarrow> u32 \<Rightarrow> u32" where
  "saturating_add a b = (if unat a + unat b < 2 ^ 32 then a + b else - 1)"

lemma unat_saturating_add: "unat (saturating_add a b) = min (unat a + unat b) (2 ^ 32 - 1)"
proof (cases "unat a + unat b < 2 ^ 32")
  case True
  then have "unat (a + b) = unat a + unat b"
    by (simp add: unat_word_ariths)
  with True show ?thesis by (simp add: saturating_add_def)
next
  case False
  moreover have "unat (- 1 :: u32) = 2 ^ 32 - 1"
    by (simp add: unat_eq_nat_uint uint_word_ariths)
  ultimately show ?thesis by (simp add: saturating_add_def)
qed

subsection \<open>Interface: a machine that keeps an invariant\<close>

text \<open>
  A component is a step function and an invariant every step keeps. What follows for
  whole runs is proved here once; each component interprets the locale on its own step.
\<close>

locale invariant_machine =
  fixes step :: "'e \<Rightarrow> 's \<Rightarrow> 's"
    and inv :: "'s \<Rightarrow> bool"
  assumes step_inv: "inv s \<Longrightarrow> inv (step e s)"
begin

lemma run_inv: "inv s \<Longrightarrow> inv (fold step es s)"
  by (induction es arbitrary: s) (simp_all add: step_inv)

lemma run_prefix_inv: "inv s \<Longrightarrow> inv (fold step (take n es) s)"
  by (rule run_inv)

end

subsection \<open>Interface: one machine simulating another\<close>

text \<open>
  Two machines over the same events and a relation that every step keeps. A machine that is
  simulated by one with an invariant has that invariant's image as its own.
\<close>

locale simulation =
  fixes cstep :: "'e \<Rightarrow> 'c \<Rightarrow> 'c"
    and astep :: "'e \<Rightarrow> 'a \<Rightarrow> 'a"
    and rel :: "'c \<Rightarrow> 'a \<Rightarrow> bool"
  assumes sim_step: "rel c a \<Longrightarrow> rel (cstep e c) (astep e a)"
begin

lemma sim_run: "rel c a \<Longrightarrow> rel (fold cstep es c) (fold astep es a)"
  by (induction es arbitrary: c a) (simp_all add: sim_step)

end

locale simulated_machine = simulation cstep astep rel + abs: invariant_machine astep inv
  for cstep :: "'e \<Rightarrow> 'c \<Rightarrow> 'c" and astep :: "'e \<Rightarrow> 'a \<Rightarrow> 'a" and rel :: "'c \<Rightarrow> 'a \<Rightarrow> bool" and inv :: "'a \<Rightarrow> bool"

sublocale simulated_machine \<subseteq> conc: invariant_machine cstep "\<lambda>c. \<exists>a. rel c a \<and> inv a"
  by unfold_locales (blast intro: sim_step abs.step_inv)

subsection \<open>Interface: a bounded queue that forgets its oldest element\<close>

locale bounded_fifo =
  fixes push :: "'a \<Rightarrow> 'q \<Rightarrow> 'q"
    and view :: "'q \<Rightarrow> 'a list"
    and cap :: nat
  assumes cap_pos: "0 < cap"
    and view_push:
      "length (view q) \<le> cap \<Longrightarrow> view (push x q) = drop (Suc (length (view q)) - cap) (view q @ [x])"
begin

lemma push_bounded: "length (view q) \<le> cap \<Longrightarrow> length (view (push x q)) \<le> cap"
  using cap_pos by (simp add: view_push)

lemma push_last: "length (view q) \<le> cap \<Longrightarrow> last (view (push x q)) = x"
  using cap_pos by (simp add: view_push)

lemma run_view:
  assumes "length (view q) \<le> cap"
  shows "view (fold push xs q) = drop (length (view q) + length xs - cap) (view q @ xs)"
  using assms
proof (induction xs arbitrary: q)
  case (Cons x xs)
  have "view (fold push xs (push x q))
      = drop (length (view (push x q)) + length xs - cap) (view (push x q) @ xs)"
    by (rule Cons.IH) (rule push_bounded [OF Cons.prems])
  also have "\<dots> = drop (length (view q) + length (x # xs) - cap) (view q @ x # xs)"
  proof -
    define d where "d = Suc (length (view q)) - cap"
    have d: "d \<le> length (view q)" unfolding d_def using cap_pos Cons.prems by linarith
    have "view (push x q) = drop d (view q @ [x])"
      unfolding d_def by (rule view_push) (rule Cons.prems)
    then have "view (push x q) @ xs = drop d (view q @ x # xs)"
      and l: "length (view (push x q)) = Suc (length (view q)) - d"
      using d by simp_all
    moreover have "length (view (push x q)) + length xs - cap + d
        = length (view q) + length (x # xs) - cap"
      using l Cons.prems unfolding d_def by auto
    ultimately show ?thesis
      by (simp only: drop_drop)
  qed
  finally show ?case by simp
qed simp

lemma run_bounded: "length (view q) \<le> cap \<Longrightarrow> length (view (fold push xs q)) \<le> cap"
  by (simp add: run_view)

end

subsection \<open>Interface: a bounded keyed ring\<close>

text \<open>
  Inserting a known key leaves the order of the keys alone; a new key goes to the back and
  the oldest one is dropped when the ring is full. The echo rings and the ring of on-demand
  holds of the engine both keep this contract.
\<close>

locale keyed_ring =
  fixes ins :: "'k \<Rightarrow> 'v \<Rightarrow> 'r \<Rightarrow> 'r"
    and keys :: "'r \<Rightarrow> 'k list"
    and wf :: "'r \<Rightarrow> bool"
    and cap :: nat
  assumes cap_pos: "0 < cap"
    and wf_keys: "wf r \<Longrightarrow> distinct (keys r) \<and> length (keys r) \<le> cap"
    and wf_ins: "wf r \<Longrightarrow> wf (ins k v r)"
    and keys_hit: "wf r \<Longrightarrow> k \<in> set (keys r) \<Longrightarrow> keys (ins k v r) = keys r"
    and keys_miss: "wf r \<Longrightarrow> k \<notin> set (keys r) \<Longrightarrow>
      keys (ins k v r) = drop (Suc (length (keys r)) - cap) (keys r @ [k])"
begin

lemma ins_present: "wf r \<Longrightarrow> k \<in> set (keys (ins k v r))"
proof (cases "k \<in> set (keys r)")
  case False
  assume "wf r"
  then have "Suc (length (keys r)) - cap \<le> length (keys r)" using cap_pos by linarith
  with False \<open>wf r\<close> show ?thesis by (simp add: keys_miss)
qed (simp add: keys_hit)

lemma ins_keys_subset: "wf r \<Longrightarrow> set (keys (ins k v r)) \<subseteq> insert k (set (keys r))"
  by (cases "k \<in> set (keys r)") (auto simp: keys_hit keys_miss dest!: in_set_dropD)

lemma run_wf: "wf r \<Longrightarrow> wf (fold (\<lambda>(k, v). ins k v) kvs r)"
  by (induction kvs arbitrary: r) (auto simp: wf_ins)

lemma run_bounded: "wf r \<Longrightarrow> length (keys (fold (\<lambda>(k, v). ins k v) kvs r)) \<le> cap"
  using run_wf wf_keys by blast

lemma ins_keeps_position:
  assumes "wf r" and "keys r = pre @ k # post" and "Suc (length post) < cap"
  shows "\<exists>pre' post'. keys (ins k' v r) = pre' @ k # post' \<and> length post' \<le> Suc (length post)"
proof (cases "k' \<in> set (keys r)")
  case True
  then have "keys (ins k' v r) = pre @ k # post" using assms(1,2) keys_hit by metis
  then show ?thesis by (metis le_Suc_eq order_refl)
next
  case False
  define d where "d = Suc (length (keys r)) - cap"
  have "d \<le> length pre"
    using assms wf_keys [OF assms(1)] unfolding d_def by auto
  moreover have "keys (ins k' v r) = drop d (pre @ k # post @ [k'])"
    using keys_miss [OF assms(1) False, of v] assms(2) by (simp add: d_def)
  ultimately have "keys (ins k' v r) = drop d pre @ k # (post @ [k'])"
    by simp
  then show ?thesis by fastforce
qed

lemma run_keeps_key:
  assumes "wf r" and "keys r = pre @ k # post" and "length post + length kvs < cap"
  shows "k \<in> set (keys (fold (\<lambda>(k, v). ins k v) kvs r))"
  using assms
proof (induction kvs arbitrary: r pre post)
  case (Cons kv kvs)
  obtain k' v where kv: "kv = (k', v)" by (cases kv)
  have "Suc (length post) < cap" using Cons.prems(3) by simp
  then obtain pre' post' where 1: "keys (ins k' v r) = pre' @ k # post'"
    and 2: "length post' \<le> Suc (length post)"
    using ins_keeps_position [OF Cons.prems(1,2)] by blast
  have "length post' + length kvs < cap" using 2 Cons.prems(3) by simp
  from Cons.IH [OF wf_ins [OF Cons.prems(1)] 1 this] show ?case by (simp add: kv)
qed simp

lemma fresh_key_retained:
  assumes "wf r" and "k \<notin> set (keys r)" and "length kvs < cap"
  shows "k \<in> set (keys (fold (\<lambda>(k, v). ins k v) kvs (ins k v r)))"
proof -
  define d where "d = Suc (length (keys r)) - cap"
  have "d \<le> length (keys r)" using cap_pos wf_keys [OF assms(1)] by (simp add: d_def)
  then have "keys (ins k v r) = drop d (keys r) @ [k]"
    using assms(1,2) by (simp add: keys_miss d_def)
  then show ?thesis
    using run_keeps_key [OF wf_ins [OF assms(1)], of k v "drop d (keys r)" k "[]" kvs] assms(3)
    by simp
qed

end

end
