(* ===== verification/Crates.thy ===== *)
theory Crates
  imports Prelude "HOL-Library.Monad_Syntax"
begin

text \<open>
  JSON values, and the third-party crates the client calls.

  The crates are not part of the repository, so they are a parameter: a record of
  functions that every operation using them takes as its first argument. What the client
  relies on is stated as named predicates on that record: decryption inverts encryption,
  base64 and JSON decoding invert encoding, a digest has 32 bytes. A text, an image or a
  certificate is what the crate would be given.
\<close>

subsection \<open>JSON values\<close>

text \<open>\<open>serde_json::Value\<close>. A number is an integer or, written with a fraction, a rational: the
  width of a floating-point number is not modelled. The keys of an object are distinct.\<close>

datatype json =
    JNull
  | JBool bool
  | JInt int
  | JFloat rat
  | JStr rstr
  | JArr "json list"
  | JObj "(string \<times> json) list"

definition json_get :: "json \<Rightarrow> string \<Rightarrow> json option" where
  "json_get v k = (case v of JObj m \<Rightarrow> map_of m k | _ \<Rightarrow> None)"

fun as_str :: "json \<Rightarrow> rstr option" where
  "as_str (JStr s) = Some s"
| "as_str _ = None"

definition i64_range :: "int \<Rightarrow> bool" where
  "i64_range n \<longleftrightarrow> - (2 ^ 63) \<le> n \<and> n < 2 ^ 63"

definition u64_range :: "int \<Rightarrow> bool" where
  "u64_range n \<longleftrightarrow> 0 \<le> n \<and> n < 2 ^ 64"

fun as_i64 :: "json \<Rightarrow> int option" where
  "as_i64 (JInt n) = (if i64_range n then Some n else None)"
| "as_i64 _ = None"

fun as_u64 :: "json \<Rightarrow> u64 option" where
  "as_u64 (JInt n) = (if u64_range n then Some (word_of_int n) else None)"
| "as_u64 _ = None"

fun as_f64 :: "json \<Rightarrow> rat option" where
  "as_f64 (JInt n) = Some (of_int n)"
| "as_f64 (JFloat q) = Some q"
| "as_f64 _ = None"

fun as_bool :: "json \<Rightarrow> bool option" where
  "as_bool (JBool b) = Some b"
| "as_bool _ = None"

fun as_strs :: "json list \<Rightarrow> rstr list option" where
  "as_strs [] = Some []"
| "as_strs (v # vs) = (case (as_str v, as_strs vs) of (Some s, Some r) \<Rightarrow> Some (s # r) | _ \<Rightarrow> None)"

fun as_str_vec :: "json \<Rightarrow> rstr list option" where
  "as_str_vec (JArr vs) = as_strs vs"
| "as_str_vec _ = None"

text \<open>
  What serde derives for a struct: it is read from an object, or from an array whose elements
  are the fields in declaration order; a field without a default must be present, a field
  with \<open>serde(default)\<close> may be missing, and a present field must have the right type.
\<close>

definition struct_fields :: "string list \<Rightarrow> json \<Rightarrow> (string \<times> json) list option" where
  "struct_fields names v =
     (case v of
        JObj m \<Rightarrow> Some m
      | JArr xs \<Rightarrow> if length xs \<le> length names then Some (zip names xs) else None
      | _ \<Rightarrow> None)"

definition req :: "(json \<Rightarrow> 'a option) \<Rightarrow> (string \<times> json) list \<Rightarrow> string \<Rightarrow> 'a option" where
  "req f m k = (case map_of m k of None \<Rightarrow> None | Some v \<Rightarrow> f v)"

definition deflt :: "(json \<Rightarrow> 'a option) \<Rightarrow> 'a \<Rightarrow> (string \<times> json) list \<Rightarrow> string \<Rightarrow> 'a option" where
  "deflt f d m k = (case map_of m k of None \<Rightarrow> Some d | Some v \<Rightarrow> f v)"

text \<open>An \<open>Option\<close> field: missing and null both read as \<open>None\<close>.\<close>

definition opt_field :: "(json \<Rightarrow> 'a option) \<Rightarrow> (string \<times> json) list \<Rightarrow> string \<Rightarrow> 'a option option" where
  "opt_field f m k =
     (case map_of m k of None \<Rightarrow> Some None | Some JNull \<Rightarrow> Some None
      | Some v \<Rightarrow> map_option Some (f v))"

lemma as_strs_map [simp]: "as_strs (map JStr ss) = Some ss"
  by (induction ss) auto

lemma u64_range_uint [simp]: "u64_range (uint (w :: u64))"
  using uint_bounded [of w] by (simp add: u64_range_def)

lemma as_u64_uint: "as_u64 (JInt (uint (w :: u64))) = Some w"
  by simp

subsection \<open>Images and results\<close>

record image =
  width :: nat
  height :: nat
  rgba :: bytes

text \<open>A call that returns, fails with an error value, or unwinds.\<close>

datatype 'a res = Ok 'a | Err | Panic

fun bind_res :: "'a res \<Rightarrow> ('a \<Rightarrow> 'b res) \<Rightarrow> 'b res" where
  "bind_res (Ok x) f = f x"
| "bind_res Err f = Err"
| "bind_res Panic f = Panic"

definition of_opt :: "'a option \<Rightarrow> 'a res" where
  "of_opt x = (case x of None \<Rightarrow> Err | Some y \<Rightarrow> Ok y)"

lemma bind_res_Ok_iff: "bind_res r f = Ok y \<longleftrightarrow> (\<exists>x. r = Ok x \<and> f x = Ok y)"
  by (cases r) auto

lemma bind_res_Panic_iff: "bind_res r f = Panic \<longleftrightarrow> r = Panic \<or> (\<exists>x. r = Ok x \<and> f x = Panic)"
  by (cases r) auto

lemma of_opt_simps [simp]: "of_opt None = Err" "of_opt (Some x) = Ok x"
  by (simp_all add: of_opt_def)

subsection \<open>The crates\<close>

record crates =
  sha256 :: "bytes \<Rightarrow> bytes"
  hex_encode :: "bytes \<Rightarrow> rstr"
  b64_encode :: "bytes \<Rightarrow> rstr"
  b64_decode :: "rstr \<Rightarrow> bytes option"
  gcm_encrypt :: "bytes \<Rightarrow> bytes \<Rightarrow> bytes \<Rightarrow> bytes option"
  gcm_decrypt :: "bytes \<Rightarrow> bytes \<Rightarrow> bytes \<Rightarrow> bytes option"
  argon2id :: "bytes \<Rightarrow> bytes \<Rightarrow> bytes"
  regex_new :: "rstr \<Rightarrow> (rstr \<Rightarrow> bool) option"
  json_to_vec :: "json \<Rightarrow> bytes option"
  json_to_vec_pretty :: "json \<Rightarrow> bytes option"
  json_from_slice :: "bytes \<Rightarrow> json option"
  spki_of_cert :: "bytes \<Rightarrow> bytes option"
  png_write :: "nat \<Rightarrow> nat \<Rightarrow> bytes \<Rightarrow> bytes option"
  image_load :: "bytes \<Rightarrow> image option"
  alnum_table :: "nat \<Rightarrow> bool"
  lower_table :: "rstr \<Rightarrow> rstr"

text \<open>AES-256-GCM: decrypting with the same key and nonce gives the plaintext back.\<close>

definition aead_inverts :: "crates \<Rightarrow> bool" where
  "aead_inverts cr \<longleftrightarrow>
     (\<forall>k n p c. gcm_encrypt cr k n p = Some c \<longrightarrow> gcm_decrypt cr k n c = Some p)"

definition base64_inverts :: "crates \<Rightarrow> bool" where
  "base64_inverts cr \<longleftrightarrow> (\<forall>b. b64_decode cr (b64_encode cr b) = Some b)"

definition json_inverts :: "crates \<Rightarrow> bool" where
  "json_inverts cr \<longleftrightarrow>
     (\<forall>j b. json_to_vec cr j = Some b \<or> json_to_vec_pretty cr j = Some b
            \<longrightarrow> json_from_slice cr b = Some j)"

definition argon_len :: "crates \<Rightarrow> bool" where
  "argon_len cr \<longleftrightarrow> (\<forall>p s. length (argon2id cr p s) = 32)"

definition hex_len :: "crates \<Rightarrow> bool" where
  "hex_len cr \<longleftrightarrow> (\<forall>b. length (hex_encode cr b) = 2 * length b)"

definition sha_len :: "crates \<Rightarrow> bool" where
  "sha_len cr \<longleftrightarrow> (\<forall>b. length (sha256 cr b) = 32)"

definition sha_hex :: "crates \<Rightarrow> bytes \<Rightarrow> rstr" where
  "sha_hex cr b = hex_encode cr (sha256 cr b)"

subsection \<open>An instance for evaluation\<close>

text \<open>
  A small concrete instance, used to run the definitions on concrete inputs and to show that
  the named assumptions can hold together: the cipher prepends the key's first byte, the
  base64 codec renames bytes to characters, JSON text is only encoded for null.
\<close>

definition sample_crates :: crates where
  "sample_crates = \<lparr>
     sha256 = (\<lambda>b. take 32 (b @ replicate 32 0)),
     hex_encode = (\<lambda>b. concat (map (\<lambda>w. [unat w div 16, unat w mod 16]) b)),
     b64_encode = map unat,
     b64_decode = (\<lambda>s. Some (map of_nat s)),
     gcm_encrypt = (\<lambda>k n p. Some (take 1 k @ p)),
     gcm_decrypt = (\<lambda>k n c. if take (length (take 1 k)) c = take 1 k
                            then Some (drop (length (take 1 k)) c) else None),
     argon2id = (\<lambda>p s. take 32 (p @ replicate 32 0)),
     regex_new = (\<lambda>p. Some (\<lambda>t. contains t p)),
     json_to_vec = (\<lambda>j. if j = JNull then Some [] else None),
     json_to_vec_pretty = (\<lambda>j. if j = JNull then Some [] else None),
     json_from_slice = (\<lambda>b. if b = [] then Some JNull else None),
     spki_of_cert = Some,
     png_write = (\<lambda>w h b. Some (of_nat w # of_nat h # b)),
     image_load = (\<lambda>b. case b of w # h # r \<Rightarrow> Some \<lparr>width = unat w, height = unat h, rgba = r\<rparr>
                              | _ \<Rightarrow> None),
     alnum_table = (\<lambda>_. False),
     lower_table = (\<lambda>s. s)\<rparr>"

lemma sample_aead: "aead_inverts sample_crates"
proof -
  have "take (length (take 1 k)) (take 1 k @ p) = take 1 k" for k p :: bytes
    by (cases k) simp_all
  then show ?thesis by (auto simp: aead_inverts_def sample_crates_def simp del: take_append)
qed

lemma sample_base64: "base64_inverts sample_crates"
proof -
  have "map of_nat (map unat b) = (b :: bytes)" for b
    by (induction b) simp_all
  then show ?thesis by (simp add: base64_inverts_def sample_crates_def)
qed

lemma sample_json: "json_inverts sample_crates"
  by (simp add: json_inverts_def sample_crates_def)

lemma sample_argon: "argon_len sample_crates"
  by (auto simp: argon_len_def sample_crates_def min_def)

lemma sample_sha: "sha_len sample_crates"
  by (auto simp: sha_len_def sample_crates_def min_def)

lemma sample_hex: "hex_len sample_crates"
proof -
  have "length (concat (map (\<lambda>w. [unat w div 16, unat w mod 16]) b)) = 2 * length (b :: bytes)" for b
    by (induction b) simp_all
  then show ?thesis by (simp add: hex_len_def sample_crates_def)
qed

end
