(* ===== verification/Clipboard.thy ===== *)
theory Clipboard
  imports Crates
begin

text \<open>
  OS clipboard access (\<open>core/src/clipboard.rs\<close>). The platform (\<open>arboard\<close>, \<open>clipboard_win\<close>) is a
  record of what each of its calls answers, per attempt where the code retries; the flag
  \<open>windows\<close> selects between the two builds. A read returns \<open>None\<close> for an error.
\<close>

record os =
  windows :: bool
  arboard_new :: "nat \<Rightarrow> bool"
  arboard_text :: "rstr option"
  arboard_image :: "image option"
  arboard_html :: "rstr option"
  format_avail :: "nat \<Rightarrow> bool"
  register_format :: "rstr \<Rightarrow> nat option"
  hdrop_read :: "nat \<Rightarrow> rstr list option"
  raw_seq_num :: "u32 option"
  win_open :: bool
  win_formats :: "(nat \<times> rstr option) list"
  win_get_vec :: "nat \<Rightarrow> bytes option"
  set_ok :: bool
  empty_ok :: bool

definition OPEN_ATTEMPTS :: nat where
  "OPEN_ATTEMPTS = 5"

definition CF_TEXT :: nat where "CF_TEXT = 1"
definition CF_DIB :: nat where "CF_DIB = 8"
definition CF_UNICODETEXT :: nat where "CF_UNICODETEXT = 13"
definition CF_HDROP :: nat where "CF_HDROP = 15"
definition CF_DIBV5 :: nat where "CF_DIBV5 = 17"

definition text_available :: "os \<Rightarrow> bool" where
  "text_available w \<longleftrightarrow> format_avail w CF_UNICODETEXT \<or> format_avail w CF_TEXT"

definition image_available :: "os \<Rightarrow> bool" where
  "image_available w \<longleftrightarrow> format_avail w CF_DIBV5 \<or> format_avail w CF_DIB"

text \<open>The bounded retry: the answer of the first attempt that succeeds, and how often the loop
  slept.\<close>

function retry :: "(nat \<Rightarrow> 'a option) \<Rightarrow> nat \<Rightarrow> 'a option \<times> nat" where
  "retry f attempt =
     (if attempt > OPEN_ATTEMPTS then (None, 0)
      else (case f attempt of
              Some x \<Rightarrow> (Some x, 0)
            | None \<Rightarrow>
                if attempt < OPEN_ATTEMPTS
                then (let (r, n) = retry f (Suc attempt) in (r, Suc n))
                else (None, 0)))"
  by auto
termination by (relation "measure (\<lambda>(f, a). Suc OPEN_ATTEMPTS - a)") auto

declare retry.simps [simp del]

definition open_clipboard :: "os \<Rightarrow> bool" where
  "open_clipboard w \<longleftrightarrow> fst (retry (\<lambda>a. if arboard_new w a then Some () else None) 1) \<noteq> None"

definition get_text :: "os \<Rightarrow> rstr option" where
  "get_text w = (if windows w \<and> \<not> text_available w then None
                 else if \<not> open_clipboard w then None
                 else arboard_text w)"

definition get_image :: "os \<Rightarrow> image option" where
  "get_image w = (if windows w \<and> \<not> image_available w then None
                  else if \<not> open_clipboard w then None
                  else arboard_image w)"

definition get_html :: "os \<Rightarrow> rstr option" where
  "get_html w =
     (if windows w \<and> \<not> (case register_format w (lit ''HTML Format'') of
                           Some f \<Rightarrow> format_avail w f | None \<Rightarrow> False) then None
      else if \<not> open_clipboard w then None
      else arboard_html w)"

definition get_files :: "os \<Rightarrow> rstr list option" where
  "get_files w =
     (if \<not> windows w then None
      else if \<not> format_avail w CF_HDROP then None
      else (case fst (retry (hdrop_read w) 1) of
              None \<Rightarrow> None
            | Some files \<Rightarrow> if files = [] then None else Some files))"

definition seq_num :: "os \<Rightarrow> u32 option" where
  "seq_num w = (if windows w then raw_seq_num w else None)"

definition list_formats :: "(nat \<Rightarrow> rstr) \<Rightarrow> os \<Rightarrow> rstr list" where
  "list_formats show_num w =
     (if \<not> windows w then []
      else if \<not> win_open w then [lit ''<clipboard busy>'']
      else map (\<lambda>(f, nm). case nm of Some s \<Rightarrow> s | None \<Rightarrow> lit ''#'' @ show_num f) (win_formats w))"

subsection \<open>Virtual file names\<close>

definition u16_le :: "8 word \<Rightarrow> 8 word \<Rightarrow> nat" where
  "u16_le lo hi = unat lo + 256 * unat hi"

definition u32_le :: "bytes \<Rightarrow> nat" where
  "u32_le b = unat (b ! 0) + 256 * unat (b ! 1) + 65536 * unat (b ! 2) + 16777216 * unat (b ! 3)"

definition DESC :: nat where "DESC = 592"
definition NAME_OFF :: nat where "NAME_OFF = 72"

text \<open>The inner loop of \<open>get_virtual_file_names\<close>: indexing past the end would panic, which is
  the result \<open>Panic\<close>.\<close>

function wide_loop :: "bytes \<Rightarrow> nat \<Rightarrow> nat \<Rightarrow> nat list \<Rightarrow> nat list res" where
  "wide_loop buf base j wide =
     (if j + 1 < length buf \<and> j - base < 260 * 2 then
        (if j < length buf \<and> j + 1 < length buf then
           (let c = u16_le (buf ! j) (buf ! (j + 1)) in
            if c = 0 then Ok wide else wide_loop buf base (j + 2) (wide @ [c]))
         else Panic)
      else Ok wide)"
  by auto
termination by (relation "measure (\<lambda>(buf, base, j, wide). length buf - j)") auto

declare wide_loop.simps [simp del]

text \<open>\<open>String::from_utf16_lossy\<close>.\<close>

fun from_utf16_lossy :: "nat list \<Rightarrow> rstr" where
  "from_utf16_lossy [] = []"
| "from_utf16_lossy (u # us) =
     (if u < 0xD800 \<or> 0xE000 \<le> u then u # from_utf16_lossy us
      else if 0xDC00 \<le> u then 0xFFFD # from_utf16_lossy us
      else (case us of
              v # vs \<Rightarrow> if 0xDC00 \<le> v \<and> v < 0xE000
                        then (0x10000 + (u - 0xD800) * 1024 + (v - 0xDC00)) # from_utf16_lossy vs
                        else 0xFFFD # from_utf16_lossy us
            | [] \<Rightarrow> [0xFFFD]))"

fun names_loop :: "bytes \<Rightarrow> nat list \<Rightarrow> rstr list res" where
  "names_loop buf [] = Ok []"
| "names_loop buf (i # is) =
     (let base = 4 + i * DESC + NAME_OFF in
      bind_res (wide_loop buf base base []) (\<lambda>wide.
      bind_res (names_loop buf is) (\<lambda>names.
      Ok (if wide \<noteq> [] then from_utf16_lossy wide # names else names))))"

definition parse_descriptors :: "bytes \<Rightarrow> rstr list option res" where
  "parse_descriptors buf =
     (if length buf < 4 then Ok None
      else (let count = u32_le buf in
            bind_res (names_loop buf [0..<min count 64]) (\<lambda>names.
            Ok (if names = [] then None else Some names))))"

definition get_virtual_file_names :: "os \<Rightarrow> rstr list option res" where
  "get_virtual_file_names w =
     (if \<not> windows w then Ok None
      else (case register_format w (lit ''FileGroupDescriptorW'') of
              None \<Rightarrow> Ok None
            | Some fmt \<Rightarrow>
                if \<not> win_open w then Ok None
                else if \<not> format_avail w fmt then Ok None
                else (case win_get_vec w fmt of
                        None \<Rightarrow> Ok None
                      | Some buf \<Rightarrow> parse_descriptors buf)))"

subsection \<open>Writing the clipboard\<close>

text \<open>What the clipboard holds after a write. The flag of \<open>CText\<close> is the tag that keeps the clip
  out of the Windows clipboard history.\<close>

datatype clip_content =
    CEmpty
  | CText rstr bool
  | CHtml rstr rstr
  | CImage image
  | CFiles "rstr list"

definition arboard_write :: "os \<Rightarrow> clip_content \<Rightarrow> clip_content \<Rightarrow> clip_content \<times> bool" where
  "arboard_write w new old = (if open_clipboard w \<and> set_ok w then (new, True) else (old, False))"

definition set_text :: "os \<Rightarrow> rstr \<Rightarrow> clip_content \<Rightarrow> clip_content \<times> bool" where
  "set_text w s = arboard_write w (CText s False)"

definition clip_clear :: "os \<Rightarrow> clip_content \<Rightarrow> clip_content \<times> bool" where
  "clip_clear w = arboard_write w CEmpty"

definition win_write :: "os \<Rightarrow> clip_content \<Rightarrow> clip_content \<Rightarrow> clip_content \<times> bool" where
  "win_write w new old =
     (if \<not> win_open w then (old, False)
      else if \<not> empty_ok w then (old, False)
      else if \<not> set_ok w then (CEmpty, False)
      else (new, True))"

definition set_text_sensitive :: "os \<Rightarrow> rstr \<Rightarrow> clip_content \<Rightarrow> clip_content \<times> bool" where
  "set_text_sensitive w s =
     (if windows w
      then win_write w (CText s (register_format w (lit ''ExcludeClipboardContentFromMonitorProcessing'') \<noteq> None))
      else set_text w s)"

definition set_files :: "os \<Rightarrow> rstr list \<Rightarrow> clip_content \<Rightarrow> clip_content \<times> bool" where
  "set_files w paths old = (if windows w then win_write w (CFiles paths) old else (old, True))"

definition set_image :: "os \<Rightarrow> image \<Rightarrow> clip_content \<Rightarrow> clip_content \<times> bool" where
  "set_image w img = arboard_write w (CImage img)"

definition set_html :: "os \<Rightarrow> rstr \<Rightarrow> rstr \<Rightarrow> clip_content \<Rightarrow> clip_content \<times> bool" where
  "set_html w html alt = arboard_write w (CHtml html alt)"

subsection \<open>Images\<close>

text \<open>The dimensions are truncated to \<open>u32\<close>; \<open>RgbaImage::from_raw\<close> accepts a buffer at least as
  long as the pixels need, and only those bytes are written.\<close>

definition encode_png :: "crates \<Rightarrow> image \<Rightarrow> bytes option" where
  "encode_png cr img =
     (let w = width img mod 2 ^ 32; h = height img mod 2 ^ 32; n = w * h * 4
      in if 2 ^ 64 \<le> n \<or> length (rgba img) < n then None
         else png_write cr w h (take n (rgba img)))"

definition decode_image :: "crates \<Rightarrow> bytes \<Rightarrow> image option" where
  "decode_image cr b = image_load cr b"

subsection \<open>Facts\<close>

text \<open>The wide-character loop computes the name by a direct description: the 16-bit units of the
  520 bytes at the offset, up to the first zero unit.\<close>

fun units :: "bytes \<Rightarrow> nat list" where
  "units (lo # hi # r) = u16_le lo hi # units r"
| "units _ = []"

lemma units_short: "length b \<le> 1 \<Longrightarrow> units b = []"
  by (cases b rule: units.cases) auto

lemma drop_two: "j + 1 < length b \<Longrightarrow> drop j b = b ! j # b ! (j + 1) # drop (j + 2) b"
  by (simp add: Cons_nth_drop_Suc)

lemma units_window:
  assumes "j + 1 < length buf" "2 \<le> n"
  shows "units (take n (drop j buf))
    = u16_le (buf ! j) (buf ! (j + 1)) # units (take (n - 2) (drop (j + 2) buf))"
proof -
  obtain m where "n = Suc (Suc m)" using assms(2) by (metis add_2_eq_Suc le_Suc_ex)
  then show ?thesis using drop_two [OF assms(1)] by simp
qed

lemma wide_loop_units:
  assumes "base \<le> j" "even (j - base)" "j - base \<le> 520"
  shows "wide_loop buf base j wide
    = Ok (wide @ takeWhile (\<lambda>c. c \<noteq> 0) (units (take (520 - (j - base)) (drop j buf))))"
  using assms
proof (induction buf base j wide rule: wide_loop.induct)
  case (1 buf base j wide)
  define c where "c = u16_le (buf ! j) (buf ! (j + 1))"
  show ?case
  proof (cases "j + 1 < length buf \<and> j - base < 260 * 2")
    case False
    have "length (take (520 - (j - base)) (drop j buf)) \<le> 1"
      using False 1(4) by auto
    moreover have "wide_loop buf base j wide = Ok wide"
      by (subst wide_loop.simps) (simp only: False if_False)
    ultimately show ?thesis by (simp only: units_short takeWhile.simps append_Nil2)
  next
    case True
    have n: "2 \<le> 520 - (j - base)"
    proof -
      have "j - base \<noteq> 519"
      proof
        assume "j - base = 519"
        with 1(3) have "even (519 :: nat)" by (simp only:)
        then show False by simp
      qed
      with True show ?thesis by linarith
    qed
    have u: "units (take (520 - (j - base)) (drop j buf))
        = c # units (take (520 - (j + 2 - base)) (drop (j + 2) buf))"
      using units_window [OF _ n, of j buf] True 1(2) by (simp add: c_def)
    show ?thesis
    proof (cases "c = 0")
      case True
      then show ?thesis using \<open>j + 1 < length buf \<and> j - base < 260 * 2\<close> u
        by (subst wide_loop.simps) (simp add: c_def Let_def)
    next
      case False
      have "even (j + 2 - base)" "j + 2 - base \<le> 520" "base \<le> j + 2" using 1(2,3) n by auto
      then have "wide_loop buf base (j + 2) (wide @ [c])
          = Ok ((wide @ [c]) @ takeWhile (\<lambda>c. c \<noteq> 0) (units (take (520 - (j + 2 - base)) (drop (j + 2) buf))))"
        using 1(1) [OF True _ c_def False] True by simp
      then show ?thesis using True False u by (subst wide_loop.simps) (simp add: c_def Let_def)
    qed
  qed
qed

lemma length_units: "length (units b) \<le> length b div 2"
  by (induction b rule: units.induct) auto

lemma length_from_utf16: "length (from_utf16_lossy us) \<le> length us"
  by (induction us rule: from_utf16_lossy.induct) (auto split: list.splits)

definition wide_name :: "bytes \<Rightarrow> nat \<Rightarrow> nat list" where
  "wide_name buf i = takeWhile (\<lambda>c. c \<noteq> 0) (units (take 520 (drop (4 + i * 592 + 72) buf)))"

lemma length_wide_name: "length (wide_name buf i) \<le> 260"
proof -
  have "length (wide_name buf i) \<le> length (units (take 520 (drop (4 + i * 592 + 72) buf)))"
    unfolding wide_name_def by (rule length_takeWhile_le)
  also have "\<dots> \<le> 260" using length_units [of "take 520 (drop (4 + i * 592 + 72) buf)"] by auto
  finally show ?thesis .
qed

text \<open>A name is a Rust string: non-empty, of Unicode scalar values, and without a NUL.\<close>

definition name_ok :: "rstr \<Rightarrow> bool" where
  "name_ok s \<longleftrightarrow> s \<noteq> [] \<and> list_all scalar s \<and> 0 \<notin> set s"

lemma units_range: "\<forall>u\<in>set (units b). u < 65536"
proof (induction b rule: units.induct)
  case (1 lo hi r)
  have "unat lo < 256" "unat hi < 256" using unsigned_less [of lo] unsigned_less [of hi] by simp_all
  with 1 show ?case by (simp add: u16_le_def)
qed simp_all

lemma surrogate_pair_scalar:
  "0xD800 \<le> u \<Longrightarrow> u < 0xDC00 \<Longrightarrow> 0xDC00 \<le> v \<Longrightarrow> v < 0xE000
    \<Longrightarrow> scalar (0x10000 + (u - 0xD800) * 1024 + (v - 0xDC00))"
  by (simp add: scalar_def)

lemma from_utf16_ok:
  assumes "\<forall>u\<in>set us. 0 < u \<and> u < 65536"
  shows "list_all scalar (from_utf16_lossy us) \<and> 0 \<notin> set (from_utf16_lossy us)"
  using assms
proof (induction us rule: from_utf16_lossy.induct)
  case (2 u us)
  then have u: "u < 0xD800 \<or> 0xE000 \<le> u \<Longrightarrow> scalar u \<and> u \<noteq> 0" by (auto simp: scalar_def)
  have bad: "scalar 0xFFFD" by (simp add: scalar_def)
  show ?case
  proof (cases us)
    case Nil
    then show ?thesis using u bad by simp
  next
    case (Cons v vs)
    then show ?thesis using 2 u bad surrogate_pair_scalar [of u v] by simp
  qed
qed simp

lemma wide_name_ok:
  assumes "wide_name buf i \<noteq> []"
  shows "name_ok (from_utf16_lossy (wide_name buf i))"
proof -
  have "\<forall>u\<in>set (wide_name buf i). 0 < u \<and> u < 65536"
    using units_range by (auto simp: wide_name_def dest: set_takeWhileD)
  moreover have "from_utf16_lossy us = [] \<Longrightarrow> us = []" for us
    by (cases us) (simp_all split: if_splits list.splits)
  ultimately show ?thesis using from_utf16_ok [of "wide_name buf i"] assms unfolding name_ok_def by blast
qed

lemma names_loop_spec:
  "names_loop buf is = Ok (map from_utf16_lossy (filter (\<lambda>w. w \<noteq> []) (map (wide_name buf) is)))"
proof (induction "is")
  case (Cons i "is")
  have "wide_loop buf (4 + i * DESC + NAME_OFF) (4 + i * DESC + NAME_OFF) [] = Ok (wide_name buf i)"
    using wide_loop_units [of "4 + i * DESC + NAME_OFF" "4 + i * DESC + NAME_OFF" buf "[]"]
    by (simp add: wide_name_def DESC_def NAME_OFF_def)
  with Cons show ?case by (simp add: Let_def)
qed simp

lemma retry_spec:
  assumes "1 \<le> a" "a \<le> OPEN_ATTEMPTS"
  shows "fst (retry f a) = (case filter (\<lambda>i. f i \<noteq> None) [a..<Suc OPEN_ATTEMPTS] of
           [] \<Rightarrow> None | i # _ \<Rightarrow> f i) \<and> snd (retry f a) \<le> OPEN_ATTEMPTS - a"
  using assms
proof (induction f a rule: retry.induct)
  case (1 f a)
  have up: "[a..<Suc OPEN_ATTEMPTS] = a # [Suc a..<Suc OPEN_ATTEMPTS]"
    using 1(3) by (simp add: upt_conv_Cons)
  show ?case
  proof (cases "f a")
    case (Some x)
    then show ?thesis using 1(3) up by (subst (1 2) retry.simps) simp
  next
    case None
    show ?thesis
    proof (cases "a < OPEN_ATTEMPTS")
      case True
      have "fst (retry f (Suc a)) = (case filter (\<lambda>i. f i \<noteq> None) [Suc a..<Suc OPEN_ATTEMPTS] of
             [] \<Rightarrow> None | i # _ \<Rightarrow> f i) \<and> snd (retry f (Suc a)) \<le> OPEN_ATTEMPTS - Suc a"
        using 1(1) [OF _ None True] True by simp
      then show ?thesis using 1(3) None True up
        by (subst (1 2) retry.simps) (auto split: prod.splits)
    next
      case False
      then show ?thesis using 1(3) None up by (subst (1 2) retry.simps) simp
    qed
  qed
qed

text \<open>PNG keeps the pixels: loading what was written for a buffer of the right size gives the
  same image.\<close>

definition png_inverts :: "crates \<Rightarrow> bool" where
  "png_inverts cr \<longleftrightarrow> (\<forall>w h b f. length b = w * h * 4 \<longrightarrow> png_write cr w h b = Some f
     \<longrightarrow> image_load cr f = Some \<lparr>width = w, height = h, rgba = b\<rparr>)"

lemma png_roundtrip:
  assumes "png_inverts cr" "width img < 2 ^ 32" "height img < 2 ^ 32"
    and "length (rgba img) = width img * height img * 4" "encode_png cr img = Some f"
  shows "decode_image cr f = Some img"
  using assms by (auto simp: encode_png_def decode_image_def png_inverts_def Let_def split: if_splits)

subsection \<open>Properties\<close>



end
