(* ===== verification/E2e.thy ===== *)
theory E2e
  imports Crates
begin

text \<open>
  End-to-end encryption (\<open>core/src/e2e.rs\<close>): the group key derived from a passphrase and the
  server id, its fingerprint, and the sealed format: 12 bytes of nonce, then the AES-256-GCM
  ciphertext with its tag. The nonce that \<open>OsRng\<close> draws is an argument. Building the key
  object panics when the slice has not 32 bytes.
\<close>

definition ALG :: rstr where
  "ALG = lit ''aes-256-gcm''"

definition derive_key :: "crates \<Rightarrow> rstr \<Rightarrow> rstr \<Rightarrow> bytes" where
  "derive_key cr pass server_id =
     (let salt = sha256 cr (as_bytes (lit ''copysync-e2e|'' @ server_id))
      in argon2id cr (as_bytes pass) salt)"

definition key_id :: "crates \<Rightarrow> bytes \<Rightarrow> rstr" where
  "key_id cr key = take 16 (hex_encode cr (sha256 cr key))"

definition seal :: "crates \<Rightarrow> bytes \<Rightarrow> bytes \<Rightarrow> bytes \<Rightarrow> bytes res" where
  "seal cr nonce key plaintext =
     (if length key \<noteq> 32 then Panic
      else (case gcm_encrypt cr key nonce plaintext of
              None \<Rightarrow> Err
            | Some ct \<Rightarrow> Ok (nonce @ ct)))"

definition e2e_open :: "crates \<Rightarrow> bytes \<Rightarrow> bytes \<Rightarrow> bytes res" where
  "e2e_open cr key raw =
     (if length raw < 12 then Err
      else if length key \<noteq> 32 then Panic
      else of_opt (gcm_decrypt cr key (take 12 raw) (drop 12 raw)))"

lemma seal_Ok: "seal cr nonce key p = Ok raw \<longleftrightarrow>
    length key = 32 \<and> (\<exists>ct. gcm_encrypt cr key nonce p = Some ct \<and> raw = nonce @ ct)"
  by (auto simp: seal_def split: option.splits)

lemma seal_no_panic: "length key = 32 \<Longrightarrow> seal cr nonce key p \<noteq> Panic"
  by (auto simp: seal_def split: option.splits)

lemma open_no_panic: "length key = 32 \<Longrightarrow> e2e_open cr key raw \<noteq> Panic"
  by (auto simp: e2e_open_def of_opt_def split: option.splits)

lemma open_seal:
  assumes "aead_inverts cr" "length nonce = 12" "seal cr nonce key p = Ok raw"
  shows "e2e_open cr key raw = Ok p"
  using assms by (auto simp: seal_Ok e2e_open_def aead_inverts_def)

lemma open_too_short: "length raw < 12 \<Longrightarrow> e2e_open cr key raw = Err"
  by (simp add: e2e_open_def)

lemma length_derive_key: "argon_len cr \<Longrightarrow> length (derive_key cr pass sid) = 32"
  by (simp add: derive_key_def argon_len_def Let_def)

lemma length_key_id: "sha_len cr \<Longrightarrow> hex_len cr \<Longrightarrow> length (key_id cr key) = 16"
  by (simp add: key_id_def sha_len_def hex_len_def)

text \<open>Whatever is sealed under a derived group key opens to the same bytes under the key the
  peer derives from the same passphrase and server id.\<close>

theorem e2e_roundtrip:
  assumes "aead_inverts cr" and "length nonce = 12"
    and "seal cr nonce (derive_key cr pass sid) p = Ok raw"
  shows "e2e_open cr (derive_key cr pass sid) raw = Ok p"
  using open_seal [OF assms] .

theorem e2e_roundtrip_witness:
  "e2e_open sample_crates (derive_key sample_crates (lit ''hunter2'') (lit ''srv''))
     (replicate 12 7 @ [104, 1, 2, 3]) = Ok [1, 2, 3]"
proof (rule e2e_roundtrip [OF sample_aead])
  show "length (replicate 12 (7 :: 8 word)) = 12" by simp
  have "length (derive_key sample_crates (lit ''hunter2'') (lit ''srv'')) = 32"
    by (rule length_derive_key [OF sample_argon])
  moreover have "take 1 (derive_key sample_crates (lit ''hunter2'') (lit ''srv'')) = [104]"
    by (simp add: derive_key_def sample_crates_def as_bytes_def utf8_char_def)
  ultimately show "seal sample_crates (replicate 12 7)
      (derive_key sample_crates (lit ''hunter2'') (lit ''srv'')) [1, 2, 3]
    = Ok (replicate 12 7 @ [104, 1, 2, 3])"
    by (simp add: seal_def) (simp add: sample_crates_def)
qed

end
