(* ===== verification/Protocol.thy ===== *)
theory Protocol
  imports E2e
begin

text \<open>
  The wire protocol (\<open>core/src/protocol.rs\<close>, \<open>core/src/lib.rs\<close>): the message types, how serde
  writes and reads them, and the envelope. The id, the timestamp and the nonces a message
  is built with come from the random source and the clock, and are arguments.
\<close>

subsection \<open>Message tags\<close>

definition T_HELLO :: rstr where "T_HELLO = lit ''hello''"
definition T_HELLO_OK :: rstr where "T_HELLO_OK = lit ''hello_ok''"
definition T_HELLO_ERR :: rstr where "T_HELLO_ERR = lit ''hello_err''"
definition T_CLIP :: rstr where "T_CLIP = lit ''clip''"
definition T_BLOB_REQUEST :: rstr where "T_BLOB_REQUEST = lit ''blob_request''"
definition T_SET_POOL :: rstr where "T_SET_POOL = lit ''set_pool''"
definition T_PRESENCE :: rstr where "T_PRESENCE = lit ''presence''"
definition T_ROSTER :: rstr where "T_ROSTER = lit ''roster''"
definition T_TOKEN_ROTATE :: rstr where "T_TOKEN_ROTATE = lit ''token_rotate''"

lemmas tag_defs = T_HELLO_def T_HELLO_OK_def T_HELLO_ERR_def T_CLIP_def T_BLOB_REQUEST_def
  T_SET_POOL_def T_PRESENCE_def T_ROSTER_def T_TOKEN_ROTATE_def

subsection \<open>Message types\<close>

record device =
  dev_id :: rstr
  dev_name :: rstr
  dev_platform :: rstr
  dev_pool :: rstr
  dev_created_at :: rstr
  dev_last_seen_at :: rstr
  dev_revoked :: bool

record device_info =
  di_device :: device
  di_online :: bool

record hello =
  h_device_id :: rstr
  h_device_name :: rstr
  h_token :: rstr
  h_platform :: rstr
  h_proto :: int

record hello_ok =
  ho_server_id :: rstr
  ho_server_name :: rstr
  ho_e2e :: bool
  ho_you :: device
  ho_roster :: "device_info list"
  ho_max_msg :: int
  ho_blob_cap :: int
  ho_on_demand_threshold :: int
  ho_pools :: "rstr list"
  ho_pool :: rstr

record enc_meta =
  alg :: rstr
  enc_key_id :: rstr
  enc_nonce :: rstr

datatype targets = All | Devices "rstr list"

record clip_event =
  ev_id :: rstr
  origin_device :: rstr
  ev_seq :: u64
  ev_ts :: rstr
  ev_mime :: "rstr list"
  inline_text :: rstr
  ev_html :: rstr
  blob_id_of :: rstr
  ev_name :: rstr
  on_demand_flag :: bool
  ev_size :: int
  ev_sha256 :: rstr
  ev_targets :: targets
  ev_enc :: "enc_meta option"

record presence =
  pr_device :: device
  pr_online :: bool

definition default_device :: device where
  "default_device = \<lparr>dev_id = [], dev_name = [], dev_platform = [], dev_pool = [],
     dev_created_at = [], dev_last_seen_at = [], dev_revoked = False\<rparr>"

definition default_clip :: clip_event where
  "default_clip = \<lparr>ev_id = [], origin_device = [], ev_seq = 0, ev_ts = [], ev_mime = [],
     inline_text = [], ev_html = [], blob_id_of = [], ev_name = [], on_demand_flag = False,
     ev_size = 0, ev_sha256 = [], ev_targets = All, ev_enc = None\<rparr>"

subsection \<open>Reading messages\<close>

definition device_of_map :: "(string \<times> json) list \<Rightarrow> device option" where
  "device_of_map m = do {
     i \<leftarrow> req as_str m ''id'';
     n \<leftarrow> req as_str m ''name'';
     p \<leftarrow> deflt as_str [] m ''platform'';
     o' \<leftarrow> deflt as_str [] m ''pool'';
     c \<leftarrow> deflt as_str [] m ''createdAt'';
     l \<leftarrow> deflt as_str [] m ''lastSeenAt'';
     r \<leftarrow> deflt as_bool False m ''revoked'';
     Some \<lparr>dev_id = i, dev_name = n, dev_platform = p, dev_pool = o', dev_created_at = c,
           dev_last_seen_at = l, dev_revoked = r\<rparr> }"

definition device_of_json :: "json \<Rightarrow> device option" where
  "device_of_json v = Option.bind
     (struct_fields [''id'', ''name'', ''platform'', ''pool'', ''createdAt'', ''lastSeenAt'',
                     ''revoked''] v) device_of_map"

text \<open>A struct with a flattened field is read from an object only.\<close>

definition device_info_of_json :: "json \<Rightarrow> device_info option" where
  "device_info_of_json v = (case v of
     JObj m \<Rightarrow> do {
       d \<leftarrow> device_of_map m;
       b \<leftarrow> deflt as_bool False m ''online'';
       Some \<lparr>di_device = d, di_online = b\<rparr> }
   | _ \<Rightarrow> None)"

fun device_infos :: "json list \<Rightarrow> device_info list option" where
  "device_infos [] = Some []"
| "device_infos (v # vs) =
     (case (device_info_of_json v, device_infos vs) of
        (Some d, Some ds) \<Rightarrow> Some (d # ds) | _ \<Rightarrow> None)"

fun as_device_infos :: "json \<Rightarrow> device_info list option" where
  "as_device_infos (JArr vs) = device_infos vs"
| "as_device_infos _ = None"

definition hello_ok_of_json :: "json \<Rightarrow> hello_ok option" where
  "hello_ok_of_json v = do {
     m \<leftarrow> struct_fields [''serverId'', ''serverName'', ''e2e'', ''you'', ''roster'', ''maxMsg'',
            ''blobCap'', ''onDemandThreshold'', ''pools'', ''pool''] v;
     si \<leftarrow> req as_str m ''serverId'';
     sn \<leftarrow> req as_str m ''serverName'';
     e \<leftarrow> deflt as_bool False m ''e2e'';
     y \<leftarrow> deflt device_of_json default_device m ''you'';
     r \<leftarrow> deflt as_device_infos [] m ''roster'';
     mm \<leftarrow> deflt as_i64 0 m ''maxMsg'';
     bc \<leftarrow> deflt as_i64 0 m ''blobCap'';
     od \<leftarrow> deflt as_i64 0 m ''onDemandThreshold'';
     ps \<leftarrow> deflt as_str_vec [] m ''pools'';
     p \<leftarrow> deflt as_str [] m ''pool'';
     Some \<lparr>ho_server_id = si, ho_server_name = sn, ho_e2e = e, ho_you = y, ho_roster = r,
           ho_max_msg = mm, ho_blob_cap = bc, ho_on_demand_threshold = od, ho_pools = ps,
           ho_pool = p\<rparr> }"

definition roster_of_json :: "json \<Rightarrow> device_info list option" where
  "roster_of_json v = do {
     m \<leftarrow> struct_fields [''devices''] v;
     deflt as_device_infos [] m ''devices'' }"

definition presence_of_json :: "json \<Rightarrow> presence option" where
  "presence_of_json v = do {
     m \<leftarrow> struct_fields [''device'', ''online''] v;
     d \<leftarrow> deflt device_of_json default_device m ''device'';
     b \<leftarrow> deflt as_bool False m ''online'';
     Some \<lparr>pr_device = d, pr_online = b\<rparr> }"

definition blob_request_of_json :: "json \<Rightarrow> rstr option" where
  "blob_request_of_json v = do { m \<leftarrow> struct_fields [''id''] v; req as_str m ''id'' }"

definition token_rotate_of_json :: "json \<Rightarrow> rstr option" where
  "token_rotate_of_json v = do { m \<leftarrow> struct_fields [''token''] v; req as_str m ''token'' }"

definition hello_err_of_json :: "json \<Rightarrow> (rstr \<times> rstr) option" where
  "hello_err_of_json v = do {
     m \<leftarrow> struct_fields [''code'', ''message''] v;
     c \<leftarrow> deflt as_str [] m ''code'';
     e \<leftarrow> deflt as_str [] m ''message'';
     Some (c, e) }"

definition targets_of_json :: "json \<Rightarrow> targets option" where
  "targets_of_json v = (case v of
     JNull \<Rightarrow> Some (Devices [])
   | JStr s \<Rightarrow> if s = lit ''all'' then Some All else None
   | JArr vs \<Rightarrow> map_option Devices (as_strs vs)
   | _ \<Rightarrow> None)"

definition enc_meta_of_json :: "json \<Rightarrow> enc_meta option" where
  "enc_meta_of_json v = do {
     m \<leftarrow> struct_fields [''alg'', ''keyId'', ''nonce''] v;
     a \<leftarrow> req as_str m ''alg'';
     k \<leftarrow> req as_str m ''keyId'';
     n \<leftarrow> deflt as_str [] m ''nonce'';
     Some \<lparr>alg = a, enc_key_id = k, enc_nonce = n\<rparr> }"

definition clip_of_json :: "json \<Rightarrow> clip_event option" where
  "clip_of_json v = do {
     m \<leftarrow> struct_fields [''id'', ''originDeviceId'', ''seq'', ''ts'', ''mime'', ''inlineText'',
            ''html'', ''blobId'', ''name'', ''onDemand'', ''size'', ''sha256'', ''targets'',
            ''enc''] v;
     i \<leftarrow> req as_str m ''id'';
     o' \<leftarrow> req as_str m ''originDeviceId'';
     s \<leftarrow> req as_u64 m ''seq'';
     t \<leftarrow> req as_str m ''ts'';
     mi \<leftarrow> deflt as_str_vec [] m ''mime'';
     it \<leftarrow> deflt as_str [] m ''inlineText'';
     h \<leftarrow> deflt as_str [] m ''html'';
     b \<leftarrow> deflt as_str [] m ''blobId'';
     n \<leftarrow> deflt as_str [] m ''name'';
     od \<leftarrow> deflt as_bool False m ''onDemand'';
     sz \<leftarrow> req as_i64 m ''size'';
     sh \<leftarrow> deflt as_str [] m ''sha256'';
     tg \<leftarrow> req targets_of_json m ''targets'';
     e \<leftarrow> opt_field enc_meta_of_json m ''enc'';
     Some \<lparr>ev_id = i, origin_device = o', ev_seq = s, ev_ts = t, ev_mime = mi,
           inline_text = it, ev_html = h, blob_id_of = b, ev_name = n, on_demand_flag = od,
           ev_size = sz, ev_sha256 = sh, ev_targets = tg, ev_enc = e\<rparr> }"

subsection \<open>Writing messages\<close>

fun targets_to_json :: "targets \<Rightarrow> json" where
  "targets_to_json All = JStr (lit ''all'')"
| "targets_to_json (Devices d) = JArr (map JStr d)"

definition enc_meta_to_json :: "enc_meta \<Rightarrow> json" where
  "enc_meta_to_json e = JObj [(''alg'', JStr (alg e)), (''keyId'', JStr (enc_key_id e)),
     (''nonce'', JStr (enc_nonce e))]"

text \<open>\<open>skip_serializing_if\<close>: empty strings, a false flag and an absent \<open>enc\<close> are left out.\<close>

definition opt_str :: "string \<Rightarrow> rstr \<Rightarrow> (string \<times> json) list" where
  "opt_str k s = (if s = [] then [] else [(k, JStr s)])"

definition clip_to_json :: "clip_event \<Rightarrow> json" where
  "clip_to_json ev = JObj (
     [(''id'', JStr (ev_id ev)), (''originDeviceId'', JStr (origin_device ev)),
      (''seq'', JInt (uint (ev_seq ev))), (''ts'', JStr (ev_ts ev)),
      (''mime'', JArr (map JStr (ev_mime ev)))]
     @ opt_str ''inlineText'' (inline_text ev) @ opt_str ''html'' (ev_html ev)
     @ opt_str ''blobId'' (blob_id_of ev) @ opt_str ''name'' (ev_name ev)
     @ (if \<not> on_demand_flag ev then [] else [(''onDemand'', JBool True)])
     @ [(''size'', JInt (ev_size ev)), (''sha256'', JStr (ev_sha256 ev)),
        (''targets'', targets_to_json (ev_targets ev))]
     @ (case ev_enc ev of None \<Rightarrow> [] | Some e \<Rightarrow> [(''enc'', enc_meta_to_json e)]))"

definition hello_to_json :: "hello \<Rightarrow> json" where
  "hello_to_json h = JObj [(''deviceId'', JStr (h_device_id h)),
     (''deviceName'', JStr (h_device_name h)), (''token'', JStr (h_token h)),
     (''platform'', JStr (h_platform h)), (''proto'', JInt (h_proto h))]"

definition set_pool_to_json :: "rstr \<Rightarrow> json" where
  "set_pool_to_json pool = JObj [(''pool'', JStr pool)]"

definition encode :: "crates \<Rightarrow> rstr \<Rightarrow> json \<Rightarrow> bytes option" where
  "encode cr t d = json_to_vec cr (JObj [(''t'', JStr t), (''d'', d)])"

definition decode :: "crates \<Rightarrow> bytes \<Rightarrow> (rstr \<times> json) option" where
  "decode cr data = do {
     v \<leftarrow> json_from_slice cr data;
     m \<leftarrow> struct_fields [''t'', ''d''] v;
     t \<leftarrow> req as_str m ''t'';
     d \<leftarrow> deflt Some JNull m ''d'';
     Some (t, d) }"

subsection \<open>Clip operations\<close>

definition is_blob :: "clip_event \<Rightarrow> bool" where
  "is_blob ev \<longleftrightarrow> blob_id_of ev \<noteq> []"

definition first_is_image :: "clip_event \<Rightarrow> bool" where
  "first_is_image ev = (case ev_mime ev of [] \<Rightarrow> False | m # _ \<Rightarrow> starts_with m (lit ''image/''))"

definition kind :: "clip_event \<Rightarrow> rstr" where
  "kind ev = (if is_blob ev then (if first_is_image ev then lit ''image'' else lit ''file'')
              else lit ''text'')"

definition nonempty :: "rstr option \<Rightarrow> rstr option" where
  "nonempty h = (case h of Some (c # cs) \<Rightarrow> Some (c # cs) | _ \<Rightarrow> None)"

definition new_text :: "crates \<Rightarrow> rstr \<Rightarrow> rstr \<Rightarrow> bytes \<Rightarrow> bytes \<Rightarrow> u64 \<Rightarrow> rstr \<Rightarrow> rstr option
    \<Rightarrow> (bytes \<times> rstr) option \<Rightarrow> targets \<Rightarrow> clip_event res" where
  "new_text cr new_id now_ts nonce nonce_html seq text html0 key targets =
     (let html = nonempty html0;
          ev = default_clip\<lparr>ev_id := new_id, ev_seq := seq, ev_ts := now_ts,
                 ev_mime := (if html \<noteq> None then [lit ''text/html'', lit ''text/plain'']
                             else [lit ''text/plain'']),
                 ev_size := int (str_len text), ev_targets := targets\<rparr>
      in case key of
           Some (k, kid) \<Rightarrow>
             bind_res (seal cr nonce k (as_bytes text)) (\<lambda>raw.
             bind_res (case html of
                         Some h \<Rightarrow> bind_res (seal cr nonce_html k (as_bytes h))
                                    (\<lambda>rh. Ok (b64_encode cr rh))
                       | None \<Rightarrow> Ok []) (\<lambda>eh.
             Ok (ev\<lparr>inline_text := b64_encode cr raw, ev_sha256 := sha_hex cr raw,
                    ev_html := eh,
                    ev_enc := Some \<lparr>alg = ALG, enc_key_id = kid, enc_nonce = []\<rparr>\<rparr>)))
         | None \<Rightarrow>
             Ok (ev\<lparr>inline_text := text, ev_sha256 := sha_hex cr (as_bytes text),
                    ev_html := (case html of Some h \<Rightarrow> h | None \<Rightarrow> [])\<rparr>))"


subsection \<open>Round trips\<close>

lemma targets_roundtrip: "targets_of_json (targets_to_json t) = Some t"
  by (cases t) (simp_all add: targets_of_json_def)

lemma enc_meta_roundtrip: "enc_meta_of_json (enc_meta_to_json e) = Some e"
  by (simp add: enc_meta_of_json_def enc_meta_to_json_def struct_fields_def req_def deflt_def)

lemma map_of_opt_str: "map_of (opt_str k s @ r) k' =
    (if k' = k \<and> s \<noteq> [] then Some (JStr s) else map_of r k')"
  by (simp add: opt_str_def)

lemma map_of_flag: "map_of ((if \<not> b then [] else [(k, v)]) @ r) k' =
    (if k' = k \<and> b then Some v else map_of r k')"
  by simp

lemma map_of_opt: "map_of (case x of None \<Rightarrow> [] | Some e \<Rightarrow> [(k, f e)]) k' =
    (if k' = k then map_option f x else None)"
  by (cases x) simp_all

lemma deflt_present:
  "map_of m k = (if s \<noteq> [] then Some (JStr s) else None) \<Longrightarrow> deflt as_str [] m k = Some s"
  by (simp add: deflt_def)

lemma opt_field_present:
  assumes "map_of m k = map_option f x" "\<And>e. g (f e) = Some e" "\<And>e. f e \<noteq> JNull"
  shows "opt_field g m k = Some x"
proof (cases x)
  case None
  with assms(1) show ?thesis by (simp add: opt_field_def)
next
  case (Some e)
  have "g (f e) = Some e" "f e \<noteq> JNull" by (fact assms)+
  with Some assms(1) show ?thesis by (cases "f e") (simp_all add: opt_field_def)
qed

lemma clip_roundtrip_map:
  assumes "clip_to_json ev = JObj m"
  shows "map_of m ''id'' = Some (JStr (ev_id ev))"
    and "map_of m ''originDeviceId'' = Some (JStr (origin_device ev))"
    and "map_of m ''seq'' = Some (JInt (uint (ev_seq ev)))"
    and "map_of m ''ts'' = Some (JStr (ev_ts ev))"
    and "map_of m ''mime'' = Some (JArr (map JStr (ev_mime ev)))"
    and "map_of m ''inlineText'' = (if inline_text ev \<noteq> [] then Some (JStr (inline_text ev)) else None)"
    and "map_of m ''html'' = (if ev_html ev \<noteq> [] then Some (JStr (ev_html ev)) else None)"
    and "map_of m ''blobId'' = (if blob_id_of ev \<noteq> [] then Some (JStr (blob_id_of ev)) else None)"
    and "map_of m ''name'' = (if ev_name ev \<noteq> [] then Some (JStr (ev_name ev)) else None)"
    and "map_of m ''onDemand'' = (if on_demand_flag ev then Some (JBool True) else None)"
    and "map_of m ''size'' = Some (JInt (ev_size ev))"
    and "map_of m ''sha256'' = Some (JStr (ev_sha256 ev))"
    and "map_of m ''targets'' = Some (targets_to_json (ev_targets ev))"
    and "map_of m ''enc'' = map_option enc_meta_to_json (ev_enc ev)"
  using assms unfolding clip_to_json_def
  by (auto simp only: json.inject map_of_opt_str map_of_flag map_of_opt append_Cons append_Nil
      map_of.simps fst_conv snd_conv fun_upd_def list.inject char.inject simp_thms if_False if_True
      split: if_splits)

lemma clip_json_roundtrip:
  assumes "i64_range (ev_size ev)"
  shows "clip_of_json (clip_to_json ev) = Some ev"
proof -
  obtain m where m: "clip_to_json ev = JObj m" by (simp add: clip_to_json_def)
  note look = clip_roundtrip_map [OF m]
  have o: "opt_field enc_meta_of_json m ''enc'' = Some (ev_enc ev)"
    by (rule opt_field_present, rule look) (simp_all add: enc_meta_roundtrip, simp add: enc_meta_to_json_def)
  have b: "deflt as_bool False m ''onDemand'' = Some (on_demand_flag ev)"
    by (simp add: deflt_def look)
  have d: "deflt as_str [] m ''inlineText'' = Some (inline_text ev)"
    "deflt as_str [] m ''html'' = Some (ev_html ev)"
    "deflt as_str [] m ''blobId'' = Some (blob_id_of ev)"
    "deflt as_str [] m ''name'' = Some (ev_name ev)"
    by (rule deflt_present, rule look)+
  have d': "deflt as_str [] m ''sha256'' = Some (ev_sha256 ev)"
    "deflt as_str_vec [] m ''mime'' = Some (ev_mime ev)"
    by (simp_all add: deflt_def look)
  have r: "req as_str m ''id'' = Some (ev_id ev)"
    "req as_str m ''originDeviceId'' = Some (origin_device ev)"
    "req as_str m ''ts'' = Some (ev_ts ev)"
    "req as_u64 m ''seq'' = Some (ev_seq ev)"
    "req as_i64 m ''size'' = Some (ev_size ev)"
    "req targets_of_json m ''targets'' = Some (ev_targets ev)"
    using assms by (simp_all only: req_def look option.case as_str.simps as_u64_uint as_i64.simps
        targets_roundtrip if_True)
  show ?thesis
    unfolding clip_of_json_def m struct_fields_def json.case
    by (simp only: bind.bind_lunit option.case r d d' b o) simp
qed


lemma decode_encode:
  assumes "json_inverts cr" "encode cr t d = Some b"
  shows "decode cr b = Some (t, d)"
  using assms unfolding encode_def json_inverts_def decode_def
  by (simp add: struct_fields_def req_def deflt_def)

text \<open>A clip survives the wire: the frame a sender encodes decodes at the receiver to the clip
  tag and to a payload that reads back as the same clip, every optional field included.\<close>

theorem clip_wire_roundtrip:
  assumes "json_inverts cr" and "i64_range (ev_size ev)"
    and "encode cr T_CLIP (clip_to_json ev) = Some b"
  shows "\<exists>d. decode cr b = Some (T_CLIP, d) \<and> clip_of_json d = Some ev"
  using decode_encode [OF assms(1,3)] clip_json_roundtrip [OF assms(2)] by blast

definition sample_clip :: clip_event where
  "sample_clip = default_clip\<lparr>ev_id := lit ''x'', origin_device := lit ''dev'', ev_seq := 7,
     ev_mime := [lit ''text/plain''], inline_text := lit ''hi'', ev_size := 2,
     ev_targets := Devices [lit ''a'']\<rparr>"

definition sample_json_crates :: "json \<Rightarrow> crates" where
  "sample_json_crates j = sample_crates\<lparr>
     json_to_vec := (\<lambda>v. if v = j then Some [1] else None),
     json_to_vec_pretty := (\<lambda>v. if v = j then Some [1] else None),
     json_from_slice := (\<lambda>b. if b = [1] then Some j else None)\<rparr>"

lemma sample_json_crates_inverts: "json_inverts (sample_json_crates j)"
  by (auto simp: json_inverts_def sample_json_crates_def split: if_splits)

theorem clip_wire_roundtrip_witness:
  "\<exists>d. decode (sample_json_crates (JObj [(''t'', JStr T_CLIP), (''d'', clip_to_json sample_clip)])) [1]
         = Some (T_CLIP, d) \<and> clip_of_json d = Some sample_clip"
  by (rule clip_wire_roundtrip [OF sample_json_crates_inverts])
    (simp_all add: i64_range_def sample_clip_def encode_def sample_json_crates_def)

end
