(* ===== verification/Config.thy ===== *)
theory Config
  imports E2e
begin

text \<open>
  The persisted client identity and settings (\<open>core/src/config.rs\<close>) and the decoding of its
  SPKI pin (\<open>decode_pin\<close> of \<open>core/src/pinning.rs\<close>). The file system is a partial map from paths
  to contents; a failed write leaves whatever the operating system left there.
\<close>

type_synonym files = "rstr \<rightharpoonup> bytes"

datatype write_result = Written | WriteFailed "bytes option"

record config =
  c_server_url :: rstr
  c_server_name :: rstr
  c_server_id :: rstr
  c_device_id :: rstr
  c_device_name :: rstr
  c_token :: rstr
  c_pin :: rstr
  c_e2e_pass :: rstr
  c_exclude_sensitive :: bool
  c_sensitive_ttl_secs :: u64
  c_custom_patterns :: "rstr list"
  c_quick_panel_shortcut :: rstr
  c_auto_clear_secs :: u64
  c_mark_received_sensitive :: bool
  c_telemetry :: bool

definition DEFAULT_QUICK_PANEL_SHORTCUT :: rstr where
  "DEFAULT_QUICK_PANEL_SHORTCUT = lit ''CommandOrControl+Shift+KeyV''"

definition default_sensitive_ttl :: u64 where
  "default_sensitive_ttl = 45"

definition config_to_json :: "config \<Rightarrow> json" where
  "config_to_json c = JObj [
     (''serverUrl'', JStr (c_server_url c)), (''serverName'', JStr (c_server_name c)),
     (''serverId'', JStr (c_server_id c)), (''deviceId'', JStr (c_device_id c)),
     (''deviceName'', JStr (c_device_name c)), (''token'', JStr (c_token c)), (''pin'', JStr (c_pin c)),
     (''e2ePass'', JStr (c_e2e_pass c)), (''excludeSensitive'', JBool (c_exclude_sensitive c)),
     (''sensitiveTtlSecs'', JInt (uint (c_sensitive_ttl_secs c))),
     (''customPatterns'', JArr (map JStr (c_custom_patterns c))),
     (''quickPanelShortcut'', JStr (c_quick_panel_shortcut c)),
     (''autoClearSecs'', JInt (uint (c_auto_clear_secs c))),
     (''markReceivedSensitive'', JBool (c_mark_received_sensitive c)),
     (''telemetry'', JBool (c_telemetry c))]"

definition config_of_json :: "json \<Rightarrow> config option" where
  "config_of_json v = do {
     m \<leftarrow> struct_fields [''serverUrl'', ''serverName'', ''serverId'', ''deviceId'', ''deviceName'',
            ''token'', ''pin'', ''e2ePass'', ''excludeSensitive'', ''sensitiveTtlSecs'',
            ''customPatterns'', ''quickPanelShortcut'', ''autoClearSecs'',
            ''markReceivedSensitive'', ''telemetry''] v;
     su \<leftarrow> req as_str m ''serverUrl'';
     sn \<leftarrow> deflt as_str [] m ''serverName'';
     si \<leftarrow> deflt as_str [] m ''serverId'';
     di \<leftarrow> req as_str m ''deviceId'';
     dn \<leftarrow> req as_str m ''deviceName'';
     tk \<leftarrow> req as_str m ''token'';
     pn \<leftarrow> req as_str m ''pin'';
     ep \<leftarrow> deflt as_str [] m ''e2ePass'';
     ex \<leftarrow> deflt as_bool True m ''excludeSensitive'';
     tt \<leftarrow> deflt as_u64 default_sensitive_ttl m ''sensitiveTtlSecs'';
     cp \<leftarrow> deflt as_str_vec [] m ''customPatterns'';
     qs \<leftarrow> deflt as_str DEFAULT_QUICK_PANEL_SHORTCUT m ''quickPanelShortcut'';
     ac \<leftarrow> deflt as_u64 0 m ''autoClearSecs'';
     mr \<leftarrow> deflt as_bool False m ''markReceivedSensitive'';
     te \<leftarrow> deflt as_bool True m ''telemetry'';
     Some \<lparr>c_server_url = su, c_server_name = sn, c_server_id = si, c_device_id = di, c_device_name = dn,
           c_token = tk, c_pin = pn, c_e2e_pass = ep, c_exclude_sensitive = ex, c_sensitive_ttl_secs = tt,
           c_custom_patterns = cp, c_quick_panel_shortcut = qs, c_auto_clear_secs = ac,
           c_mark_received_sensitive = mr, c_telemetry = te\<rparr> }"

definition decode_pin :: "crates \<Rightarrow> rstr \<Rightarrow> bytes option" where
  "decode_pin cr b64 =
     (case b64_decode cr (trim b64) of
        None \<Rightarrow> None
      | Some v \<Rightarrow> if length v \<noteq> 32 then None else Some v)"

definition pin_bytes :: "crates \<Rightarrow> config \<Rightarrow> bytes option" where
  "pin_bytes cr c = decode_pin cr (c_pin c)"

definition e2e_key :: "crates \<Rightarrow> config \<Rightarrow> (bytes \<times> rstr) option" where
  "e2e_key cr c =
     (if c_e2e_pass c = [] \<or> c_server_id c = [] then None
      else (let k = derive_key cr (c_e2e_pass c) (c_server_id c) in Some (k, key_id cr k)))"

definition custom_regexes :: "crates \<Rightarrow> config \<Rightarrow> (rstr \<Rightarrow> bool) list" where
  "custom_regexes cr c = List.map_filter (regex_new cr) (c_custom_patterns c)"

definition config_load :: "crates \<Rightarrow> files \<Rightarrow> rstr \<Rightarrow> config option" where
  "config_load cr fs path = do {
     data \<leftarrow> fs path;
     v \<leftarrow> json_from_slice cr data;
     config_of_json v }"

definition config_save :: "crates \<Rightarrow> bool \<Rightarrow> write_result \<Rightarrow> files \<Rightarrow> rstr \<Rightarrow> config
    \<Rightarrow> files \<times> bool" where
  "config_save cr mkdir_ok wr fs path c =
     (if \<not> mkdir_ok then (fs, False)
      else (case json_to_vec_pretty cr (config_to_json c) of
              None \<Rightarrow> (fs, False)
            | Some b \<Rightarrow> (case wr of
                           Written \<Rightarrow> (fs(path \<mapsto> b), True)
                         | WriteFailed left \<Rightarrow> (fs(path := left), False))))"

subsection \<open>Facts\<close>

lemma config_json_roundtrip: "config_of_json (config_to_json c) = Some c"
  by (simp add: config_of_json_def config_to_json_def struct_fields_def req_def deflt_def)

lemma e2e_key_length: "argon_len cr \<Longrightarrow> e2e_key cr c = Some (k, kid) \<Longrightarrow> length k = 32"
  by (auto simp: e2e_key_def Let_def length_derive_key split: if_splits)

lemma decode_pin_length: "decode_pin cr b = Some p \<Longrightarrow> length p = 32"
  by (auto simp: decode_pin_def split: option.splits if_splits)

text \<open>A configuration that was saved loads back unchanged, with every field.\<close>

theorem config_save_load:
  assumes "json_inverts cr" and "config_save cr mk wr fs path c = (fs', True)"
  shows "config_load cr fs' path = Some c"
proof -
  obtain b where "json_to_vec_pretty cr (config_to_json c) = Some b" "fs' = fs(path \<mapsto> b)"
    using assms(2) by (auto simp: config_save_def split: if_splits option.splits write_result.splits)
  moreover from this have "json_from_slice cr b = Some (config_to_json c)"
    using assms(1) by (auto simp: json_inverts_def)
  ultimately show ?thesis by (simp add: config_load_def config_json_roundtrip)
qed

definition sample_config :: config where
  "sample_config = \<lparr>c_server_url = lit ''https://h:1'', c_server_name = lit ''S'', c_server_id = lit ''srv'',
     c_device_id = lit ''d1'', c_device_name = lit ''pc'', c_token = lit ''tok'', c_pin = replicate 32 65,
     c_e2e_pass = [], c_exclude_sensitive = True, c_sensitive_ttl_secs = 45, c_custom_patterns = [],
     c_quick_panel_shortcut = DEFAULT_QUICK_PANEL_SHORTCUT, c_auto_clear_secs = 0,
     c_mark_received_sensitive = False, c_telemetry = True\<rparr>"

definition sample_config_crates :: crates where
  "sample_config_crates = sample_crates\<lparr>
     json_to_vec_pretty := (\<lambda>v. if v = config_to_json sample_config then Some [1] else None),
     json_from_slice := (\<lambda>b. if b = [1] then Some (config_to_json sample_config) else Some JNull),
     json_to_vec := (\<lambda>v. if v = JNull then Some [] else None)\<rparr>"

theorem config_save_load_witness:
  "config_load sample_config_crates [lit ''c'' \<mapsto> [1]] (lit ''c'') = Some sample_config"
proof (rule config_save_load)
  show "json_inverts sample_config_crates"
    by (auto simp: json_inverts_def sample_config_crates_def split: if_splits)
  show "config_save sample_config_crates True Written Map.empty (lit ''c'') sample_config
      = ([lit ''c'' \<mapsto> [1]], True)"
    by (simp add: config_save_def sample_config_crates_def)
qed

text \<open>A configuration file written before the newer settings existed, with only the identity
  fields, still loads: the privacy filter and telemetry are on, sensitive history rows
  live 45 seconds, automatic clearing is off.\<close>

theorem config_legacy_defaults:
  "config_of_json (JObj [(''serverUrl'', JStr su), (''deviceId'', JStr di), (''deviceName'', JStr dn),
       (''token'', JStr tk), (''pin'', JStr pn)])
   = Some \<lparr>c_server_url = su, c_server_name = [], c_server_id = [], c_device_id = di, c_device_name = dn,
       c_token = tk, c_pin = pn, c_e2e_pass = [], c_exclude_sensitive = True, c_sensitive_ttl_secs = 45,
       c_custom_patterns = [], c_quick_panel_shortcut = lit ''CommandOrControl+Shift+KeyV'',
       c_auto_clear_secs = 0, c_mark_received_sensitive = False, c_telemetry = True\<rparr>"
  by (simp add: config_of_json_def struct_fields_def req_def deflt_def default_sensitive_ttl_def
      DEFAULT_QUICK_PANEL_SHORTCUT_def)

end
