(* ===== verification/Net.thy ===== *)
theory Net
  imports Protocol Config
begin

text \<open>
  The network layer: certificate pinning (\<open>pinning.rs\<close>), the WebSocket handshake and receive
  loop (\<open>ws.rs\<close>), the content-addressed blob channel (\<open>blob.rs\<close>), pairing (\<open>pairing.rs\<close>),
  discovery (\<open>discovery.rs\<close>) and telemetry upload (\<open>telemetry.rs\<close>).

  The peer is a parameter: what the server answers is given as an argument (a function of
  the request for HTTP, a list of items for the socket stream), so the theorems hold for
  every server, an adversarial one included.
\<close>

subsection \<open>Decimal numbers in URLs and messages\<close>

fun show_nat :: "nat \<Rightarrow> rstr" where
  "show_nat n = (if n < 10 then [48 + n] else show_nat (n div 10) @ [48 + n mod 10])"

declare show_nat.simps [simp del]

subsection \<open>Certificate pinning\<close>

datatype tls_error = ParseCert | PinMismatch

definition verify_server_cert :: "crates \<Rightarrow> bytes \<Rightarrow> bytes \<Rightarrow> tls_error + unit" where
  "verify_server_cert cr pin end_entity =
     (case spki_of_cert cr end_entity of
        None \<Rightarrow> Inl ParseCert
      | Some spki \<Rightarrow> if sha256 cr spki \<noteq> pin then Inl PinMismatch else Inr ())"

subsection \<open>The control channel\<close>

fun replace_first :: "rstr \<Rightarrow> rstr \<Rightarrow> rstr \<Rightarrow> rstr" where
  "replace_first [] p r = (if p = [] then r else [])"
| "replace_first (c # cs) p r =
     (if starts_with (c # cs) p then r @ drop (length p) (c # cs)
      else c # replace_first cs p r)"

definition to_ws_url :: "rstr \<Rightarrow> rstr" where
  "to_ws_url base =
     (let b = trim_end_matches base 47;
          b = replace_first b (lit ''https://'') (lit ''wss://'');
          b = replace_first b (lit ''http://'') (lit ''ws://'')
      in b @ lit ''/ws'')"

datatype ws_msg = MClose bytes | MPing bytes | MPong bytes | MData bytes

fun into_data :: "ws_msg \<Rightarrow> bytes" where
  "into_data (MClose b) = b"
| "into_data (MPing b) = b"
| "into_data (MPong b) = b"
| "into_data (MData b) = b"

text \<open>What the stream yields next: its end, a transport error, or a message.\<close>

datatype ws_item = WsEnd | WsError | WsMsg ws_msg

datatype conn_error =
    DialFailed | SendFailed | ClosedBeforeHello | RecvFailed | BadFrame
  | Rejected rstr rstr | UnexpectedFrame rstr

definition hello_msg :: "rstr \<Rightarrow> rstr \<Rightarrow> rstr \<Rightarrow> hello" where
  "hello_msg device_id device_name token =
     \<lparr>h_device_id = device_id, h_device_name = device_name, h_token = token,
      h_platform = lit ''linux'', h_proto = 1\<rparr>"

definition ws_connect :: "crates \<Rightarrow> bytes \<Rightarrow> rstr \<Rightarrow> rstr \<Rightarrow> rstr \<Rightarrow> bytes \<Rightarrow> bool \<Rightarrow> bool
    \<Rightarrow> ws_item \<Rightarrow> conn_error + hello_ok" where
  "ws_connect cr pin device_id device_name token server_cert dial_ok send_ok first =
     (if verify_server_cert cr pin server_cert \<noteq> Inr () \<or> \<not> dial_ok then Inl DialFailed
      else if encode cr T_HELLO (hello_to_json (hello_msg device_id device_name token)) = None
              \<or> \<not> send_ok then Inl SendFailed
      else (case first of
              WsEnd \<Rightarrow> Inl ClosedBeforeHello
            | WsError \<Rightarrow> Inl RecvFailed
            | WsMsg m \<Rightarrow>
                (case decode cr (into_data m) of
                   None \<Rightarrow> Inl BadFrame
                 | Some (t, d) \<Rightarrow>
                     if t = T_HELLO_OK then
                       (case hello_ok_of_json d of None \<Rightarrow> Inl BadFrame | Some h \<Rightarrow> Inr h)
                     else if t = T_HELLO_ERR then
                       (case hello_err_of_json d of
                          None \<Rightarrow> Inl (Rejected [] [])
                        | Some (code, message) \<Rightarrow> Inl (Rejected code message))
                     else Inl (UnexpectedFrame t))))"

definition KEEPALIVE :: rstr where
  "KEEPALIVE = 0 # lit ''keepalive''"

datatype recv_result = RecvFrame rstr json | RecvEof | RecvErr

text \<open>\<open>recv\<close> over the items that have arrived: \<open>None\<close> means it still waits for one.\<close>

fun ws_recv :: "crates \<Rightarrow> ws_item list \<Rightarrow> (recv_result \<times> ws_item list) option" where
  "ws_recv cr [] = None"
| "ws_recv cr (WsEnd # r) = Some (RecvEof, r)"
| "ws_recv cr (WsError # r) = Some (RecvErr, r)"
| "ws_recv cr (WsMsg (MClose b) # r) = Some (RecvEof, r)"
| "ws_recv cr (WsMsg (MPing b) # r) = Some (RecvFrame KEEPALIVE JNull, r)"
| "ws_recv cr (WsMsg (MPong b) # r) = Some (RecvFrame KEEPALIVE JNull, r)"
| "ws_recv cr (WsMsg (MData b) # r) =
     (if b = [] then ws_recv cr r
      else (case decode cr b of
              None \<Rightarrow> Some (RecvErr, r)
            | Some (t, d) \<Rightarrow> Some (RecvFrame t d, r)))"

subsection \<open>The blob channel\<close>

text \<open>An HTTP exchange: \<open>None\<close> is a transport failure, otherwise the status and the body.\<close>

type_synonym http_response = "(nat \<times> bytes) option"

definition is_success :: "nat \<Rightarrow> bool" where
  "is_success s \<longleftrightarrow> 200 \<le> s \<and> s < 300"

definition blob_id :: "crates \<Rightarrow> bytes \<Rightarrow> rstr" where
  "blob_id cr content = lit ''sha256:'' @ sha_hex cr content"

datatype blob_error = Transport rstr | BlobPut nat rstr | BlobGet nat | HashMismatch rstr rstr

definition blob_url :: "rstr \<Rightarrow> rstr \<Rightarrow> rstr" where
  "blob_url base bid = trim_end_matches base 47 @ lit ''/blob/'' @ bid"

definition put_blob :: "crates \<Rightarrow> (rstr \<Rightarrow> rstr \<Rightarrow> bytes \<Rightarrow> http_response) \<Rightarrow> rstr \<Rightarrow> rstr \<Rightarrow> rstr \<Rightarrow> bytes
    \<Rightarrow> blob_error + rstr" where
  "put_blob cr put transport_msg base token content =
     (let bid = blob_id cr content in
      case put (blob_url base bid) token content of
        None \<Rightarrow> Inl (Transport transport_msg)
      | Some (status, body) \<Rightarrow>
          if \<not> is_success status then Inl (BlobPut status (trim (from_utf8_lossy body)))
          else Inr bid)"

definition get_blob :: "crates \<Rightarrow> (rstr \<Rightarrow> rstr \<Rightarrow> http_response) \<Rightarrow> rstr \<Rightarrow> rstr \<Rightarrow> rstr \<Rightarrow> rstr
    \<Rightarrow> blob_error + bytes" where
  "get_blob cr get transport_msg base token bid =
     (case get (blob_url base bid) token of
        None \<Rightarrow> Inl (Transport transport_msg)
      | Some (status, bytes) \<Rightarrow>
          if \<not> is_success status then Inl (BlobGet status)
          else (let got = blob_id cr bytes
                in if got \<noteq> bid then Inl (HashMismatch bid got) else Inr bytes))"

text \<open>The \<open>Display\<close> text of a blob error, which \<open>classify_blob_err\<close> searches.\<close>

fun blob_error_text :: "blob_error \<Rightarrow> rstr" where
  "blob_error_text (Transport m) = m"
| "blob_error_text (BlobPut s t) = lit ''blob PUT '' @ show_nat s @ lit '': '' @ t"
| "blob_error_text (BlobGet s) = lit ''blob GET '' @ show_nat s"
| "blob_error_text (HashMismatch i g) =
     lit ''blob hash mismatch: requested '' @ i @ lit '', got '' @ g"

subsection \<open>Pairing\<close>

record claim_resp =
  cl_device_id :: rstr
  cl_token :: rstr
  cl_server_id :: rstr
  cl_server_name :: rstr

definition claim_resp_of_json :: "json \<Rightarrow> claim_resp option" where
  "claim_resp_of_json v = do {
     m \<leftarrow> struct_fields [''deviceId'', ''token'', ''serverId'', ''serverName''] v;
     d \<leftarrow> req as_str m ''deviceId'';
     t \<leftarrow> req as_str m ''token'';
     i \<leftarrow> req as_str m ''serverId'';
     n \<leftarrow> req as_str m ''serverName'';
     Some \<lparr>cl_device_id = d, cl_token = t, cl_server_id = i, cl_server_name = n\<rparr> }"

text \<open>The pin field of \<open>ServerInfo\<close>; the ids are required, the protocol number is optional.\<close>

definition spki_pin_of_json :: "json \<Rightarrow> rstr option" where
  "spki_pin_of_json v = do {
     m \<leftarrow> struct_fields [''serverId'', ''serverName'', ''spkiPin'', ''proto''] v;
     _ \<leftarrow> req as_str m ''serverId'';
     _ \<leftarrow> req as_str m ''serverName'';
     p \<leftarrow> req as_str m ''spkiPin'';
     _ \<leftarrow> deflt (\<lambda>j. case j of JInt n \<Rightarrow> if - (2 ^ 31) \<le> n \<and> n < 2 ^ 31 then Some n else None
                        | _ \<Rightarrow> None) 0 m ''proto'';
     Some p }"

definition server_info_insecure :: "crates \<Rightarrow> (rstr \<Rightarrow> http_response) \<Rightarrow> rstr \<Rightarrow> rstr option" where
  "server_info_insecure cr get base =
     (case get (trim_end_matches base 47 @ lit ''/pair/serverinfo'') of
        None \<Rightarrow> None
      | Some (status, body) \<Rightarrow>
          if 400 \<le> status \<and> status < 600 then None
          else Option.bind (json_from_slice cr body) spki_pin_of_json)"

definition claim_body :: "rstr \<Rightarrow> rstr \<Rightarrow> json" where
  "claim_body otp name = JObj [(''otp'', JStr otp), (''deviceName'', JStr name),
     (''platform'', JStr (lit ''linux''))]"

text \<open>\<open>post pin url body\<close> is the answer over a connection whose certificate matched \<open>pin\<close>.\<close>

definition claim :: "crates \<Rightarrow> (rstr \<Rightarrow> http_response) \<Rightarrow> (bytes \<Rightarrow> rstr \<Rightarrow> json \<Rightarrow> http_response)
    \<Rightarrow> rstr \<Rightarrow> rstr \<Rightarrow> rstr \<Rightarrow> rstr \<Rightarrow> rstr \<Rightarrow> config option" where
  "claim cr get post base pin0 otp name pass = do {
     pn \<leftarrow> (if trim pin0 = [] then server_info_insecure cr get base else Some (trim pin0));
     pb \<leftarrow> decode_pin cr pn;
     (status, text) \<leftarrow> post pb (trim_end_matches base 47 @ lit ''/pair/claim'') (claim_body otp name);
     if \<not> is_success status then None
     else do {
       v \<leftarrow> json_from_slice cr text;
       r \<leftarrow> claim_resp_of_json v;
       Some \<lparr>c_server_url = trim_end_matches base 47, c_server_name = cl_server_name r,
             c_server_id = cl_server_id r, c_device_id = cl_device_id r, c_device_name = name,
             c_token = cl_token r, c_pin = pn, c_e2e_pass = pass, c_exclude_sensitive = True,
             c_sensitive_ttl_secs = 45, c_custom_patterns = [],
             c_quick_panel_shortcut = DEFAULT_QUICK_PANEL_SHORTCUT, c_auto_clear_secs = 0,
             c_mark_received_sensitive = False, c_telemetry = True\<rparr> } }"

subsection \<open>Discovery\<close>

record found =
  f_name :: rstr
  f_url :: rstr

record service_info =
  si_port :: nat
  si_name_property :: "rstr option"
  si_hostname :: rstr
  si_addresses :: "(bool \<times> rstr) list"

text \<open>What the mDNS channel yields before the deadline: a resolved service (each address with
  its IPv4 flag), another event, or a receive timeout.\<close>

datatype mdns_event = ServiceResolved service_info | OtherEvent | RecvTimeout

fun add_addresses :: "rstr \<Rightarrow> nat \<Rightarrow> (bool \<times> rstr) list \<Rightarrow> found list \<Rightarrow> found list" where
  "add_addresses name port [] out = out"
| "add_addresses name port ((v4, addr) # as) out =
     (let url = lit ''https://'' @ addr @ lit '':'' @ show_nat port in
      add_addresses name port as
        (if v4 \<and> url \<notin> set (map f_url out) then out @ [\<lparr>f_name = name, f_url = url\<rparr>] else out))"

fun discover_step :: "mdns_event \<Rightarrow> found list \<Rightarrow> found list" where
  "discover_step (ServiceResolved info) out =
     (let name = (case si_name_property info of
                    Some n \<Rightarrow> n | None \<Rightarrow> trim_end_matches (si_hostname info) 46)
      in add_addresses name (si_port info) (si_addresses info) out)"
| "discover_step OtherEvent out = out"
| "discover_step RecvTimeout out = out"

definition discover :: "mdns_event list \<Rightarrow> found list" where
  "discover events = fold discover_step events []"

subsection \<open>Telemetry upload\<close>

record line =
  l_level :: rstr
  l_ts :: rstr
  l_msg :: rstr

definition line_to_json :: "line \<Rightarrow> json" where
  "line_to_json l = JObj [(''level'', JStr (l_level l)), (''ts'', JStr (l_ts l)), (''msg'', JStr (l_msg l))]"

text \<open>The requests sent and whether the call returned \<open>Ok\<close>.\<close>

definition telemetry_upload :: "(rstr \<Rightarrow> rstr \<Rightarrow> json \<Rightarrow> http_response) \<Rightarrow> rstr \<Rightarrow> rstr \<Rightarrow> rstr
    \<Rightarrow> line list \<Rightarrow> (rstr \<times> json) list \<times> bool" where
  "telemetry_upload post url_base token client lines =
     (if lines = [] then ([], True)
      else (let url = trim_end_matches url_base 47 @ lit ''/telemetry'';
                body = JObj [(''client'', JStr client), (''lines'', JArr (map line_to_json lines))]
            in ([(url, body)],
                case post url token body of None \<Rightarrow> False | Some (s, _) \<Rightarrow> is_success s)))"


subsection \<open>Facts\<close>

lemma verify_Inr_iff:
  "verify_server_cert cr p cert = Inr () \<longleftrightarrow> (\<exists>spki. spki_of_cert cr cert = Some spki \<and> sha256 cr spki = p)"
  by (auto simp: verify_server_cert_def split: option.splits)

lemma connect_verified:
  "ws_connect cr p did dn tk cert dial snd_ok first = Inr h \<Longrightarrow> verify_server_cert cr p cert = Inr ()"
  by (auto simp: ws_connect_def split: if_splits)

lemma claim_Some:
  assumes "claim cr get post base pin0 otp name pass = Some c"
  shows "\<exists>p s t. pin_bytes cr c = Some p \<and> c_server_url c = trim_end_matches base 47
    \<and> post p (c_server_url c @ lit ''/pair/claim'') (claim_body otp name) = Some (s, t)
    \<and> is_success s"
  using assms unfolding claim_def pin_bytes_def
  by (auto simp: bind_eq_Some_conv split: if_splits prod.splits)

lemma get_blob_Inr:
  "get_blob cr get msg base tk bid = Inr b \<Longrightarrow> blob_id cr b = bid"
  by (auto simp: get_blob_def Let_def split: option.splits if_splits)

lemma put_blob_Inr:
  "put_blob cr put msg base tk b = Inr bid \<Longrightarrow> bid = blob_id cr b"
  by (auto simp: put_blob_def Let_def split: option.splits if_splits)

definition urls :: "found list \<Rightarrow> rstr list" where
  "urls out = map f_url out"

lemma add_addresses_distinct:
  "distinct (urls out) \<Longrightarrow> distinct (urls (add_addresses name port as out))"
  by (induction name port as out rule: add_addresses.induct) (auto simp: urls_def Let_def)

text \<open>The discovery loop is a machine whose invariant is that no URL occurs twice.\<close>

interpretation disc: invariant_machine discover_step "\<lambda>out. distinct (urls out)"
proof
  fix out e
  assume "distinct (urls out)"
  then show "distinct (urls (discover_step e out))"
    by (cases e) (auto simp: add_addresses_distinct Let_def)
qed

lemma add_addresses_origin:
  "f \<in> set (add_addresses name port as out) \<Longrightarrow>
     f \<in> set out \<or> (\<exists>addr. (True, addr) \<in> set as \<and> f_url f = lit ''https://'' @ addr @ lit '':'' @ show_nat port)"
  by (induction name port as out rule: add_addresses.induct) (auto simp: Let_def split: if_splits)

lemma discover_origin:
  "f \<in> set (fold discover_step es out) \<Longrightarrow>
     f \<in> set out \<or> (\<exists>info addr. ServiceResolved info \<in> set es \<and> (True, addr) \<in> set (si_addresses info)
         \<and> f_url f = lit ''https://'' @ addr @ lit '':'' @ show_nat (si_port info))"
proof (induction es arbitrary: out)
  case (Cons e es)
  then consider "f \<in> set (discover_step e out)" |
    "\<exists>info addr. ServiceResolved info \<in> set es \<and> (True, addr) \<in> set (si_addresses info)
         \<and> f_url f = lit ''https://'' @ addr @ lit '':'' @ show_nat (si_port info)"
    by auto
  then show ?case
  proof cases
    case 1
    then show ?thesis
      by (cases e) (auto simp: Let_def dest!: add_addresses_origin)
  qed auto
qed simp

lemma replace_first_hit: "p \<noteq> [] \<Longrightarrow> replace_first (p @ s) p r = r @ s"
  by (cases p) (auto simp: starts_with_iff)

lemma replace_first_head:
  "c \<noteq> hd p \<Longrightarrow> p \<noteq> [] \<Longrightarrow> replace_first (c # s) p r = c # replace_first s p r"
  by (cases p) auto

subsection \<open>Properties\<close>

text \<open>Pairing pins the session: the configuration that pairing returns decodes to a pin, the
  one-time code was only sent over a connection pinned to that same key, and every later
  control connection with it that completes had a server certificate whose public key hashes
  to the pin.\<close>

theorem pairing_pins_sessions:
  assumes "claim cr get post base pin0 otp name pass = Some c"
  shows "\<exists>p. pin_bytes cr c = Some p
    \<and> (\<exists>s t. post p (c_server_url c @ lit ''/pair/claim'') (claim_body otp name) = Some (s, t)
        \<and> is_success s)
    \<and> (\<forall>did dn tk cert dial send_ok first h.
        ws_connect cr p did dn tk cert dial send_ok first = Inr h
        \<longrightarrow> (\<exists>spki. spki_of_cert cr cert = Some spki \<and> sha256 cr spki = p))"
proof -
  obtain p s t where p: "pin_bytes cr c = Some p"
    and post: "post p (c_server_url c @ lit ''/pair/claim'') (claim_body otp name) = Some (s, t)"
    and ok: "is_success s"
    using claim_Some [OF assms] by blast
  have "\<exists>spki. spki_of_cert cr cert = Some spki \<and> sha256 cr spki = p"
    if "ws_connect cr p did dn tk cert dial send_ok first = Inr h"
    for did dn tk cert dial send_ok first h
    using connect_verified [OF that] unfolding verify_Inr_iff .
  then show ?thesis using p post ok by blast
qed

definition sample_claim_json :: json where
  "sample_claim_json = JObj [(''deviceId'', JStr (lit ''d1'')), (''token'', JStr (lit ''tok'')),
     (''serverId'', JStr (lit ''srv'')), (''serverName'', JStr (lit ''S''))]"

theorem pairing_pins_sessions_witness:
  "\<exists>p. pin_bytes (sample_json_crates sample_claim_json) sample_config = Some p
    \<and> (\<exists>s t. (200, [1]) = (s, t) \<and> is_success s)"
proof -
  let ?cr = "sample_json_crates sample_claim_json"
  let ?post = "\<lambda>(p :: bytes) (u :: rstr) (b :: json). Some (200 :: nat, [1] :: bytes)"
  have "trim (replicate 32 65) = replicate 32 65"
    by (rule trim_replicate) (simp add: is_whitespace_def)
  then have "claim ?cr (\<lambda>_. None) ?post (lit ''https://h:1'') (replicate 32 65) (lit ''1'') (lit ''pc'') []
      = Some sample_config"
    by (simp add: claim_def decode_pin_def sample_json_crates_def sample_crates_def is_success_def
        sample_claim_json_def claim_resp_of_json_def struct_fields_def req_def sample_config_def
        trim_end_by_def)
  from pairing_pins_sessions [OF this] show ?thesis by auto
qed

text \<open>Blob integrity against any relay: bytes that a download accepts under the id of some
  content are that content, provided the digest does not collide on the two; whatever the
  server answered.\<close>

theorem blob_download_integrity:
  assumes "get_blob cr get msg base tk (blob_id cr content) = Inr got"
    and "inj_on (sha_hex cr) {got, content}"
  shows "got = content"
proof -
  have "blob_id cr got = blob_id cr content" using get_blob_Inr [OF assms(1)] .
  then have "sha_hex cr got = sha_hex cr content" by (simp add: blob_id_def)
  then show ?thesis by (rule inj_onD [OF assms(2)]) simp_all
qed

theorem blob_download_integrity_witness:
  "get_blob sample_crates (\<lambda>_ _. Some (200, [5, 6])) [] (lit ''https://h'') (lit ''tok'')
     (blob_id sample_crates [5, 6]) = Inr [5, 6] \<and> [5, 6] = ([5, 6] :: bytes)"
proof -
  have g: "get_blob sample_crates (\<lambda>_ _. Some (200, [5, 6])) [] (lit ''https://h'') (lit ''tok'')
     (blob_id sample_crates [5, 6]) = Inr [5, 6]"
    by (simp add: get_blob_def is_success_def)
  have "[5, 6] = ([5, 6] :: bytes)" by (rule blob_download_integrity [OF g]) simp
  with g show ?thesis by blast
qed

text \<open>A server that stores what was uploaded and returns it gives every download back: an
  upload that succeeded returns the content address, and a download by that address from a
  server answering with the uploaded bytes succeeds with exactly those bytes.\<close>

theorem blob_upload_download:
  assumes "put_blob cr put msg base tk content = Inr bid"
    and "get (blob_url base bid) tk = Some (200, content)"
  shows "get_blob cr get msg base tk bid = Inr content"
  using put_blob_Inr [OF assms(1)] assms(2) by (simp add: get_blob_def is_success_def)

theorem blob_upload_download_witness:
  "get_blob sample_crates (\<lambda>_ _. Some (200, [9])) [] (lit ''https://h/'') (lit ''tok'')
     (blob_id sample_crates [9]) = Inr [9]"
  by (rule blob_upload_download [where put = "\<lambda>_ _ _. Some (204, [])"])
    (simp_all add: put_blob_def is_success_def)

text \<open>Discovery returns every URL at most once, and every returned URL is the https URL of an
  IPv4 address and port that some resolved service announced.\<close>

theorem discover_sound:
  "distinct (map f_url (discover events))
   \<and> {f_url f | f. f \<in> set (discover events)}
      \<subseteq> {lit ''https://'' @ addr @ lit '':'' @ show_nat (si_port info) | info addr.
           ServiceResolved info \<in> set events \<and> (True, addr) \<in> set (si_addresses info)}"
proof
  have "distinct (urls [])" by (simp add: urls_def)
  then have "distinct (urls (discover events))"
    unfolding discover_def by (rule disc.run_inv)
  then show "distinct (map f_url (discover events))" by (simp add: urls_def)
next
  show "{f_url f | f. f \<in> set (discover events)}
      \<subseteq> {lit ''https://'' @ addr @ lit '':'' @ show_nat (si_port info) | info addr.
           ServiceResolved info \<in> set events \<and> (True, addr) \<in> set (si_addresses info)}"
    unfolding discover_def by (auto dest!: discover_origin) blast
qed

text \<open>An https server URL is always dialled over TLS: it becomes the wss URL of the same host
  with the path of the socket, trailing slashes removed.\<close>

theorem ws_url_keeps_tls:
  assumes "host \<noteq> []" and "last host \<noteq> 47" and "\<not> contains host (lit ''http://'')"
  shows "to_ws_url (lit ''https://'' @ host @ replicate n 47) = lit ''wss://'' @ host @ lit ''/ws''"
proof -
  have t: "trim_end_matches (lit ''https://'' @ host @ replicate n 47) 47 = lit ''https://'' @ host"
  proof -
    obtain h c where "host = h @ [c]" using assms(1) by (metis rev_exhaust)
    moreover have "dropWhile (\<lambda>x. x = 47) (replicate n 47 @ c # w) = c # w" if "c \<noteq> 47" for c :: nat and w
      using that by (induction n) auto
    ultimately show ?thesis using assms(2) by (simp add: trim_end_by_def)
  qed
  have "replace_first h (lit ''http://'') r = h" if "\<not> contains h (lit ''http://'')" for h r
    using that by (induction h) auto
  then have "replace_first (lit ''wss://'' @ host) (lit ''http://'') (lit ''ws://'') = lit ''wss://'' @ host"
    using assms(3) by (simp add: replace_first_head)
  moreover have "replace_first (lit ''https://'' @ host) (lit ''https://'') (lit ''wss://'') = lit ''wss://'' @ host"
    by (rule replace_first_hit) simp
  ultimately show ?thesis
    unfolding to_ws_url_def Let_def t by simp
qed

theorem ws_url_keeps_tls_witness:
  "to_ws_url (lit ''https://'' @ lit ''10.0.0.2:8443'' @ replicate 2 47)
     = lit ''wss://'' @ lit ''10.0.0.2:8443'' @ lit ''/ws''"
  by (rule ws_url_keeps_tls) simp_all

end
