(* ===== verification/Echo_Rings.thy ===== *)
theory Echo_Rings
  imports Net
begin

text \<open>
  The engine's self-contained helpers (\<open>core/src/engine.rs\<close>): the echo-suppression ring
  (\<open>remember\<close>, \<open>seen\<close>), the bounded ring of on-demand holds (\<open>hold_on_demand\<close> and the removal
  after a served request), reconnect backoff, the classification of blob errors, and the path
  and preview helpers. Both rings are interpretations of \<open>keyed_ring\<close>.

  Paths follow \<open>std::path\<close> on Unix. The clock is an argument.
\<close>

subsection \<open>Paths\<close>

text \<open>\<open>Path::file_name\<close>: the last component, after repeated separators and inner \<open>.\<close>
  components are dropped; a path that ends in \<open>..\<close> has none.\<close>

definition path_parts :: "rstr \<Rightarrow> rstr list" where
  "path_parts p = filter (\<lambda>w. w \<noteq> [] \<and> w \<noteq> lit ''.'') (split_on 47 p)"

definition path_file_name :: "rstr \<Rightarrow> rstr option" where
  "path_file_name p =
     (case rev (path_parts p) of
        [] \<Rightarrow> None
      | w # _ \<Rightarrow> if w = lit ''..'' then None else Some w)"

text \<open>\<open>Path::extension\<close>: what follows the last dot of the file name, unless that dot is its
  first character or there is none.\<close>

definition path_extension :: "rstr \<Rightarrow> rstr option" where
  "path_extension p =
     (case path_file_name p of
        None \<Rightarrow> None
      | Some f \<Rightarrow>
          (let after = rev (takeWhile (\<lambda>c. c \<noteq> 46) (rev f));
               rest = dropWhile (\<lambda>c. c \<noteq> 46) (rev f)
           in case rest of
                [] \<Rightarrow> None
              | _ # before \<Rightarrow> if before = [] then None else Some after))"

text \<open>\<open>Path::join\<close>: an absolute second path replaces the first.\<close>

definition path_join :: "rstr \<Rightarrow> rstr \<Rightarrow> rstr" where
  "path_join base p =
     (if starts_with p (lit ''/'') then p
      else if base = [] \<or> last base = 47 then base @ p
      else base @ lit ''/'' @ p)"

definition file_name :: "rstr \<Rightarrow> rstr" where
  "file_name path = (case path_file_name path of Some s \<Rightarrow> s | None \<Rightarrow> lit ''file'')"

definition mime_of :: "rstr \<Rightarrow> rstr" where
  "mime_of path =
     (let ext = to_ascii_lowercase (case path_extension path of Some e \<Rightarrow> e | None \<Rightarrow> [])
      in if ext = lit ''png'' then lit ''image/png''
         else if ext = lit ''jpg'' \<or> ext = lit ''jpeg'' then lit ''image/jpeg''
         else if ext = lit ''gif'' then lit ''image/gif''
         else if ext = lit ''webp'' then lit ''image/webp''
         else if ext = lit ''bmp'' then lit ''image/bmp''
         else if ext = lit ''pdf'' then lit ''application/pdf''
         else if ext = lit ''txt'' \<or> ext = lit ''md'' \<or> ext = lit ''log'' then lit ''text/plain''
         else if ext = lit ''zip'' then lit ''application/zip''
         else lit ''application/octet-stream'')"

definition preview :: "rstr \<Rightarrow> rstr" where
  "preview s = (let t = take 80 s in if length s > 80 then t @ [0x2026] else t)"

subsection \<open>The echo ring\<close>

type_synonym dedup = "(rstr \<times> millis) list"

definition ECHO_TTL :: millis where
  "ECHO_TTL = 3000"

fun refresh_slot :: "millis \<Rightarrow> rstr \<Rightarrow> dedup \<Rightarrow> dedup option" where
  "refresh_slot now sha [] = None"
| "refresh_slot now sha ((x, t) # q) =
     (if x = sha then Some ((x, now) # q)
      else map_option (Cons (x, t)) (refresh_slot now sha q))"

definition remember :: "millis \<Rightarrow> dedup \<Rightarrow> rstr \<Rightarrow> dedup" where
  "remember now q sha =
     (case refresh_slot now sha q of
        Some q' \<Rightarrow> q'
      | None \<Rightarrow> (let q' = (if length q \<ge> 64 then tl q else q) in q' @ [(sha, now)]))"

definition seen :: "millis \<Rightarrow> dedup \<Rightarrow> rstr \<Rightarrow> bool" where
  "seen now q sha = list_ex (\<lambda>(x, t). x = sha \<and> now - t < ECHO_TTL) q"

definition dedup_wf :: "dedup \<Rightarrow> bool" where
  "dedup_wf q \<longleftrightarrow> distinct (map fst q) \<and> length q \<le> 64"

lemma refresh_slot_None: "refresh_slot now sha q = None \<longleftrightarrow> sha \<notin> fst ` set q"
  by (induction now sha q rule: refresh_slot.induct) auto

lemma refresh_slot_keys: "refresh_slot now sha q = Some q' \<Longrightarrow> map fst q' = map fst q"
  by (induction now sha q arbitrary: q' rule: refresh_slot.induct) (auto split: if_splits)

lemma refresh_slot_set:
  assumes "refresh_slot now sha q = Some q'" "distinct (map fst q)"
  shows "set q' = insert (sha, now) {(x, t) \<in> set q. x \<noteq> sha}"
  using assms
proof (induction now sha q arbitrary: q' rule: refresh_slot.induct)
  case (2 now sha x t q)
  show ?case
  proof (cases "x = sha")
    case True
    then have "q' = (x, now) # q" using 2(2) by simp
    moreover have "\<forall>(y, u)\<in>set q. y \<noteq> sha" using 2(3) True by force
    ultimately show ?thesis using True by auto
  next
    case False
    then obtain r where r: "refresh_slot now sha q = Some r" "q' = (x, t) # r" using 2(2) by auto
    have "set r = insert (sha, now) {(x, t) \<in> set q. x \<noteq> sha}"
      using 2(1) [OF False r(1)] 2(3) by simp
    then show ?thesis using r(2) False by auto
  qed
qed simp

lemma map_tl_drop: "length q = 64 \<Longrightarrow> tl q = drop (Suc (length q) - 64) q"
  by (simp add: drop_Suc)

lemma remember_hit:
  "sha \<in> fst ` set q \<Longrightarrow> map fst (remember now q sha) = map fst q"
  by (auto simp: remember_def refresh_slot_None refresh_slot_keys split: option.splits)

lemma remember_miss:
  assumes "sha \<notin> fst ` set q" "length q \<le> 64"
  shows "remember now q sha = drop (Suc (length q) - 64) q @ [(sha, now)]"
proof -
  have "refresh_slot now sha q = None" using assms(1) by (simp add: refresh_slot_None)
  moreover have "(if length q \<ge> 64 then tl q else q) = drop (Suc (length q) - 64) q"
    using assms(2) by (cases "length q = 64") (simp_all add: map_tl_drop)
  ultimately show ?thesis by (simp add: remember_def)
qed

lemma remember_wf:
  assumes "dedup_wf q"
  shows "dedup_wf (remember now q sha)"
proof (cases "sha \<in> fst ` set q")
  case True
  have "map fst (remember now q sha) = map fst q" using remember_hit [OF True] .
  moreover from this have "length (remember now q sha) = length q" by (metis length_map)
  ultimately show ?thesis using assms by (simp add: dedup_wf_def)
next
  case False
  moreover have "length q \<le> 64" using assms by (simp add: dedup_wf_def)
  ultimately show ?thesis
    using assms remember_miss [OF False]
    by (auto simp: dedup_wf_def drop_map [symmetric] distinct_drop dest!: in_set_dropD)
qed

interpretation echo: keyed_ring "\<lambda>sha now q. remember now q sha" "map fst" dedup_wf 64
proof
  show "distinct (map fst r) \<and> length (map fst r) \<le> 64" if "dedup_wf r" for r
    using that by (simp add: dedup_wf_def)
  show "dedup_wf (remember v r k)" if "dedup_wf r" for r k v
    using that by (rule remember_wf)
  show "map fst (remember v r k) = map fst r" if "k \<in> set (map fst r)" for r k v
    using that remember_hit [of k r v] by simp
  show "map fst (remember v r k) = drop (Suc (length (map fst r)) - 64) (map fst r @ [k])"
    if "dedup_wf r" "k \<notin> set (map fst r)" for r k v
  proof -
    have l: "length r \<le> 64" using that(1) by (simp add: dedup_wf_def)
    have d: "Suc (length r) - 64 \<le> length r" by simp
    show ?thesis using remember_miss [OF _ l, of k v] that(2) d
      by (simp add: drop_map)
  qed
qed simp

text \<open>What a remembered hash is stored with does not change while other hashes are remembered.\<close>

lemma remember_other:
  assumes "dedup_wf q" "(x, t) \<in> set (remember now q sha)" "x \<noteq> sha"
  shows "(x, t) \<in> set q"
proof (cases "refresh_slot now sha q")
  case None
  then show ?thesis using assms(2,3)
    by (auto simp: remember_def Let_def split: if_splits dest: list.set_sel(2) [rotated])
next
  case (Some q')
  moreover have "distinct (map fst q)" using assms(1) by (simp add: dedup_wf_def)
  ultimately show ?thesis using assms(2,3) refresh_slot_set [OF Some] by (simp add: remember_def)
qed

lemma remember_self:
  assumes "dedup_wf q"
  shows "(sha, t) \<in> set (remember now q sha) \<longleftrightarrow> t = now"
proof (cases "refresh_slot now sha q")
  case None
  then have "sha \<notin> fst ` set q" by (simp add: refresh_slot_None)
  moreover have "set (tl q) \<subseteq> set q" by (cases q) auto
  ultimately have "(sha, t) \<notin> set q" "(sha, t) \<notin> set (tl q)" by force+
  then show ?thesis using None by (auto simp: remember_def Let_def)
next
  case (Some q')
  moreover have "distinct (map fst q)" using assms(1) by (simp add: dedup_wf_def)
  ultimately show ?thesis using refresh_slot_set [OF Some] by (auto simp: remember_def)
qed

lemma seen_iff: "seen now q sha \<longleftrightarrow> (\<exists>t. (sha, t) \<in> set q \<and> now - t < ECHO_TTL)"
  by (auto simp: seen_def list_ex_iff)

lemma run_remember_other:
  assumes "dedup_wf q" "sha \<notin> fst ` set kvs"
    and "(sha, t) \<in> set (fold (\<lambda>(k, v) q. remember v q k) kvs q)"
  shows "(sha, t) \<in> set q"
  using assms
proof (induction kvs arbitrary: q)
  case (Cons kv kvs)
  obtain k v where kv: "kv = (k, v)" by (cases kv)
  have "(sha, t) \<in> set (remember v q k)"
    using Cons.IH [OF remember_wf [OF Cons.prems(1)]] Cons.prems(2,3) kv by simp
  then show ?case using remember_other [OF Cons.prems(1)] Cons.prems(2) kv by auto
qed simp

subsection \<open>On-demand holds\<close>

datatype hold = Sealed bytes | Plain rstr

type_synonym holds = "(rstr \<rightharpoonup> hold) \<times> rstr list"

definition MAX_HOLDS :: nat where
  "MAX_HOLDS = 64"

text \<open>The eviction loop of \<open>hold_on_demand\<close>: while the order is too long, drop its front.\<close>

fun evict :: "holds \<Rightarrow> holds" where
  "evict (m, []) = (m, [])"
| "evict (m, old # order) =
     (if length (old # order) > MAX_HOLDS then evict (m(old := None), order) else (m, old # order))"

definition hold_on_demand :: "holds \<Rightarrow> rstr \<Rightarrow> hold \<Rightarrow> holds" where
  "hold_on_demand = (\<lambda>(m, order) key h.
     (let m' = m(key \<mapsto> h) in
      if m key = None then evict (m', order @ [key]) else (m', order)))"

text \<open>What the loop does with a finished \<open>BlobResult::Serve\<close>.\<close>

definition drop_served :: "rstr \<Rightarrow> bool \<Rightarrow> holds \<Rightarrow> holds" where
  "drop_served key ok = (\<lambda>(m, order).
     if ok \<and> m key \<noteq> None then (m(key := None), filter (\<lambda>k. k \<noteq> key) order) else (m, order))"

definition holds_wf :: "holds \<Rightarrow> bool" where
  "holds_wf = (\<lambda>(m, order). distinct order \<and> dom m = set order \<and> length order \<le> MAX_HOLDS)"

lemma evict_length: "length (snd (evict h)) \<le> MAX_HOLDS"
  by (induction h rule: evict.induct) (auto simp: MAX_HOLDS_def)

lemma evict_drop: "evict (m, order)
    = (m |` (- set (take (length order - MAX_HOLDS) order)), drop (length order - MAX_HOLDS) order)"
proof (induction "(m, order)" arbitrary: m order rule: evict.induct)
  case (2 m old order)
  show ?case
  proof (cases "length (old # order) > MAX_HOLDS")
    case True
    then obtain d where d: "length (old # order) - MAX_HOLDS = Suc d" "length order - MAX_HOLDS = d"
      by (metis Suc_diff_le length_Cons less_Suc_eq_le)
    have "(m(old := None)) |` (- set (take d order)) = m |` (- insert old (set (take d order)))"
      by (rule ext) (auto simp: restrict_map_def)
    then show ?thesis using True 2 d by simp
  next
    case False
    then show ?thesis by (simp add: restrict_map_def)
  qed
qed (simp add: restrict_map_def)

lemma holds_wf_hit: "holds_wf (m, order) \<Longrightarrow> m key = None \<longleftrightarrow> key \<notin> set order"
  by (auto simp: holds_wf_def)

lemma hold_wf:
  assumes "holds_wf h"
  shows "holds_wf (hold_on_demand h key v)"
proof -
  obtain m order where h: "h = (m, order)" by (cases h)
  show ?thesis
  proof (cases "m key = None")
    case True
    define d where "d = Suc (length order) - MAX_HOLDS"
    have k: "key \<notin> set order" using True assms h holds_wf_hit by blast
    have w: "distinct order" "dom m = set order" "d \<le> length order"
      using assms by (auto simp: h holds_wf_def d_def MAX_HOLDS_def)
    have dist: "distinct (drop d order @ [key])" using w(1) k by (auto dest: in_set_dropD)
    have "set (take d order) \<inter> set (drop d order) = {}"
      using w(1) by (metis append_take_drop_id distinct_append)
    moreover have "set order = set (take d order) \<union> set (drop d order)"
      by (metis append_take_drop_id set_append)
    ultimately have "dom ((m(key \<mapsto> v)) |` (- set (take d order))) = set (drop d order @ [key])"
      using w(2) k by auto
    with dist show ?thesis
      using True w(3) by (simp add: h hold_on_demand_def evict_drop holds_wf_def d_def Let_def)
  next
    case False
    then show ?thesis using assms by (auto simp: h hold_on_demand_def holds_wf_def Let_def)
  qed
qed

lemma drop_served_wf: "holds_wf h \<Longrightarrow> holds_wf (drop_served key ok h)"
  by (cases h) (auto simp: holds_wf_def drop_served_def intro: le_trans [OF length_filter_le])

interpretation holds: keyed_ring "\<lambda>k v h. hold_on_demand h k v" snd holds_wf MAX_HOLDS
proof
  show "0 < MAX_HOLDS" by (simp add: MAX_HOLDS_def)
  show "distinct (snd r) \<and> length (snd r) \<le> MAX_HOLDS" if "holds_wf r" for r
    using that by (cases r) (simp add: holds_wf_def)
  show "holds_wf (hold_on_demand r k v)" if "holds_wf r" for r k v
    using that by (rule hold_wf)
  show "snd (hold_on_demand r k v) = snd r" if "holds_wf r" "k \<in> set (snd r)" for r k v
    using that holds_wf_hit [of "fst r" "snd r" k]
    by (cases r) (auto simp: hold_on_demand_def Let_def)
  show "snd (hold_on_demand r k v) = drop (Suc (length (snd r)) - MAX_HOLDS) (snd r @ [k])"
    if "holds_wf r" "k \<notin> set (snd r)" for r k v
    using that holds_wf_hit [of "fst r" "snd r" k]
    by (cases r) (simp add: hold_on_demand_def Let_def evict_drop)
qed

subsection \<open>Backoff\<close>

text \<open>The jitter comes from the milliseconds of the wall clock, when it can be read.\<close>

definition backoff_delay :: "nat option \<Rightarrow> u32 \<Rightarrow> u64" where
  "backoff_delay subsec_millis attempt =
     (let secs = min (push_bit (unat (min attempt 5)) 1) 30;
          jitter = (case subsec_millis of Some ms \<Rightarrow> of_nat ms mod 700 | None \<Rightarrow> 0)
      in secs * 1000 + jitter)"

subsection \<open>Blob error classes\<close>

definition classify_blob_err :: "blob_error \<Rightarrow> rstr" where
  "classify_blob_err e =
     (let s = to_ascii_lowercase (blob_error_text e) in
      if list_ex (contains s) [lit ''400'', lit ''401'', lit ''403'', lit ''404'', lit ''413'', lit ''422'']
      then lit ''permanent''
      else if list_ex (contains s) [lit ''408'', lit ''429'', lit ''500'', lit ''502'', lit ''503'', lit ''504'',
             lit ''timeout'', lit ''timed out'', lit ''connection'', lit ''connect'', lit ''reset'',
             lit ''refused'', lit ''dns'', lit ''tls'', lit ''eof'']
      then lit ''transient''
      else lit ''transient'')"

subsection \<open>Hashing a file in chunks\<close>

text \<open>\<open>file_sha_hex\<close> reads until a read returns no bytes. The argument is what opening the
  file gave: nothing, or the results of the reads that follow.\<close>

fun read_chunks :: "bytes option list \<Rightarrow> bytes option" where
  "read_chunks [] = Some []"
| "read_chunks (None # r) = None"
| "read_chunks (Some b # r) = (if b = [] then Some [] else map_option ((@) b) (read_chunks r))"

definition file_sha_hex :: "crates \<Rightarrow> bytes option list option \<Rightarrow> rstr option" where
  "file_sha_hex cr opened =
     (case opened of
        None \<Rightarrow> None
      | Some rs \<Rightarrow> map_option (sha_hex cr) (read_chunks rs))"

subsection \<open>Sizes for people\<close>

text \<open>\<open>human\<close>: the divisions by 1024 are exact in \<open>f64\<close> below \<open>2 ^ 53\<close> bytes, and the one
  decimal is rounded half to even.\<close>

function human_unit :: "nat \<Rightarrow> nat \<Rightarrow> nat" where
  "human_unit n i = (if i < 3 \<and> 1024 * 1024 ^ i \<le> n then human_unit n (Suc i) else i)"
  by auto
termination by (relation "measure (\<lambda>(n, i). 3 - i)") auto

declare human_unit.simps [simp del]

definition round_half_even :: "nat \<Rightarrow> nat \<Rightarrow> nat" where
  "round_half_even a b =
     (let q = a div b; r = a mod b
      in if 2 * r > b \<or> (2 * r = b \<and> odd q) then q + 1 else q)"

definition human :: "nat \<Rightarrow> rstr" where
  "human n =
     (let i = human_unit n 0;
          tenths = round_half_even (10 * n) (1024 ^ i)
      in if i = 0 then show_nat n @ lit '' B''
         else show_nat (tenths div 10) @ lit ''.'' @ show_nat (tenths mod 10) @ lit '' ''
              @ [lit ''B'', lit ''KB'', lit ''MB'', lit ''GB''] ! i)"

subsection \<open>Facts\<close>

lemma split_on_no_sep: "w \<in> set (split_on d s) \<Longrightarrow> d \<notin> set w"
  by (induction d s arbitrary: w rule: split_on.induct) (auto split: if_splits list.splits)

lemma path_file_name_safe:
  assumes "path_file_name p = Some w"
  shows "w \<noteq> []" "w \<noteq> lit ''.''" "w \<noteq> lit ''..''" "47 \<notin> set w"
proof -
  obtain ws where r: "rev (path_parts p) = w # ws" and d: "w \<noteq> lit ''..''"
    using assms by (auto simp: path_file_name_def split: list.splits if_splits)
  then have "w \<in> set (path_parts p)" by (metis list.set_intros(1) set_rev)
  then have "w \<noteq> []" "w \<noteq> lit ''.''" "47 \<notin> set w"
    using split_on_no_sep by (auto simp: path_parts_def)
  with d show "w \<noteq> []" "w \<noteq> lit ''.''" "w \<noteq> lit ''..''" "47 \<notin> set w" by blast+
qed

lemma file_name_safe: "47 \<notin> set (file_name p)" "file_name p \<noteq> []" "file_name p \<noteq> lit ''..''"
  using path_file_name_safe [of p] by (auto simp: file_name_def split: option.splits)

lemma read_chunks_concat:
  "\<forall>b\<in>set bs. b \<noteq> [] \<Longrightarrow> read_chunks (map Some bs @ [Some []]) = Some (concat bs)"
  by (induction bs) auto

lemma hold_other:
  assumes "holds_wf h" "k \<noteq> key" "k \<in> set (snd (hold_on_demand h key v))"
  shows "fst (hold_on_demand h key v) k = fst h k"
proof -
  obtain m order where h: "h = (m, order)" by (cases h)
  have "holds_wf (hold_on_demand h key v)" using hold_wf [OF assms(1)] .
  then have "fst (hold_on_demand h key v) k \<noteq> None"
    using assms(3) by (cases "hold_on_demand h key v") (auto simp: holds_wf_def)
  then show ?thesis
    using assms(2) by (auto simp: h hold_on_demand_def evict_drop Let_def restrict_map_def split: if_splits)
qed

lemma hold_self:
  assumes "holds_wf h"
  shows "fst (hold_on_demand h key v) key = Some v"
proof -
  have "key \<in> dom (fst (hold_on_demand h key v))"
    using holds.ins_present [OF assms, of key v] hold_wf [OF assms, of key v]
    by (cases "hold_on_demand h key v") (simp add: holds_wf_def)
  then show ?thesis
    by (cases h) (auto simp: hold_on_demand_def evict_drop Let_def restrict_map_def split: if_splits)
qed

lemma run_hold_value:
  assumes "holds_wf h" "k \<notin> fst ` set kvs"
    and "k \<in> set (snd (fold (\<lambda>(k, v) h. hold_on_demand h k v) kvs h))"
  shows "fst (fold (\<lambda>(k, v) h. hold_on_demand h k v) kvs h) k = fst h k"
  using assms
proof (induction kvs arbitrary: h)
  case (Cons kv kvs)
  obtain k' v where kv: "kv = (k', v)" by (cases kv)
  define h' where "h' = hold_on_demand h k' v"
  have h': "holds_wf h'" unfolding h'_def using hold_wf [OF Cons.prems(1)] .
  have 1: "fst (fold (\<lambda>(k, v) h. hold_on_demand h k v) kvs h') k = fst h' k"
    using Cons.IH [OF h'] Cons.prems(2,3) by (simp add: kv h'_def)
  have "holds_wf (fold (\<lambda>(k, v) h. hold_on_demand h k v) kvs h')" using holds.run_wf [OF h'] .
  then have "k \<in> dom (fst (fold (\<lambda>(k, v) h. hold_on_demand h k v) kvs h'))"
    using Cons.prems(3) by (auto simp: kv h'_def holds_wf_def split: prod.splits)
  then have "k \<in> dom (fst h')" using 1 by (simp add: dom_def)
  then have "k \<in> set (snd h')" using h' by (cases h') (simp add: holds_wf_def)
  then have "fst h' k = fst h k"
    using hold_other [OF Cons.prems(1)] Cons.prems(2) by (auto simp: kv h'_def)
  with 1 show ?case by (simp add: kv h'_def)
qed simp

lemma backoff_secs: "min (push_bit (unat (min a 5)) 1) 30 = (of_nat (min (2 ^ unat (min a (5 :: u32))) 30) :: u64)"
proof -
  have "unat (min a 5) \<le> 5" by (simp add: min_def word_le_nat_alt)
  then consider "unat (min a 5) = 0" | "unat (min a 5) = 1" | "unat (min a 5) = 2"
    | "unat (min a 5) = 3" | "unat (min a 5) = 4" | "unat (min a 5) = 5" by linarith
  then show ?thesis by cases (simp_all add: push_bit_eq_mult min_def)
qed

lemma unat_min_5: "unat (min a (5 :: u32)) = min (unat a) 5"
  by (simp add: min_def word_le_nat_alt)

lemma unat_backoff_delay:
  "unat (backoff_delay j a) = min (2 ^ min (unat a) 5) 30 * 1000
     + (case j of Some ms \<Rightarrow> unat (of_nat ms mod 700 :: u64) | None \<Rightarrow> 0)"
proof -
  define s :: nat where "s = min (2 ^ min (unat a) 5) 30"
  define t :: u64 where "t = (case j of Some ms \<Rightarrow> of_nat ms mod 700 | None \<Rightarrow> 0)"
  have s: "s \<le> 30" by (simp add: s_def)
  have "unat t < 700" by (cases j) (simp_all add: t_def unat_mod)
  then have "s * 1000 + unat t < 2 ^ 64" using s by simp
  moreover have "backoff_delay j a = of_nat (s * 1000 + unat t)"
    unfolding backoff_delay_def Let_def backoff_secs t_def [symmetric]
    unfolding unat_min_5 s_def [symmetric] by simp
  ultimately have "unat (backoff_delay j a) = s * 1000 + unat t"
    by (simp add: unat_of_nat del: of_nat_add of_nat_mult)
  moreover have "unat t = (case j of Some ms \<Rightarrow> unat (of_nat ms mod 700 :: u64) | None \<Rightarrow> 0)"
    by (simp add: t_def split: option.splits)
  ultimately show ?thesis by (simp add: s_def)
qed

lemma show_nat_3:
  assumes "100 \<le> s" "s < 1000"
  shows "show_nat s = [48 + s div 100, 48 + s div 10 mod 10, 48 + s mod 10]"
proof -
  have 1: "s div 10 div 10 = s div 100" by (simp add: div_mult2_eq [symmetric])
  have 2: "\<not> s div 10 < 10" "s div 100 < 10" "\<not> s < 10" using assms by auto
  have "show_nat (s div 100) = [48 + s div 100]" using 2 by (subst show_nat.simps) simp
  moreover have "show_nat (s div 10) = show_nat (s div 100) @ [48 + s div 10 mod 10]"
    using 1 2 by (subst show_nat.simps) simp
  moreover have "show_nat s = show_nat (s div 10) @ [48 + s mod 10]"
    using 2 by (subst show_nat.simps) simp
  ultimately show ?thesis by simp
qed

lemma blob_get_text: "100 \<le> s \<Longrightarrow> s < 1000 \<Longrightarrow> to_ascii_lowercase (blob_error_text (BlobGet s)) =
  lit ''blob get '' @ [48 + s div 100, 48 + s div 10 mod 10, 48 + s mod 10]"
  by (auto simp: show_nat_3 ascii_lower_def)

lemma contains_code:
  assumes "48 \<le> x" "x < 58"
  shows "contains (lit ''blob get '' @ [a, b, c]) [x, y, z] \<longleftrightarrow> a = x \<and> b = y \<and> c = z"
  using assms by simp

subsection \<open>Properties\<close>

text \<open>Echo suppression has exactly the window it is meant to have: a hash recorded for the first
  time is suppressed for three seconds, and neither fewer than 64 other hashes recorded
  meanwhile nor anything else changes that; after the three seconds the same content syncs again.\<close>

theorem echo_window:
  assumes "dedup_wf q" "sha \<notin> fst ` set q"
    and "length kvs < 64" "sha \<notin> fst ` set kvs"
  shows "seen now (fold (\<lambda>(k, v) q. remember v q k) kvs (remember t q sha)) sha \<longleftrightarrow> now - t < ECHO_TTL"
proof -
  define q' where "q' = fold (\<lambda>(k, v) q. remember v q k) kvs (remember t q sha)"
  have "sha \<in> set (map fst q')"
    unfolding q'_def using echo.fresh_key_retained [of q sha kvs t] assms(1,2,3) by simp
  then obtain u where u: "(sha, u) \<in> set q'" by auto
  have "v = t" if "(sha, v) \<in> set q'" for v
    using run_remember_other [OF remember_wf [OF assms(1)] assms(4)] that
    remember_self [OF assms(1)] unfolding q'_def by blast
  then show ?thesis using u unfolding q'_def [symmetric] seen_iff by blast
qed

theorem echo_window_witness:
  "seen 2900 (fold (\<lambda>(k, v) q. remember v q k) [(lit ''b'', 60)] (remember 50 [] (lit ''a''))) (lit ''a'')
   \<and> \<not> seen 3050 (fold (\<lambda>(k, v) q. remember v q k) [(lit ''b'', 60)] (remember 50 [] (lit ''a''))) (lit ''a'')"
  using echo_window [of "[]" "lit ''a''" "[(lit ''b'', 60)]" 2900 50]
    echo_window [of "[]" "lit ''a''" "[(lit ''b'', 60)]" 3050 50]
  by (simp add: dedup_wf_def ECHO_TTL_def)

text \<open>A refreshed hash keeps its old place in the ring: recorded again while it is the oldest of
  64, it is forgotten as soon as one new hash comes in, and its echo is no longer suppressed.\<close>

theorem echo_refresh_evicted:
  assumes "dedup_wf ((sha, t0) # q)" "length q = 63" "other \<noteq> sha" "other \<notin> fst ` set q"
  shows "\<not> seen now (remember t2 (remember t1 ((sha, t0) # q) sha) other) sha"
proof -
  have "remember t1 ((sha, t0) # q) sha = (sha, t1) # q" by (simp add: remember_def)
  moreover have "remember t2 ((sha, t1) # q) other = q @ [(other, t2)]"
    using remember_miss [of other "(sha, t1) # q" t2] assms(2-4) by simp
  moreover have "sha \<notin> fst ` set q" using assms(1) by (simp add: dedup_wf_def)
  ultimately show ?thesis using assms(3) by (force simp: seen_iff)
qed

theorem echo_refresh_evicted_witness:
  "\<not> seen 11 (remember 10 (remember 9 ((lit ''x'', 0) # map (\<lambda>i. ([i], 1)) [0..<63]) (lit ''x'')) (lit ''y''))
     (lit ''x'')"
proof (rule echo_refresh_evicted)
  have "distinct (map (\<lambda>i. [i]) [0..<63])" by (simp add: distinct_map inj_on_def)
  then show "dedup_wf ((lit ''x'', 0) # map (\<lambda>i. ([i], 1)) [0..<63])"
    by (auto simp: dedup_wf_def comp_def)
qed auto

text \<open>A large file that was advertised stays available: while fewer than 64 other blobs are
  advertised after it, its bytes are still held for the server's request, and however many are
  advertised the engine never holds more than 64.\<close>

theorem advertised_blob_held:
  assumes "holds_wf h" "bid \<notin> set (snd h)" "length kvs < MAX_HOLDS" "bid \<notin> fst ` set kvs"
    and "h' = fold (\<lambda>(k, v) h. hold_on_demand h k v) kvs (hold_on_demand h bid v)"
  shows "fst h' bid = Some v \<and> card (dom (fst h')) \<le> MAX_HOLDS \<and> holds_wf h'"
proof -
  define h1 where "h1 = hold_on_demand h bid v"
  have wf1: "holds_wf h1" unfolding h1_def using hold_wf [OF assms(1)] .
  then have wf: "holds_wf h'" unfolding assms(5) h1_def [symmetric] by (rule holds.run_wf)
  have in': "bid \<in> set (snd h')"
    unfolding assms(5) using holds.fresh_key_retained [OF assms(1-3), of v] by simp
  have "fst h' bid = fst h1 bid"
    using run_hold_value [OF wf1 assms(4)] in' unfolding assms(5) h1_def by blast
  moreover have "fst h1 bid = Some v" unfolding h1_def using hold_self [OF assms(1)] .
  moreover have "card (dom (fst h')) \<le> MAX_HOLDS"
    using wf by (cases h') (auto simp: holds_wf_def distinct_card)
  ultimately show ?thesis using wf \<open>fst h' bid = fst h1 bid\<close> by simp
qed

theorem advertised_blob_held_witness:
  "fst (hold_on_demand (hold_on_demand (\<lambda>_. None, []) (lit ''a'') (Plain (lit ''f''))) (lit ''b'') (Sealed [1]))
     (lit ''a'') = Some (Plain (lit ''f''))"
  using advertised_blob_held [of "(\<lambda>_. None, [])" "lit ''a''" "[(lit ''b'', Sealed [1])]"
      "hold_on_demand (hold_on_demand (\<lambda>_. None, []) (lit ''a'') (Plain (lit ''f''))) (lit ''b'') (Sealed [1])"
      "Plain (lit ''f'')"]
  by (simp add: holds_wf_def MAX_HOLDS_def)

text \<open>The wait before a reconnect grows as a power of two up to 30 seconds, never exceeds 30.7
  seconds, and never wraps, whatever the attempt counter and the clock.\<close>

theorem backoff_bounds:
  "let base = min (2 ^ min (unat attempt) 5) 30 * 1000 in
   base \<le> unat (backoff_delay subsec attempt) \<and> unat (backoff_delay subsec attempt) < base + 700
   \<and> unat (backoff_delay subsec attempt) < 30700"
proof -
  define t where "t = (case subsec of Some ms \<Rightarrow> unat (of_nat ms mod 700 :: u64) | None \<Rightarrow> 0)"
  have "t < 700" by (cases subsec) (simp_all add: t_def unat_mod)
  moreover have "min (2 ^ min (unat attempt) 5) (30::nat) \<le> 30" by simp
  ultimately show ?thesis
    unfolding unat_backoff_delay t_def [symmetric] Let_def by linarith
qed

text \<open>The class of a failed download is decided by its HTTP status alone: exactly the six client
  errors are permanent.\<close>

theorem blob_get_class:
  assumes "100 \<le> s" "s < 1000"
  shows "classify_blob_err (BlobGet s) = (if s \<in> {400, 401, 403, 404, 413, 422} then lit ''permanent'' else lit ''transient'')"
proof -
  define a where "a = s div 100"
  define b where "b = s div 10 mod 10"
  define c where "c = s mod 10"
  have "s div 10 = 10 * a + b" using mult_div_mod_eq [of 10 "s div 10"]
    by (simp add: a_def b_def div_mult2_eq [symmetric])
  then have s: "s = 100 * a + 10 * b + c" using mult_div_mod_eq [of 10 s] unfolding c_def by linarith
  have bd: "b < 10" "c < 10" by (simp_all add: b_def c_def)
  have e: "48 + a = 48 + x \<and> 48 + b = 48 + y \<and> 48 + c = 48 + z \<longleftrightarrow> s = 100 * x + 10 * y + z"
    if "y < 10" "z < 10" for x y z
  proof
    assume "s = 100 * x + 10 * y + z"
    then have "100 * a + (10 * b + c) = 100 * x + (10 * y + z)" using s by linarith
    then have "a = x" using bd that by linarith
    moreover from this have "b = y" using s bd that \<open>s = 100 * x + 10 * y + z\<close> by linarith
    ultimately show "48 + a = 48 + x \<and> 48 + b = 48 + y \<and> 48 + c = 48 + z"
      using s \<open>s = 100 * x + 10 * y + z\<close> by simp
  qed (simp add: s)
  have "list_ex (contains (lit ''blob get '' @ [48 + a, 48 + b, 48 + c]))
     [lit ''400'', lit ''401'', lit ''403'', lit ''404'', lit ''413'', lit ''422''] \<longleftrightarrow>
     s \<in> {400, 401, 403, 404, 413, 422}"
    using e [of 0 0 4] e [of 0 1 4] e [of 0 3 4] e [of 0 4 4] e [of 1 3 4] e [of 2 2 4]
    by (simp add: contains_code)
  then show ?thesis
    unfolding classify_blob_err_def Let_def blob_get_text [OF assms] a_def b_def c_def
    by (simp only: if_cancel)
qed

theorem blob_get_class_witness:
  "classify_blob_err (BlobGet 404) = lit ''permanent'' \<and> classify_blob_err (BlobGet 503) = lit ''transient''"
  using blob_get_class [of 404] blob_get_class [of 503] by simp

text \<open>A failed upload is classified from the whole error text: a server-side failure whose body
  mentions a client error code, such as a 503 that says it failed after 404 chunks, counts as
  permanent.\<close>

theorem blob_put_class_sniffs_body:
  assumes "contains t (lit ''404'')"
  shows "classify_blob_err (BlobPut s t) = lit ''permanent''"
proof -
  obtain a b where t: "t = a @ lit ''404'' @ b" using assms by (auto simp: contains_iff)
  have "map ascii_lower (blob_error_text (BlobPut s t))
      = map ascii_lower (lit ''blob PUT '' @ show_nat s @ lit '': '' @ a) @ lit ''404'' @ map ascii_lower b"
    by (simp add: t ascii_lower_def)
  then have "contains (map ascii_lower (blob_error_text (BlobPut s t))) (lit ''404'')"
    unfolding contains_iff by blast
  then show ?thesis by (simp add: classify_blob_err_def Let_def del: blob_error_text.simps lit_simps)
qed

theorem blob_put_class_sniffs_body_witness:
  "classify_blob_err (BlobPut 503 (lit ''after 404 chunks'')) = lit ''permanent''"
  by (rule blob_put_class_sniffs_body) simp

end
