(* ===== verification/Watcher.thy ===== *)
theory Watcher
  imports Clipboard Echo_Rings
begin

text \<open>
  The clipboard watcher (\<open>ClipState\<close>, \<open>poll_once\<close>, \<open>clipboard_poll_loop\<close> and \<open>clipboard_loop\<close> of
  \<open>core/src/engine.rs\<close>): one read of the clipboard compared with what was seen last, and the
  two drivers that repeat it. A poll is given what the platform answers during it and returns
  the commands it sends to the actor and the lines it writes to the clipboard log.
\<close>

datatype cmd =
    LocalText rstr "rstr option"
  | LocalImage image
  | SendText rstr
  | SendFile rstr
  | LocalFiles "rstr list"
  | SetPool rstr

datatype clip_log =
    RichDetected bool bool
  | VirtualFiles "rstr list" "rstr list"
  | ReadFailed "rstr list"
  | Unhandled "rstr list"

record clip_state =
  last_seq :: "u32 option"
  last_text :: rstr
  last_img :: rstr
  last_files :: rstr
  had_rich_last :: bool

definition clip_state_new :: clip_state where
  "clip_state_new = \<lparr>last_seq = None, last_text = [], last_img = [], last_files = [], had_rich_last = False\<rparr>"

definition join_files :: "rstr list \<Rightarrow> rstr" where
  "join_files fs = join_with [1] fs"

definition text_snapshot :: "rstr option \<Rightarrow> rstr" where
  "text_snapshot t = (case nonempty t of Some s \<Rightarrow> s | None \<Rightarrow> [])"

definition files_snapshot :: "rstr list option \<Rightarrow> rstr" where
  "files_snapshot f = (case f of Some fs \<Rightarrow> join_files fs | None \<Rightarrow> [])"

definition img_snapshot :: "crates \<Rightarrow> image option \<Rightarrow> rstr" where
  "img_snapshot cr i = (case i of Some img \<Rightarrow> sha_hex cr (rgba img) | None \<Rightarrow> [])"

text \<open>The choice among the formats: the new state and the command, if any.\<close>

definition choose_format :: "crates \<Rightarrow> image option \<Rightarrow> rstr list option \<Rightarrow> rstr option \<Rightarrow> rstr option
    \<Rightarrow> clip_state \<Rightarrow> clip_state \<times> cmd option" where
  "choose_format cr img_res files_opt text_res html_res st =
     (let img_changed = (case img_res of Some img \<Rightarrow> sha_hex cr (rgba img) \<noteq> last_img st | None \<Rightarrow> False);
          files_changed = (case files_opt of Some fs \<Rightarrow> join_files fs \<noteq> last_files st | None \<Rightarrow> False);
          text_changed = (case text_res of Some t \<Rightarrow> t \<noteq> [] \<and> t \<noteq> last_text st | None \<Rightarrow> False)
      in if img_changed then
           (st\<lparr>last_img := sha_hex cr (rgba (the img_res)),
               last_text := text_snapshot text_res, last_files := files_snapshot files_opt\<rparr>,
            Some (LocalImage (the img_res)))
         else if files_changed then
           (st\<lparr>last_files := join_files (the files_opt), last_text := text_snapshot text_res,
               last_img := img_snapshot cr img_res\<rparr>,
            Some (LocalFiles (the files_opt)))
         else if text_changed then
           (st\<lparr>last_text := the text_res\<rparr>,
            Some (LocalText (the text_res) (nonempty html_res)))
         else (st, None))"

text \<open>The diagnostics for a change that could not be turned into a command.\<close>

definition unhandled_logs :: "os \<Rightarrow> bool \<Rightarrow> clip_log list res" where
  "unhandled_logs w read_ok =
     (let formats = list_formats show_nat w in
      bind_res (get_virtual_file_names w) (\<lambda>names.
      Ok (case names of
            Some ns \<Rightarrow> [VirtualFiles ns formats]
          | None \<Rightarrow> if \<not> read_ok then [ReadFailed formats]
                    else if formats \<noteq> [] then [Unhandled formats] else [])))"

definition poll_once :: "crates \<Rightarrow> os \<Rightarrow> clip_state \<Rightarrow> (clip_state \<times> cmd list \<times> clip_log list) res" where
  "poll_once cr w st =
     (let seq = seq_num w;
          changed = (case seq of Some s \<Rightarrow> Some s \<noteq> last_seq st | None \<Rightarrow> True)
      in if \<not> changed then Ok (st, [], [])
         else
           (let img_res = get_image w;
                files_opt = get_files w;
                text_res = get_text w;
                read_ok = (img_res \<noteq> None \<or> files_opt \<noteq> None \<or> text_res \<noteq> None);
                (st1, c) = choose_format cr img_res files_opt text_res (get_html w) st;
                had_rich = (img_res \<noteq> None \<or> files_opt \<noteq> None);
                log1 = (if had_rich \<and> \<not> had_rich_last st1
                        then [RichDetected (img_res \<noteq> None) (files_opt \<noteq> None)] else []);
                st2 = st1\<lparr>had_rich_last := had_rich\<rparr>;
                st3 = (if read_ok then (case seq of Some s \<Rightarrow> st2\<lparr>last_seq := Some s\<rparr> | None \<Rightarrow> st2)
                       else st2)
            in bind_res (if c = None \<and> seq \<noteq> None then unhandled_logs w read_ok else Ok []) (\<lambda>log2.
               Ok (st3, (case c of Some x \<Rightarrow> [x] | None \<Rightarrow> []), log1 @ log2))))"

subsection \<open>The drivers\<close>

text \<open>The polling driver: each element is what the platform answers during one poll and whether
  the command channel was closed when it was tested after the sleep. The state and everything
  sent are returned when the loop ends or the list does.\<close>

fun clipboard_poll_loop :: "crates \<Rightarrow> (os \<times> bool) list \<Rightarrow> clip_state
    \<Rightarrow> (clip_state \<times> cmd list \<times> clip_log list) res" where
  "clipboard_poll_loop cr [] st = Ok (st, [], [])"
| "clipboard_poll_loop cr ((w, is_closed) # r) st =
     bind_res (poll_once cr w st) (\<lambda>(st1, cs, ls).
     if is_closed then Ok (st1, cs, ls)
     else bind_res (clipboard_poll_loop cr r st1) (\<lambda>(st2, cs2, ls2). Ok (st2, cs @ cs2, ls @ ls2)))"

text \<open>The event-driven driver: what \<open>monitor.recv\<close> returned, whether the channel was closed then,
  and what the platform answers during the poll that follows.\<close>

datatype monitor_event = Changed | Shutdown | MonitorError

fun monitor_loop :: "crates \<Rightarrow> (monitor_event \<times> bool \<times> os) list \<Rightarrow> clip_state
    \<Rightarrow> (clip_state \<times> cmd list \<times> clip_log list) res" where
  "monitor_loop cr [] st = Ok (st, [], [])"
| "monitor_loop cr ((ev, is_closed, w) # r) st =
     (if ev = Shutdown \<or> is_closed then Ok (st, [], [])
      else bind_res (poll_once cr w st) (\<lambda>(st1, cs, ls).
           bind_res (monitor_loop cr r st1) (\<lambda>(st2, cs2, ls2). Ok (st2, cs @ cs2, ls @ ls2))))"

definition clipboard_loop :: "crates \<Rightarrow> bool \<Rightarrow> bool \<Rightarrow> os \<Rightarrow> (monitor_event \<times> bool \<times> os) list \<Rightarrow> (os \<times> bool) list
    \<Rightarrow> (clip_state \<times> cmd list \<times> clip_log list) res" where
  "clipboard_loop cr is_windows monitor_ok w0 evs polls =
     (if is_windows \<and> monitor_ok then
        bind_res (poll_once cr w0 clip_state_new) (\<lambda>(st1, cs, ls).
        bind_res (monitor_loop cr evs st1) (\<lambda>(st2, cs2, ls2). Ok (st2, cs @ cs2, ls @ ls2)))
      else clipboard_poll_loop cr polls clip_state_new)"

subsection \<open>Facts\<close>

lemma virtual_names_ok: "\<exists>r. get_virtual_file_names w = Ok r"
proof -
  have "\<exists>r. parse_descriptors b = Ok r" for b
    by (auto simp: parse_descriptors_def names_loop_spec Let_def)
  then show ?thesis by (auto simp: get_virtual_file_names_def split: option.splits)
qed

lemma unhandled_logs_ok: "\<exists>ls. unhandled_logs w ok = Ok ls"
  using virtual_names_ok [of w] by (auto simp: unhandled_logs_def Let_def)

definition generation_changed :: "os \<Rightarrow> clip_state \<Rightarrow> bool" where
  "generation_changed w st = (case seq_num w of Some s \<Rightarrow> Some s \<noteq> last_seq st | None \<Rightarrow> True)"

definition read_any :: "os \<Rightarrow> bool" where
  "read_any w \<longleftrightarrow> get_image w \<noteq> None \<or> get_files w \<noteq> None \<or> get_text w \<noteq> None"

definition pick :: "crates \<Rightarrow> os \<Rightarrow> clip_state \<Rightarrow> clip_state \<times> cmd option" where
  "pick cr w st = choose_format cr (get_image w) (get_files w) (get_text w) (get_html w) st"

definition commit :: "os \<Rightarrow> clip_state \<Rightarrow> clip_state" where
  "commit w st =
     (let st2 = st\<lparr>had_rich_last := (get_image w \<noteq> None \<or> get_files w \<noteq> None)\<rparr>
      in if read_any w then (case seq_num w of Some s \<Rightarrow> st2\<lparr>last_seq := Some s\<rparr> | None \<Rightarrow> st2) else st2)"

definition cmds_of :: "cmd option \<Rightarrow> cmd list" where
  "cmds_of c = (case c of Some x \<Rightarrow> [x] | None \<Rightarrow> [])"

text \<open>A poll in closed form; it always returns.\<close>

lemma poll_once_form:
  "\<exists>ls. poll_once cr w st =
     Ok (if generation_changed w st
         then (commit w (fst (pick cr w st)), cmds_of (snd (pick cr w st)), ls)
         else (st, [], []))"
proof -
  obtain st1 c where c: "choose_format cr (get_image w) (get_files w) (get_text w) (get_html w) st = (st1, c)"
    by (meson surj_pair)
  define L where "L = (if c = None \<and> seq_num w \<noteq> None then unhandled_logs w (read_any w) else Ok [])"
  have "\<exists>l. L = Ok l"
    using unhandled_logs_ok [of w "read_any w"] unfolding L_def by (simp split: if_split)
  then obtain l where l: "L = Ok l" by blast
  define l1 where "l1 = (if (get_image w \<noteq> None \<or> get_files w \<noteq> None) \<and> \<not> had_rich_last st1
    then [RichDetected (get_image w \<noteq> None) (get_files w \<noteq> None)] else [])"
  have "poll_once cr w st = (if \<not> generation_changed w st then Ok (st, [], [])
      else bind_res L (\<lambda>log2. Ok (commit w st1, cmds_of c, l1 @ log2)))"
    unfolding poll_once_def generation_changed_def commit_def cmds_of_def read_any_def Let_def c
      prod.case L_def l1_def by (rule refl)
  then show ?thesis using l c by (simp add: pick_def)
qed

lemma poll_once_Ok:
  assumes "poll_once cr w st = Ok (st1, cs, ls)" "generation_changed w st"
  shows "st1 = commit w (fst (pick cr w st))" "cs = cmds_of (snd (pick cr w st))"
  using poll_once_form [of cr w st] assms by auto

lemma poll_once_skip:
  assumes "poll_once cr w st = Ok (st1, cs, ls)" "\<not> generation_changed w st"
  shows "st1 = st" "cs = []"
  using poll_once_form [of cr w st] assms by auto

lemma pick_commit_fixed:
  "pick cr w (commit w (fst (pick cr w st))) = (commit w (fst (pick cr w st)), None)"
  by (cases "get_image w"; cases "get_files w"; cases "get_text w"; cases "seq_num w")
    (simp_all add: pick_def choose_format_def commit_def Let_def text_snapshot_def files_snapshot_def
      img_snapshot_def nonempty_def read_any_def split: list.splits)

lemma commit_idem: "commit w (commit w st) = commit w st"
  by (cases "seq_num w") (simp_all add: commit_def Let_def)

lemma pick_ignores_rich:
  "snd (pick cr w (st\<lparr>had_rich_last := b\<rparr>)) = snd (pick cr w st)"
  by (cases "get_image w"; cases "get_files w"; cases "get_text w")
    (simp_all add: pick_def choose_format_def Let_def)

lemma poll_fixed:
  assumes "poll_once cr w st = Ok (st1, cs, ls)"
  shows "\<exists>ls'. poll_once cr w st1 = Ok (st1, [], ls')"
proof -
  obtain l2 where p2: "poll_once cr w st1 = Ok (if generation_changed w st1
      then (commit w (fst (pick cr w st1)), cmds_of (snd (pick cr w st1)), l2) else (st1, [], []))"
    using poll_once_form by blast
  show ?thesis
  proof (cases "generation_changed w st")
    case True
    then have "st1 = commit w (fst (pick cr w st))" using poll_once_Ok assms by blast
    then have "pick cr w st1 = (st1, None)" "commit w st1 = st1"
      using pick_commit_fixed commit_idem by simp_all
    with p2 show ?thesis by (auto simp: cmds_of_def)
  next
    case False
    then show ?thesis using poll_once_skip [OF assms] p2 by auto
  qed
qed

subsection \<open>Properties\<close>

text \<open>C40. A clipboard whose content stays the same is sent at most once: however often it is polled,
  everything that is sent is what the first poll sent, and that is at most one command. In
  particular an unchanged text next to a new image is not sent as a clip of its own afterwards.\<close>

theorem watch_steady:
  assumes "poll_once cr w st = Ok (st1, cs, ls)"
  shows "length cs \<le> 1 \<and> (\<exists>ls'. clipboard_poll_loop cr ((w, False) # replicate n (w, False)) st = Ok (st1, cs, ls'))"
proof -
  have "\<exists>l. clipboard_poll_loop cr (replicate n (w, False)) st1 = Ok (st1, [], l)"
    using poll_fixed [OF assms] by (induction n) auto
  moreover have "length cs \<le> 1"
    using poll_once_form [of cr w st] assms by (auto simp: cmds_of_def split: option.splits if_splits)
  ultimately show ?thesis using assms by auto
qed

definition sample_os :: "rstr option \<Rightarrow> os" where
  "sample_os t = \<lparr>windows = False, arboard_new = (\<lambda>_. True), arboard_text = t, arboard_image = None,
     arboard_html = None, format_avail = (\<lambda>_. False), register_format = (\<lambda>_. None),
     hdrop_read = (\<lambda>_. None), raw_seq_num = None, win_open = True, win_formats = [],
     win_get_vec = (\<lambda>_. None), set_ok = True, empty_ok = True\<rparr>"

lemmas poll_eval = poll_once_def seq_num_def get_image_def get_files_def get_text_def get_html_def
  open_clipboard_def retry.simps OPEN_ATTEMPTS_def choose_format_def Let_def nonempty_def
  sample_os_def clip_state_new_def

theorem watch_steady_witness:
  "\<exists>st1 ls. clipboard_poll_loop sample_crates ((sample_os (Some (lit ''hi'')), False)
       # replicate 2 (sample_os (Some (lit ''hi'')), False)) clip_state_new
     = Ok (st1, [LocalText (lit ''hi'') None], ls)"
proof -
  have "poll_once sample_crates (sample_os (Some (lit ''hi''))) clip_state_new
      = Ok (clip_state_new\<lparr>last_text := lit ''hi''\<rparr>, [LocalText (lit ''hi'') None], [])"
    by (simp add: poll_eval)
  from watch_steady [OF this, of 2] show ?thesis by blast
qed

text \<open>A clipboard that could not be read is not lost: a poll in which every read fails sends
  nothing and does not consume the generation, so the next poll sends exactly what it would
  have sent had the failed poll not happened.\<close>

theorem locked_clipboard_retried:
  assumes "get_image w = None" "get_files w = None" "get_text w = None"
    and "poll_once cr w st = Ok (st1, cs, ls)"
  shows "cs = [] \<and> st1\<lparr>had_rich_last := False\<rparr> = st\<lparr>had_rich_last := False\<rparr>
    \<and> (\<exists>s1 l1 s2 l2 cs'. poll_once cr w' st1 = Ok (s1, cs', l1) \<and> poll_once cr w' st = Ok (s2, cs', l2))"
proof -
  have ch: "pick cr w st = (st, None)" using assms(1-3) by (simp add: pick_def choose_format_def)
  have st1: "cs = []" "st1 = st \<or> st1 = st\<lparr>had_rich_last := False\<rparr>"
    using poll_once_form [of cr w st] assms(4) ch
    by (auto simp: cmds_of_def commit_def read_any_def assms(1-3) split: if_splits)
  then have g: "generation_changed w' st1 = generation_changed w' st"
    by (auto simp: generation_changed_def split: option.splits)
  have c: "snd (pick cr w' st1) = snd (pick cr w' st)"
    using st1(2) pick_ignores_rich by metis
  obtain l1 l2 where "poll_once cr w' st1 = Ok (if generation_changed w' st1
        then (commit w' (fst (pick cr w' st1)), cmds_of (snd (pick cr w' st1)), l1) else (st1, [], []))"
    "poll_once cr w' st = Ok (if generation_changed w' st
        then (commit w' (fst (pick cr w' st)), cmds_of (snd (pick cr w' st)), l2) else (st, [], []))"
    using poll_once_form by blast
  then show ?thesis using st1 g c by auto
qed

theorem locked_clipboard_retried_witness:
  "\<exists>st1 ls s1 l1. poll_once sample_crates (sample_os None) clip_state_new = Ok (st1, [], ls)
     \<and> poll_once sample_crates (sample_os (Some (lit ''hi''))) st1 = Ok (s1, [LocalText (lit ''hi'') None], l1)"
proof -
  have 1: "poll_once sample_crates (sample_os None) clip_state_new = Ok (clip_state_new, [], [])"
    by (simp add: poll_eval)
  have 2: "poll_once sample_crates (sample_os (Some (lit ''hi''))) clip_state_new
      = Ok (clip_state_new\<lparr>last_text := lit ''hi''\<rparr>, [LocalText (lit ''hi'') None], [])"
    by (simp add: poll_eval)
  from locked_clipboard_retried [OF _ _ _ 1, of "sample_os (Some (lit ''hi''))"] 1 2
  show ?thesis by (auto simp: get_image_def get_files_def get_text_def sample_os_def)
qed

text \<open>A stale rich format does not shadow a new text: when the image and the files that are
  present are the ones seen last, a new non-empty text is sent, with its rich-text variant.\<close>

theorem new_text_not_shadowed:
  assumes "case seq_num w of Some s \<Rightarrow> last_seq st \<noteq> Some s | None \<Rightarrow> True"
    and "\<And>img. get_image w = Some img \<Longrightarrow> last_img st = sha_hex cr (rgba img)"
    and "\<And>fs. get_files w = Some fs \<Longrightarrow> last_files st = join_files fs"
    and "get_text w = Some t" "t \<noteq> []" "t \<noteq> last_text st"
  shows "\<exists>st1 ls. poll_once cr w st = Ok (st1, [LocalText t (nonempty (get_html w))], ls)
    \<and> last_text st1 = t \<and> last_img st1 = last_img st \<and> last_files st1 = last_files st"
proof -
  have "generation_changed w st" using assms(1) by (auto simp: generation_changed_def split: option.splits)
  moreover have "pick cr w st = (st\<lparr>last_text := t\<rparr>, Some (LocalText t (nonempty (get_html w))))"
    using assms(2-6) by (simp add: pick_def choose_format_def Let_def split: option.splits)
  ultimately show ?thesis
    using poll_once_form [of cr w st]
    by (auto simp: cmds_of_def commit_def Let_def split: option.splits)
qed

theorem new_text_not_shadowed_witness:
  "\<exists>st1 ls. poll_once sample_crates ((sample_os (Some (lit ''hi'')))\<lparr>arboard_image := Some \<lparr>width = 0, height = 0, rgba = []\<rparr>\<rparr>)
       (clip_state_new\<lparr>last_img := sha_hex sample_crates []\<rparr>) = Ok (st1, [LocalText (lit ''hi'') None], ls)"
  using new_text_not_shadowed [where w = "(sample_os (Some (lit ''hi'')))\<lparr>arboard_image := Some \<lparr>width = 0, height = 0, rgba = []\<rparr>\<rparr>"
      and st = "clip_state_new\<lparr>last_img := sha_hex sample_crates []\<rparr>" and cr = sample_crates and t = "lit ''hi''"]
  by (simp add: seq_num_def get_image_def get_files_def get_text_def get_html_def open_clipboard_def
      retry.simps OPEN_ATTEMPTS_def sample_os_def clip_state_new_def nonempty_def) blast

end
