(* ===== verification/History.thy ===== *)
theory History
  imports E2e
begin

text \<open>
  The local clipboard history (\<open>core/src/history.rs\<close>): the table of clips in SQLite, with the
  content columns sealed at rest when a key is given.

  A table is the list of its rows in the order of their ids, with the largest id ever given
  out, which \<open>AUTOINCREMENT\<close> never reuses. The argument \<open>sql_ok\<close> says whether SQLite carried
  the statement out; nonces are arguments.
\<close>

record entry =
  en_id :: int
  en_ts :: rstr
  en_kind :: rstr
  en_origin :: rstr
  en_direction :: rstr
  en_preview :: rstr
  en_mime :: rstr
  en_size :: int
  en_blob_id :: rstr
  en_name :: rstr

record history =
  rows :: "entry list"
  last_rowid :: int
  hist_key :: "bytes option"

text \<open>The key has type \<open>[u8; 32]\<close> in the source, so sealing does not panic there.\<close>

definition encrypt_field :: "crates \<Rightarrow> bytes \<Rightarrow> bytes option \<Rightarrow> rstr \<Rightarrow> rstr" where
  "encrypt_field cr nonce key s =
     (case key of
        Some k \<Rightarrow>
          if s \<noteq> [] then
            (case seal cr nonce k (as_bytes s) of
               Ok ct \<Rightarrow> lit ''enc:'' @ b64_encode cr ct
             | _ \<Rightarrow> s)
          else s
      | None \<Rightarrow> s)"

definition decrypt_field :: "crates \<Rightarrow> bytes option \<Rightarrow> rstr \<Rightarrow> rstr" where
  "decrypt_field cr key s =
     (case key of
        Some k \<Rightarrow>
          (case strip_prefix s (lit ''enc:'') of
             Some b64 \<Rightarrow>
               (case b64_decode cr b64 of
                  Some raw \<Rightarrow> (case e2e_open cr k raw of Ok pt \<Rightarrow> from_utf8_lossy pt | _ \<Rightarrow> s)
                | None \<Rightarrow> s)
           | None \<Rightarrow> s)
      | None \<Rightarrow> s)"

text \<open>Opening a database file: the directory and the schema are created when missing, and the
  table that is there is kept. The arguments say whether each of the steps worked.\<close>

definition hist_open :: "bool \<Rightarrow> bool \<Rightarrow> (entry list \<times> int) option \<Rightarrow> bytes option \<Rightarrow> history option" where
  "hist_open dir_ok sql_ok table key =
     (if \<not> dir_ok then None
      else if \<not> sql_ok then None
      else Some (case table of
                   None \<Rightarrow> \<lparr>rows = [], last_rowid = 0, hist_key = key\<rparr>
                 | Some (rs, n) \<Rightarrow> \<lparr>rows = rs, last_rowid = n, hist_key = key\<rparr>))"

definition open_in_memory :: history where
  "open_in_memory = \<lparr>rows = [], last_rowid = 0, hist_key = None\<rparr>"

definition hist_add :: "crates \<Rightarrow> bool \<Rightarrow> bytes \<Rightarrow> bytes \<Rightarrow> history \<Rightarrow> rstr \<Rightarrow> rstr \<Rightarrow> rstr \<Rightarrow> rstr \<Rightarrow> rstr
    \<Rightarrow> rstr \<Rightarrow> int \<Rightarrow> rstr \<Rightarrow> rstr \<Rightarrow> history \<times> int option" where
  "hist_add cr sql_ok nonce_p nonce_n h ts knd origin direction preview mime sz bid name =
     (if \<not> sql_ok then (h, None)
      else (let i = last_rowid h + 1;
                e = \<lparr>en_id = i, en_ts = ts, en_kind = knd, en_origin = origin,
                     en_direction = direction,
                     en_preview = encrypt_field cr nonce_p (hist_key h) preview,
                     en_mime = mime, en_size = sz, en_blob_id = bid,
                     en_name = encrypt_field cr nonce_n (hist_key h) name\<rparr>
            in (h\<lparr>rows := rows h @ [e], last_rowid := i\<rparr>, Some i)))"

text \<open>\<open>ORDER BY id DESC LIMIT n\<close>; a negative limit means none.\<close>

definition newest_first :: "int \<Rightarrow> entry list \<Rightarrow> entry list" where
  "newest_first limit rs = (if limit < 0 then rev rs else take (nat limit) (rev rs))"

definition decrypt_row :: "crates \<Rightarrow> bytes option \<Rightarrow> entry \<Rightarrow> entry" where
  "decrypt_row cr key e = e\<lparr>en_preview := decrypt_field cr key (en_preview e),
                            en_name := decrypt_field cr key (en_name e)\<rparr>"

definition hist_query :: "crates \<Rightarrow> bool \<Rightarrow> history \<Rightarrow> int \<Rightarrow> entry list option" where
  "hist_query cr sql_ok h limit =
     (if \<not> sql_ok then None
      else Some (map (decrypt_row cr (hist_key h)) (newest_first limit (rows h))))"

definition recent :: "crates \<Rightarrow> bool \<Rightarrow> history \<Rightarrow> int \<Rightarrow> entry list option" where
  "recent cr sql_ok h limit = hist_query cr sql_ok h limit"

definition search_hit :: "crates \<Rightarrow> rstr \<Rightarrow> entry \<Rightarrow> bool" where
  "search_hit cr ql e \<longleftrightarrow>
     contains (lower_table cr (en_preview e)) ql \<or> contains (lower_table cr (en_name e)) ql"

definition search :: "crates \<Rightarrow> bool \<Rightarrow> history \<Rightarrow> rstr \<Rightarrow> int \<Rightarrow> entry list option" where
  "search cr sql_ok h q limit =
     (let ql = lower_table cr q in
      case hist_query cr sql_ok h 5000 of
        None \<Rightarrow> None
      | Some rs \<Rightarrow> Some (take (nat (max limit 0)) (filter (search_hit cr ql) rs)))"

definition hist_delete :: "bool \<Rightarrow> history \<Rightarrow> int \<Rightarrow> history \<times> bool" where
  "hist_delete sql_ok h i =
     (if \<not> sql_ok then (h, False)
      else (h\<lparr>rows := filter (\<lambda>e. en_id e \<noteq> i) (rows h)\<rparr>, True))"

subsection \<open>The table invariant\<close>

definition hist_wf :: "history \<Rightarrow> bool" where
  "hist_wf h \<longleftrightarrow> sorted_wrt (<) (map en_id (rows h))
     \<and> (\<forall>e\<in>set (rows h). 0 < en_id e \<and> en_id e \<le> last_rowid h) \<and> 0 \<le> last_rowid h"

lemma hist_wf_open: "hist_wf open_in_memory"
  by (simp add: hist_wf_def open_in_memory_def)

lemma hist_wf_add:
  "hist_wf h \<Longrightarrow> hist_wf (fst (hist_add cr ok n1 n2 h ts k og d p m s b nm))"
  by (auto simp: hist_wf_def hist_add_def Let_def sorted_wrt_append)

lemma hist_wf_delete: "hist_wf h \<Longrightarrow> hist_wf (fst (hist_delete ok h i))"
  by (auto simp: hist_wf_def hist_delete_def sorted_wrt_map intro: sorted_wrt_filter)

text \<open>The operations the engine performs on the table, as one step function.\<close>

datatype hist_op =
    HAdd bool bytes bytes rstr rstr rstr rstr rstr rstr int rstr rstr
  | HDelete bool int

fun hist_step :: "crates \<Rightarrow> hist_op \<Rightarrow> history \<Rightarrow> history" where
  "hist_step cr (HAdd ok n1 n2 ts k og d p m s b nm) h =
     fst (hist_add cr ok n1 n2 h ts k og d p m s b nm)"
| "hist_step cr (HDelete ok i) h = fst (hist_delete ok h i)"

interpretation hist: invariant_machine "hist_step cr" hist_wf for cr
proof
  fix h e
  assume "hist_wf h"
  then show "hist_wf (hist_step cr e h)"
    by (cases e) (simp_all add: hist_wf_add hist_wf_delete)
qed

lemma hist_ids_grow: "last_rowid h \<le> last_rowid (hist_step cr e h)"
  by (cases e) (simp_all add: hist_add_def hist_delete_def Let_def)

lemma hist_run_ids_grow: "last_rowid h \<le> last_rowid (fold (hist_step cr) es h)"
proof (induction es arbitrary: h)
  case (Cons e es)
  from hist_ids_grow [of h cr e] Cons [of "hist_step cr e h"] show ?case by simp
qed simp

text \<open>A row with an id given out earlier is either the old row or gone: ids are not reused.\<close>

lemma hist_step_row:
  assumes "e \<in> set (rows (hist_step cr x h))" "en_id e \<le> last_rowid h"
  shows "e \<in> set (rows h)"
  using assms by (cases x) (auto simp: hist_add_def hist_delete_def Let_def split: if_splits)

lemma hist_run_row:
  "e \<in> set (rows (fold (hist_step cr) es h)) \<Longrightarrow> en_id e \<le> last_rowid h \<Longrightarrow> e \<in> set (rows h)"
proof (induction es arbitrary: h)
  case (Cons x es)
  have "en_id e \<le> last_rowid (hist_step cr x h)"
    using Cons.prems(2) hist_ids_grow [of h cr x] by simp
  then have "e \<in> set (rows (hist_step cr x h))" using Cons.IH Cons.prems(1) by simp
  then show ?case using Cons.prems(2) hist_step_row by blast
qed simp

lemma hist_step_keeps:
  assumes "e \<in> set (rows h)" "\<And>ok. x \<noteq> HDelete ok (en_id e)"
  shows "e \<in> set (rows (hist_step cr x h))"
  using assms by (cases x) (auto simp: hist_add_def hist_delete_def Let_def)

lemma hist_key_step: "hist_key (hist_step cr x h) = hist_key h"
  by (cases x) (simp_all add: hist_add_def hist_delete_def Let_def)

subsection \<open>Sealed columns\<close>

lemma encrypt_field_sealed:
  assumes "seal cr nonce k (as_bytes s) = Ok ct" "s \<noteq> []"
  shows "encrypt_field cr nonce (Some k) s = lit ''enc:'' @ b64_encode cr ct"
  using assms by (simp add: encrypt_field_def)

lemma encrypt_field_trivial [simp]:
  "encrypt_field cr nonce None s = s" "encrypt_field cr nonce key [] = []"
  by (simp_all add: encrypt_field_def split: option.splits)

lemma decrypt_field_trivial [simp]:
  "decrypt_field cr None s = s" "decrypt_field cr key [] = []"
  by (simp_all add: decrypt_field_def strip_prefix_def split: option.splits)

lemma decrypt_encrypt_field:
  assumes "aead_inverts cr" "base64_inverts cr" "list_all scalar s" "length nonce = 12"
    and "\<And>k. key = Some k \<Longrightarrow> s \<noteq> [] \<Longrightarrow> \<exists>ct. seal cr nonce k (as_bytes s) = Ok ct"
  shows "decrypt_field cr key (encrypt_field cr nonce key s) = s"
proof (cases "key = None \<or> s = []")
  case True
  then show ?thesis by auto
next
  case False
  then obtain k ct where k: "key = Some k" and ct: "seal cr nonce k (as_bytes s) = Ok ct"
    using assms(5) by (metis option.exhaust)
  have "e2e_open cr k ct = Ok (as_bytes s)" using open_seal [OF assms(1,4) ct] .
  then show ?thesis
    using k False ct assms(2) from_utf8_lossy_as_bytes [OF assms(3)]
    by (simp add: encrypt_field_def decrypt_field_def strip_prefix_def base64_inverts_def)
qed

text \<open>The cipher accepts every plaintext under the key; then both columns are sealed.\<close>

definition seals_all :: "crates \<Rightarrow> bytes option \<Rightarrow> bool" where
  "seals_all cr key \<longleftrightarrow> (\<forall>k n p. key = Some k \<longrightarrow> length k = 32 \<and> gcm_encrypt cr k n p \<noteq> None)"

lemma seals_all_seal:
  assumes "seals_all cr key" "key = Some k"
  shows "\<exists>ct. seal cr n k p = Ok ct"
proof -
  have "length k = 32" and "gcm_encrypt cr k n p \<noteq> None"
    using assms unfolding seals_all_def by blast+
  then show ?thesis by (auto simp: seal_def)
qed

lemma newest_first_snoc:
  "0 < limit \<Longrightarrow> newest_first limit (rs @ [e]) = e # newest_first (limit - 1) rs"
  by (simp add: newest_first_def take_Cons' nat_diff_distrib)

subsection \<open>Properties\<close>

text \<open>A clip that was recorded is the first row of the next listing, in clear, under the id
  that was returned, followed by the rows listed before it; the id is larger than every id in
  the table.\<close>

theorem history_add_recent:
  assumes "aead_inverts cr" "base64_inverts cr" "seals_all cr (hist_key h)"
    and "list_all scalar preview" "list_all scalar name"
    and "length n1 = 12" "length n2 = 12" "0 < limit" "hist_wf h"
    and "hist_add cr True n1 n2 h ts k og d preview m sz b name = (h', r)"
  shows "\<exists>i. r = Some i \<and> (\<forall>e\<in>set (rows h). en_id e < i)
    \<and> recent cr True h' limit =
        Some (\<lparr>en_id = i, en_ts = ts, en_kind = k, en_origin = og, en_direction = d,
               en_preview = preview, en_mime = m, en_size = sz, en_blob_id = b, en_name = name\<rparr>
              # map (decrypt_row cr (hist_key h)) (newest_first (limit - 1) (rows h)))"
proof -
  have p: "decrypt_field cr (hist_key h) (encrypt_field cr n1 (hist_key h) preview) = preview"
    using decrypt_encrypt_field [OF assms(1,2,4,6)] seals_all_seal [OF assms(3)] by blast
  have n: "decrypt_field cr (hist_key h) (encrypt_field cr n2 (hist_key h) name) = name"
    using decrypt_encrypt_field [OF assms(1,2,5,7)] seals_all_seal [OF assms(3)] by blast
  have "\<forall>e\<in>set (rows h). en_id e < last_rowid h + 1"
    using assms(9) by (auto simp: hist_wf_def)
  then show ?thesis
    using assms(8,10) p n
    by (auto simp: hist_add_def Let_def recent_def hist_query_def newest_first_snoc decrypt_row_def)
qed

theorem history_add_recent_witness:
  "\<exists>i. snd (hist_add sample_crates True (replicate 12 1) (replicate 12 2)
             (open_in_memory\<lparr>hist_key := Some (replicate 32 7)\<rparr>)
             (lit ''t'') (lit ''text'') (lit ''dev'') (lit ''in'') (lit ''hi'') (lit ''text/plain'') 2 [] (lit ''n''))
       = Some i"
  using history_add_recent [OF sample_aead sample_base64,
      of "open_in_memory\<lparr>hist_key := Some (replicate 32 7)\<rparr>" "lit ''hi''" "lit ''n''"
         "replicate 12 1" "replicate 12 2" 3 "lit ''t''" "lit ''text''" "lit ''dev''" "lit ''in''"
         "lit ''text/plain''" 2 "[]"]
  by (simp add: seals_all_def sample_crates_def open_in_memory_def hist_wf_def scalar_def
      hist_add_def Let_def)



text \<open>A purge deletes the clip it was scheduled for and nothing else: whatever was recorded or
  deleted in between, the only row the delayed delete can remove is the one that was added.\<close>

theorem history_purge_exact:
  assumes "hist_wf h"
    and "hist_add cr True n1 n2 h ts k og d preview m sz b name = (h1, Some i)"
  shows "let h2 = fold (hist_step cr) ops h1; h3 = fst (hist_delete True h2 i) in
    (\<forall>e\<in>set (rows h3). en_id e \<noteq> i) \<and> sorted_wrt (<) (map en_id (rows h3))
    \<and> (\<forall>e\<in>set (rows h2) - set (rows h3). rows h1 = rows h @ [e])"
proof -
  have wf1: "hist_wf h1" using hist_wf_add [OF assms(1)] assms(2) by (metis fst_conv)
  define h2 where "h2 = fold (hist_step cr) ops h1"
  have "hist_wf (fst (hist_delete True h2 i))"
    unfolding h2_def by (intro hist_wf_delete hist.run_inv wf1)
  then have "sorted_wrt (<) (map en_id (rows (fst (hist_delete True h2 i))))"
    by (simp add: hist_wf_def)
  moreover have "rows h1 = rows h @ [e]" if "e \<in> set (rows h2)" "en_id e = i" for e
  proof -
    have last: "last_rowid h1 = i" "i = last_rowid h + 1"
      using assms(2) by (auto simp: hist_add_def Let_def)
    then have "e \<in> set (rows h1)" using that hist_run_row [of e cr ops h1] unfolding h2_def by simp
    moreover have "e \<notin> set (rows h)" using assms(1) last that(2) by (auto simp: hist_wf_def)
    ultimately show ?thesis using assms(2) by (auto simp: hist_add_def Let_def)
  qed
  ultimately show ?thesis unfolding h2_def [symmetric] Let_def by (auto simp: hist_delete_def)
qed

theorem history_purge_exact_witness:
  "let h1 = fst (hist_add sample_crates True [] [] open_in_memory [] [] [] [] (lit ''a'') [] 1 [] []);
       h2 = fold (hist_step sample_crates) [HAdd True [] [] [] [] [] [] (lit ''b'') [] 1 [] [], HDelete True 5] h1;
       h3 = fst (hist_delete True h2 1)
   in \<forall>e\<in>set (rows h3). en_id e \<noteq> 1"
proof -
  have "hist_add sample_crates True [] [] open_in_memory [] [] [] [] (lit ''a'') [] 1 [] []
    = (fst (hist_add sample_crates True [] [] open_in_memory [] [] [] [] (lit ''a'') [] 1 [] []), Some 1)"
    by (simp add: hist_add_def open_in_memory_def Let_def)
  from history_purge_exact [OF hist_wf_open this,
      of "[HAdd True [] [] [] [] [] [] (lit ''b'') [] 1 [] [], HDelete True 5]"]
  show ?thesis unfolding Let_def by blast
qed

text \<open>A search result is a bounded, newest-first selection of what the listing shows.\<close>

lemma search_sublist:
  assumes "search cr True h q limit = Some rs" "hist_wf h"
  shows "length rs \<le> nat (max limit 0)" "sorted_wrt (>) (map en_id rs)"
proof -
  let ?all = "map (decrypt_row cr (hist_key h)) (take 5000 (rev (rows h)))"
  have rs: "rs = take (nat (max limit 0)) (filter (search_hit cr (lower_table cr q)) ?all)"
    using assms(1) by (simp add: search_def hist_query_def newest_first_def Let_def)
  then show "length rs \<le> nat (max limit 0)" by simp
  have i: "en_id (decrypt_row cr key e) = en_id e" for key e by (simp add: decrypt_row_def)
  have "sorted_wrt (\<lambda>a b. en_id a > en_id b) (rev (rows h))"
    using assms(2) by (simp add: hist_wf_def sorted_wrt_map sorted_wrt_rev)
  then have "sorted_wrt (\<lambda>a b. en_id a > en_id b) (take 5000 (rev (rows h)))"
    by (rule sorted_wrt_take)
  then have "sorted_wrt (\<lambda>a b. en_id a > en_id b) ?all"
    unfolding sorted_wrt_map i .
  then have "sorted_wrt (\<lambda>a b. en_id a > en_id b) rs"
    unfolding rs by (intro sorted_wrt_take sorted_wrt_filter)
  then show "sorted_wrt (>) (map en_id rs)" unfolding sorted_wrt_map .
qed

end
