(* ===== verification/Engine.thy ===== *)
theory Engine
  imports Watcher History Privacy
begin

text \<open>
  The sync engine's state and its outbound half (\<open>core/src/engine.rs\<close>): status and roster,
  sending text, images and files, caching an outbound image, holding a large file for an
  on-demand request.

  The state \<open>eng\<close> holds what \<open>run\<close> keeps in its local variables and in \<open>EngineState\<close>, together
  with what the engine has done to the outside: the frames written to the socket, the calls of
  the UI sink, the detached tasks it spawned, the files it wrote and what it put on the
  clipboard. What the outside answers during one step is an argument of type \<open>io\<close>. The texts
  shown to people are constructors of \<open>msg\<close>, one per message of the source.
\<close>

subsection \<open>Types\<close>

record status =
  st_paired :: bool
  st_connected :: bool
  st_server_name :: rstr
  st_device_name :: rstr
  st_server_id :: rstr
  st_e2e :: bool
  st_pool :: rstr
  st_pools :: "rstr list"
  st_reconnecting :: bool

record roster_device =
  rd_id :: rstr
  rd_name :: rstr
  rd_online :: bool

datatype why =
    PingFailed | WatchdogExpired nat | UserReconnect | TextSendFailed | FileSendFailed
  | SetPoolFailed | ServerClosed | RecvError | ClipSendFailed

datatype msg =
    BadPin | ConnectFailed conn_error | Disconnected why | ReadvertiseFailed | TokenRotated
  | TextBuildFailed | TextEncodeFailed | TextTooLarge int int
  | PngFailed | ImageSealFailed | ImageUploadFailed rstr rstr
  | FileOpenFailed | FileReadFailed | FileSealFailed | FileUploadFailed rstr rstr
  | DownloadFailed rstr rstr | ClipDecodeFailed | ClipPanicked | BlobPanicked
  | RequestedReadFailed | NoLongerHeld rstr
  | OtherKeyText rstr | TextBase64Failed | TextDecryptFailed | TextKeyMissing | TextApplyFailed
  | OtherKeyBlob rstr | BlobDecryptFailed | BlobKeyMissing
  | ImageDecodeFailed | ImageApplyFailed | FileApplyFailed
  | TextPreview rstr | ImageToast rstr rstr | FileToast rstr rstr

datatype ui_event =
    UStatus status
  | UClip json
  | URoster "roster_device list"
  | UReconnect u32 nat
  | UError msg
  | UNotify rstr msg

text \<open>What an upload carries besides its outcome.\<close>

record upload =
  up_ev :: clip_event
  up_kind :: rstr
  up_preview :: rstr
  up_mime :: rstr
  up_size :: int
  up_name :: rstr
  up_json :: json
  up_err_via_error :: bool
  up_echo :: "rstr option"

datatype blob_result =
    Upload "(rstr \<times> msg) option" upload
  | Serve rstr bool
  | Download "(rstr \<times> msg) + bytes" clip_event

text \<open>The detached tasks; the network ones carry the server and the token they captured.\<close>

datatype task =
    UploadTask rstr rstr bytes upload
  | ServeTask rstr rstr rstr bytes
  | DownloadTask rstr rstr clip_event
  | PurgeTask int u64
  | ClearTask rstr u64

record eng =
  g_cfg :: config
  g_key :: "(bytes \<times> rstr) option"
  g_customs :: "(rstr \<Rightarrow> bool) list"
  g_hist :: history
  g_status :: status
  g_roster :: "roster_device list"
  g_targets :: targets
  g_exclude :: bool
  g_auto_clear :: u64
  g_mark :: bool
  g_cfg_path :: rstr
  g_downloads :: rstr
  g_data_dir :: rstr
  g_seq :: u64
  g_text :: dedup
  g_img :: dedup
  g_files :: dedup
  g_holds :: holds
  g_pending :: "blob_result list"
  g_attempt :: u32
  g_threshold :: int
  g_max_msg :: int
  g_last_recv :: millis
  g_wire :: "(rstr \<times> json) list"
  g_ui :: "ui_event list"
  g_tasks :: "task list"
  g_disk :: files
  g_clip :: clip_content

record io =
  io_now :: millis
  io_ts :: rstr
  io_id :: rstr
  io_nonce :: bytes
  io_nonce_html :: bytes
  io_nonce_row :: "bytes \<times> bytes"
  io_send :: bool
  io_sql :: bool
  io_meta :: "rstr \<Rightarrow> nat option"
  io_read :: "rstr \<Rightarrow> bytes option"
  io_open :: "rstr \<Rightarrow> bytes option list option"
  io_mkdir :: bool
  io_write :: write_result
  io_os :: os
  io_subsec :: "nat option"

subsection \<open>The shared effects\<close>

definition emit :: "ui_event \<Rightarrow> eng \<Rightarrow> eng" where
  "emit e g = g\<lparr>g_ui := g_ui g @ [e]\<rparr>"

definition spawn :: "task \<Rightarrow> eng \<Rightarrow> eng" where
  "spawn t g = g\<lparr>g_tasks := g_tasks g @ [t]\<rparr>"

text \<open>\<open>ws::send\<close>: encode the frame and write it.\<close>

definition ws_send :: "crates \<Rightarrow> io \<Rightarrow> rstr \<Rightarrow> json \<Rightarrow> eng \<Rightarrow> eng \<times> bool" where
  "ws_send cr i t d g =
     (case encode cr t d of
        None \<Rightarrow> (g, False)
      | Some b \<Rightarrow> if io_send i then (g\<lparr>g_wire := g_wire g @ [(t, d)]\<rparr>, True) else (g, False))"

definition write_file :: "io \<Rightarrow> rstr \<Rightarrow> bytes \<Rightarrow> eng \<Rightarrow> eng \<times> bool" where
  "write_file i path b g =
     (case io_write i of
        Written \<Rightarrow> (g\<lparr>g_disk := (g_disk g)(path \<mapsto> b)\<rparr>, True)
      | WriteFailed left \<Rightarrow> (g\<lparr>g_disk := (g_disk g)(path := left)\<rparr>, False))"

definition add_history :: "crates \<Rightarrow> io \<Rightarrow> rstr \<Rightarrow> rstr \<Rightarrow> rstr \<Rightarrow> rstr \<Rightarrow> rstr \<Rightarrow> rstr \<Rightarrow> int \<Rightarrow> rstr \<Rightarrow> rstr
    \<Rightarrow> eng \<Rightarrow> eng \<times> int" where
  "add_history cr i ts knd origin dir prev mime sz bid name g =
     (let (h, r) = hist_add cr (io_sql i) (fst (io_nonce_row i)) (snd (io_nonce_row i)) (g_hist g)
                     ts knd origin dir prev mime sz bid name
      in (g\<lparr>g_hist := h\<rparr>, case r of Some n \<Rightarrow> n | None \<Rightarrow> -1))"

definition schedule_purge :: "int \<Rightarrow> u64 \<Rightarrow> eng \<Rightarrow> eng" where
  "schedule_purge n ttl_secs g = (if n < 0 \<or> ttl_secs = 0 then g else spawn (PurgeTask n ttl_secs) g)"

definition schedule_clear_text :: "rstr \<Rightarrow> u64 \<Rightarrow> eng \<Rightarrow> eng" where
  "schedule_clear_text expected secs g = (if secs = 0 then g else spawn (ClearTask expected secs) g)"

definition current_targets :: "eng \<Rightarrow> targets" where
  "current_targets g = g_targets g"

definition set_connected :: "bool \<Rightarrow> eng \<Rightarrow> eng" where
  "set_connected on g =
     (let s = (g_status g)\<lparr>st_connected := on\<rparr> in emit (UStatus s) (g\<lparr>g_status := s\<rparr>))"

definition set_roster :: "device_info list \<Rightarrow> eng \<Rightarrow> eng" where
  "set_roster devices g =
     (let l = map (\<lambda>d. \<lparr>rd_id = dev_id (di_device d), rd_name = dev_name (di_device d),
                       rd_online = di_online d\<rparr>) devices
      in emit (URoster l) (g\<lparr>g_roster := l\<rparr>))"

fun presence_update :: "rstr \<Rightarrow> rstr \<Rightarrow> bool \<Rightarrow> roster_device list \<Rightarrow> roster_device list" where
  "presence_update i n on [] = [\<lparr>rd_id = i, rd_name = n, rd_online = on\<rparr>]"
| "presence_update i n on (d # ds) =
     (if rd_id d = i then d\<lparr>rd_online := on, rd_name := n\<rparr> # ds
      else d # presence_update i n on ds)"

definition apply_presence :: "presence \<Rightarrow> eng \<Rightarrow> eng" where
  "apply_presence p g =
     (let l = presence_update (dev_id (pr_device p)) (dev_name (pr_device p)) (pr_online p) (g_roster g)
      in emit (URoster l) (g\<lparr>g_roster := l\<rparr>))"

text \<open>The fallback name for an unknown sender, in Hangul.\<close>

definition other_device :: rstr where
  "other_device = [0xB2E4, 0xB978, 32, 0xAE30, 0xAE30]"

definition clip_origin_name :: "eng \<Rightarrow> rstr \<Rightarrow> rstr" where
  "clip_origin_name g origin =
     (case find (\<lambda>d. rd_id d = origin) (g_roster g) of
        Some d \<Rightarrow> if rd_name d \<noteq> [] then rd_name d else other_device
      | None \<Rightarrow> other_device)"

subsection \<open>Outbound\<close>

definition text_out_json :: "rstr \<Rightarrow> json" where
  "text_out_json text = JObj [(''direction'', JStr (lit ''out'')), (''kind'', JStr (lit ''text'')),
     (''text'', JStr text)]"

definition send_text_clip :: "crates \<Rightarrow> io \<Rightarrow> rstr \<Rightarrow> rstr option \<Rightarrow> eng \<Rightarrow> (eng \<times> bool) res" where
  "send_text_clip cr i text html g0 =
     (let g = g0\<lparr>g_seq := g_seq g0 + 1\<rparr> in
      case new_text cr (io_id i) (io_ts i) (io_nonce i) (io_nonce_html i) (g_seq g) text html (g_key g)
             (current_targets g) of
        Panic \<Rightarrow> Panic
      | Err \<Rightarrow> Ok (emit (UError TextBuildFailed) g, True)
      | Ok ev \<Rightarrow>
          (case encode cr T_CLIP (clip_to_json ev) of
             None \<Rightarrow> Ok (emit (UError TextEncodeFailed) g, True)
           | Some enc \<Rightarrow>
               if g_max_msg g > 0 \<and> int (length enc) > g_max_msg g then
                 Ok (emit (UError (TextTooLarge (max (g_max_msg g div 1024) 1)
                                                (max (int (length enc) div 1024) 1))) g, True)
               else
                 (let (g1, sent) = ws_send cr i T_CLIP (clip_to_json ev) g in
                  if \<not> sent then Ok (g1, False)
                  else
                    (let g2 = g1\<lparr>g_text := remember (io_now i) (g_text g1) (sha_hex cr (as_bytes text))\<rparr>;
                         g3 = fst (add_history cr i (ev_ts ev) (lit ''text'') (lit ''me'') (lit ''out'') text
                                     (lit ''text/plain'') (int (str_len text)) [] [] g2)
                     in Ok (emit (UClip (text_out_json text)) g3, True)))))"

definition cache_outbound_image :: "crates \<Rightarrow> io \<Rightarrow> bytes \<Rightarrow> eng \<Rightarrow> eng \<times> rstr option" where
  "cache_outbound_image cr i png g =
     (let dir = path_join (g_data_dir g) (lit ''clip-out'') in
      if \<not> io_mkdir i then (g, None)
      else (let path = path_join dir (sha_hex cr png @ lit ''.png'') in
            if g_disk g path \<noteq> None then (g, Some path)
            else (let (g1, ok) = write_file i path png g in (g1, if ok then Some path else None))))"

definition enc_of_key :: "(bytes \<times> rstr) option \<Rightarrow> enc_meta option" where
  "enc_of_key k = map_option (\<lambda>(_, kid). \<lparr>alg = ALG, enc_key_id = kid, enc_nonce = []\<rparr>) k"

text \<open>Encrypt a payload when a key is set.\<close>

definition seal_payload :: "crates \<Rightarrow> io \<Rightarrow> (bytes \<times> rstr) option \<Rightarrow> bytes \<Rightarrow> bytes res" where
  "seal_payload cr i k b = (case k of Some (key, _) \<Rightarrow> seal cr (io_nonce i) key b | None \<Rightarrow> Ok b)"

definition image_label :: rstr where
  "image_label = [40, 0xD074, 0xB9BD, 0xBCF4, 0xB4DC, 32, 0xC774, 0xBBF8, 0xC9C0, 41]"

definition clipboard_png :: rstr where
  "clipboard_png = lit ''clipboard.png''"

definition spawn_image_clip :: "crates \<Rightarrow> io \<Rightarrow> image \<Rightarrow> rstr \<Rightarrow> eng \<Rightarrow> eng res" where
  "spawn_image_clip cr i img echo_sha g =
     (case encode_png cr img of
        None \<Rightarrow> Ok (emit (UError PngFailed) g)
      | Some png \<Rightarrow>
          (case seal_payload cr i (g_key g) png of
             Panic \<Rightarrow> Panic
           | Err \<Rightarrow> Ok (emit (UError ImageSealFailed) g)
           | Ok payload \<Rightarrow>
               (let g1 = g\<lparr>g_seq := g_seq g + 1\<rparr>;
                    ev = default_clip\<lparr>ev_id := io_id i, ev_seq := g_seq g1, ev_ts := io_ts i,
                           ev_mime := [lit ''image/png''], ev_name := clipboard_png,
                           blob_id_of := blob_id cr payload, ev_size := int (length png),
                           ev_sha256 := sha_hex cr payload, ev_targets := current_targets g1,
                           ev_enc := enc_of_key (g_key g1)\<rparr>;
                    (g2, cached) = cache_outbound_image cr i png g1;
                    up = \<lparr>up_ev = ev, up_kind = lit ''image'',
                          up_preview = (case cached of Some p \<Rightarrow> p | None \<Rightarrow> image_label),
                          up_mime = lit ''image/png'', up_size = int (length png), up_name = clipboard_png,
                          up_json = JObj [(''direction'', JStr (lit ''out'')), (''kind'', JStr (lit ''image'')),
                            (''name'', JStr clipboard_png), (''size'', JInt (int (length png)))],
                          up_err_via_error = True, up_echo = Some echo_sha\<rparr>
                in Ok (spawn (UploadTask (c_server_url (g_cfg g2)) (c_token (g_cfg g2)) payload up) g2))))"

definition cast_i64 :: "nat \<Rightarrow> int" where
  "cast_i64 n = sint (of_nat n :: u64)"

definition file_out_json :: "rstr \<Rightarrow> rstr \<Rightarrow> int \<Rightarrow> bool \<Rightarrow> json" where
  "file_out_json knd name sz od = JObj [(''direction'', JStr (lit ''out'')), (''kind'', JStr knd),
     (''name'', JStr name), (''size'', JInt sz), (''onDemand'', JBool od)]"

text \<open>The content to advertise for an on-demand file: the sealed bytes are held as they are, a
  plain file is hashed now and read again when it is asked for. The
  result \<open>None\<close> is a panic of the cipher.\<close>

definition advertise :: "crates \<Rightarrow> io \<Rightarrow> rstr \<Rightarrow> eng \<Rightarrow> (msg + hold \<times> rstr) option" where
  "advertise cr i path g =
     (case g_key g of
        Some (k, _) \<Rightarrow>
          (case io_read i path of
             None \<Rightarrow> Some (Inl FileReadFailed)
           | Some b \<Rightarrow>
               (case seal cr (io_nonce i) k b of
                  Panic \<Rightarrow> None
                | Err \<Rightarrow> Some (Inl FileSealFailed)
                | Ok ct \<Rightarrow> Some (Inr (Sealed ct, sha_hex cr ct))))
      | None \<Rightarrow>
          (case file_sha_hex cr (io_open i path) of
             None \<Rightarrow> Some (Inl FileReadFailed)
           | Some sha \<Rightarrow> Some (Inr (Plain path, sha))))"

text \<open>Sealing failures go to the error sink, read failures are notified.\<close>

definition file_failure :: "msg \<Rightarrow> ui_event" where
  "file_failure m = (if m = FileSealFailed then UError m else UNotify (lit ''CopySync'') m)"

definition send_file_on_demand :: "crates \<Rightarrow> io \<Rightarrow> rstr \<Rightarrow> int \<Rightarrow> eng \<Rightarrow> (eng \<times> bool) res" where
  "send_file_on_demand cr i path sz g =
     (let name = file_name path; mime = mime_of path;
          knd = (if starts_with mime (lit ''image/'') then lit ''image'' else lit ''file'')
      in case advertise cr i path g of
           None \<Rightarrow> Panic
         | Some (Inl m) \<Rightarrow> Ok (emit (file_failure m) g, True)
         | Some (Inr (h, sha)) \<Rightarrow>
             (let bid = lit ''sha256:'' @ sha;
                  g1 = g\<lparr>g_holds := hold_on_demand (g_holds g) bid h\<rparr>;
                  ev = default_clip\<lparr>ev_id := io_id i, ev_seq := g_seq g1, ev_ts := io_ts i,
                         ev_mime := [mime], ev_name := name, blob_id_of := bid, ev_size := sz,
                         ev_sha256 := sha, on_demand_flag := True, ev_targets := current_targets g1,
                         ev_enc := enc_of_key (g_key g1)\<rparr>;
                  (g2, sent) = ws_send cr i T_CLIP (clip_to_json ev) g1
              in if \<not> sent then Ok (g2, False)
                 else (let g3 = fst (add_history cr i (ev_ts ev) knd (lit ''me'') (lit ''out'') name mime sz
                                       (blob_id_of ev) name g2)
                       in Ok (emit (UClip (file_out_json knd name sz (on_demand_flag ev))) g3, True))))"

definition send_file_eager :: "crates \<Rightarrow> io \<Rightarrow> rstr \<Rightarrow> int \<Rightarrow> eng \<Rightarrow> (eng \<times> bool) res" where
  "send_file_eager cr i path sz g =
     (let name = file_name path; mime = mime_of path;
          knd = (if starts_with mime (lit ''image/'') then lit ''image'' else lit ''file'')
      in case io_read i path of
           None \<Rightarrow> Ok (emit (file_failure FileReadFailed) g, True)
         | Some b \<Rightarrow>
             (case seal_payload cr i (g_key g) b of
                Panic \<Rightarrow> Panic
              | Err \<Rightarrow> Ok (emit (file_failure FileSealFailed) g, True)
              | Ok payload \<Rightarrow>
                  (let ev = default_clip\<lparr>ev_id := io_id i, ev_seq := g_seq g, ev_ts := io_ts i,
                              ev_mime := [mime], ev_name := name, blob_id_of := blob_id cr payload,
                              ev_size := sz, ev_sha256 := sha_hex cr payload,
                              ev_targets := current_targets g, ev_enc := enc_of_key (g_key g)\<rparr>;
                       up = \<lparr>up_ev = ev, up_kind = knd, up_preview = name, up_mime = mime, up_size = sz,
                             up_name = name, up_json = file_out_json knd name sz False,
                             up_err_via_error = False, up_echo = None\<rparr>
                   in Ok (spawn (UploadTask (c_server_url (g_cfg g)) (c_token (g_cfg g)) payload up) g, True))))"

definition send_file_clip :: "crates \<Rightarrow> io \<Rightarrow> rstr \<Rightarrow> eng \<Rightarrow> (eng \<times> bool) res" where
  "send_file_clip cr i path g =
     (case io_meta i path of
        None \<Rightarrow> Ok (emit (UNotify (lit ''CopySync'') FileOpenFailed) g, True)
      | Some n \<Rightarrow>
          (let sz = cast_i64 n;
               on_demand_mode = (g_threshold g > 0 \<and> sz > g_threshold g);
               g1 = g\<lparr>g_seq := g_seq g + 1\<rparr>
           in if on_demand_mode then send_file_on_demand cr i path sz g1
              else send_file_eager cr i path sz g1))"

end
