(* ===== verification/Engine_In.thy ===== *)
theory Engine_In
  imports Engine
begin

text \<open>
  The engine's inbound half (\<open>handle_frame\<close>, \<open>handle_incoming_text\<close> and \<open>apply_blob\<close> of
  \<open>core/src/engine.rs\<close>) and the bodies of the detached tasks. A panic below \<open>catch_unwind\<close> is the
  result \<open>Panic\<close>; it can only come from opening a ciphertext, before anything was changed.
\<close>

subsection \<open>Text\<close>

text \<open>The text of an inbound clip, or the event that reports why there is none.\<close>

definition incoming_text :: "crates \<Rightarrow> (bytes \<times> rstr) option \<Rightarrow> clip_event \<Rightarrow> (ui_event + rstr) res" where
  "incoming_text cr key ev =
     (case (ev_enc ev, key) of
        (Some meta, Some (k, kid)) \<Rightarrow>
          if enc_key_id meta \<noteq> [] \<and> enc_key_id meta \<noteq> kid
          then Ok (Inl (UNotify (lit ''CopySync'') (OtherKeyText (enc_key_id meta))))
          else
            (case b64_decode cr (inline_text ev) of
               None \<Rightarrow> Ok (Inl (UError TextBase64Failed))
             | Some raw \<Rightarrow>
                 (case e2e_open cr k raw of
                    Ok p \<Rightarrow> Ok (Inr (from_utf8_lossy p))
                  | Err \<Rightarrow> Ok (Inl (UNotify (lit ''CopySync'') TextDecryptFailed))
                  | Panic \<Rightarrow> Panic))
      | (Some _, None) \<Rightarrow> Ok (Inl (UNotify (lit ''CopySync'') TextKeyMissing))
      | (None, _) \<Rightarrow> Ok (Inr (inline_text ev)))"

definition incoming_html :: "crates \<Rightarrow> (bytes \<times> rstr) option \<Rightarrow> clip_event \<Rightarrow> rstr option res" where
  "incoming_html cr key ev =
     (if ev_html ev = [] then Ok None
      else
        (case (ev_enc ev, key) of
           (Some _, Some (k, _)) \<Rightarrow>
             (case b64_decode cr (ev_html ev) of
                None \<Rightarrow> Ok None
              | Some raw \<Rightarrow>
                  (case e2e_open cr k raw of
                     Ok p \<Rightarrow> Ok (Some (from_utf8_lossy p))
                   | Err \<Rightarrow> Ok None
                   | Panic \<Rightarrow> Panic))
         | (Some _, None) \<Rightarrow> Ok None
         | (None, _) \<Rightarrow> Ok (Some (ev_html ev))))"

definition text_in_json :: "rstr \<Rightarrow> rstr \<Rightarrow> json" where
  "text_in_json text origin = JObj [(''direction'', JStr (lit ''in'')), (''kind'', JStr (lit ''text'')),
     (''text'', JStr text), (''origin'', JStr origin)]"

text \<open>The part after decryption: remember the hash, put the text on the clipboard, schedule the
  auto-clear, record the clip and purge it later when it is sensitive, tell the user.\<close>

definition apply_text :: "crates \<Rightarrow> io \<Rightarrow> clip_event \<Rightarrow> rstr \<Rightarrow> rstr option \<Rightarrow> eng \<Rightarrow> eng" where
  "apply_text cr i ev text html g =
     (let g1 = g\<lparr>g_text := remember (io_now i) (g_text g) (sha_hex cr (as_bytes text))\<rparr>;
          (content, applied) =
            (case html of
               Some h \<Rightarrow> set_html (io_os i) h text (g_clip g1)
             | None \<Rightarrow> if g_mark g1 then set_text_sensitive (io_os i) text (g_clip g1)
                       else set_text (io_os i) text (g_clip g1));
          g2 = g1\<lparr>g_clip := content\<rparr>;
          g3 = (if applied then g2 else emit (UError TextApplyFailed) g2);
          g4 = (if g_auto_clear g3 > 0 then schedule_clear_text text (g_auto_clear g3) g3 else g3);
          (g5, row) = add_history cr i (ev_ts ev) (lit ''text'') (origin_device ev) (lit ''in'') text
                        (lit ''text/plain'') (int (str_len text)) [] [] g4;
          g6 = (if classify (alnum_table cr) text [] \<noteq> None
                then schedule_purge row (c_sensitive_ttl_secs (g_cfg g5)) g5 else g5);
          g7 = emit (UNotify (clip_origin_name g6 (origin_device ev)) (TextPreview (preview text))) g6
      in emit (UClip (text_in_json text (origin_device ev))) g7)"

definition handle_incoming_text :: "crates \<Rightarrow> io \<Rightarrow> clip_event \<Rightarrow> eng \<Rightarrow> eng res" where
  "handle_incoming_text cr i ev g =
     bind_res (incoming_text cr (g_key g) ev) (\<lambda>r.
     case r of
       Inl e \<Rightarrow> Ok (emit e g)
     | Inr text \<Rightarrow>
         bind_res (incoming_html cr (g_key g) ev) (\<lambda>html. Ok (apply_text cr i ev text html g)))"

subsection \<open>Blobs\<close>

definition incoming_blob :: "crates \<Rightarrow> (bytes \<times> rstr) option \<Rightarrow> clip_event \<Rightarrow> bytes \<Rightarrow> (msg + bytes) res" where
  "incoming_blob cr key ev content =
     (case (ev_enc ev, key) of
        (Some meta, Some (k, kid)) \<Rightarrow>
          if enc_key_id meta \<noteq> [] \<and> enc_key_id meta \<noteq> kid then Ok (Inl (OtherKeyBlob (enc_key_id meta)))
          else (case e2e_open cr k content of
                  Ok p \<Rightarrow> Ok (Inr p)
                | Err \<Rightarrow> Ok (Inl BlobDecryptFailed)
                | Panic \<Rightarrow> Panic)
      | (Some _, None) \<Rightarrow> Ok (Inl BlobKeyMissing)
      | (None, _) \<Rightarrow> Ok (Inr content))"

text \<open>\<open>trim_start_matches\<close> removes every leading repetition of the pattern.\<close>

function trim_start_str :: "rstr \<Rightarrow> rstr \<Rightarrow> rstr" where
  "trim_start_str p s =
     (if p \<noteq> [] \<and> starts_with s p then trim_start_str p (drop (length p) s) else s)"
  by auto
termination
proof (relation "measure (\<lambda>(p, s). length s)")
  fix p s :: rstr
  assume "p \<noteq> [] \<and> starts_with s p"
  then obtain r where "s = p @ r" "p \<noteq> []" by (auto simp: starts_with_iff)
  then show "((p, drop (length p) s), (p, s)) \<in> measure (\<lambda>(p, s). length s)" by simp
qed simp

declare trim_start_str.simps [simp del]

text \<open>The name under which a received file is stored: a pure base name, else the blob's hash.\<close>

definition download_name :: "clip_event \<Rightarrow> rstr" where
  "download_name ev =
     (case path_file_name (ev_name ev) of
        Some s \<Rightarrow> if s \<noteq> [] \<and> s \<noteq> lit ''.'' \<and> s \<noteq> lit ''..'' then s
                  else trim_start_str (lit ''sha256:'') (blob_id_of ev)
      | None \<Rightarrow> trim_start_str (lit ''sha256:'') (blob_id_of ev))"

definition blob_in_json :: "rstr \<Rightarrow> rstr \<Rightarrow> nat \<Rightarrow> rstr \<Rightarrow> json" where
  "blob_in_json knd name n path = JObj [(''direction'', JStr (lit ''in'')), (''kind'', JStr knd),
     (''name'', JStr name), (''size'', JInt (int n)), (''path'', JStr path)]"

definition apply_image :: "crates \<Rightarrow> io \<Rightarrow> clip_event \<Rightarrow> rstr \<Rightarrow> bytes \<Rightarrow> eng \<Rightarrow> eng" where
  "apply_image cr i ev name plain g =
     (let g1 = (case decode_image cr plain of
                  Some img \<Rightarrow>
                    (let ga = g\<lparr>g_img := remember (io_now i) (g_img g) (sha_hex cr (rgba img))\<rparr>;
                         (content, ok) = set_image (io_os i) img (g_clip ga);
                         gb = ga\<lparr>g_clip := content\<rparr>
                     in if ok then gb else emit (UError ImageApplyFailed) gb)
                | None \<Rightarrow> emit (UError ImageDecodeFailed) g)
      in emit (UNotify (clip_origin_name g1 (origin_device ev)) (ImageToast name (human (length plain)))) g1)"

definition apply_file :: "io \<Rightarrow> clip_event \<Rightarrow> rstr \<Rightarrow> rstr \<Rightarrow> bytes \<Rightarrow> eng \<Rightarrow> eng" where
  "apply_file i ev name path plain g =
     (let ga = g\<lparr>g_files := remember (io_now i) (g_files g) path\<rparr>;
          (content, ok) = set_files (io_os i) [path] (g_clip ga);
          gb = ga\<lparr>g_clip := content\<rparr>;
          g1 = (if ok then gb else emit (UError FileApplyFailed) gb)
      in emit (UNotify (clip_origin_name g1 (origin_device ev)) (FileToast name (human (length plain)))) g1)"

definition apply_blob :: "crates \<Rightarrow> io \<Rightarrow> clip_event \<Rightarrow> bytes \<Rightarrow> eng \<Rightarrow> eng res" where
  "apply_blob cr i ev content g =
     bind_res (incoming_blob cr (g_key g) ev content) (\<lambda>r.
     case r of
       Inl m \<Rightarrow> Ok (emit (UNotify (lit ''CopySync'') m) g)
     | Inr plain \<Rightarrow>
         (let name = download_name ev;
              path = path_join (g_downloads g) name;
              g1 = fst (write_file i path plain g);
              g2 = (if first_is_image ev then apply_image cr i ev name plain g1
                    else apply_file i ev name path plain g1);
              g3 = fst (add_history cr i (ev_ts ev) (kind ev) (origin_device ev) (lit ''in'') path
                          (case ev_mime ev of m # _ \<Rightarrow> m | [] \<Rightarrow> []) (int (length plain)) (blob_id_of ev) name g2)
          in Ok (emit (UClip (blob_in_json (kind ev) name (length plain) path)) g3)))"

subsection \<open>Frames\<close>

definition serve_request :: "io \<Rightarrow> rstr \<Rightarrow> eng \<Rightarrow> eng" where
  "serve_request i bid g =
     (case fst (g_holds g) bid of
        None \<Rightarrow> emit (UError (NoLongerHeld bid)) g
      | Some h \<Rightarrow>
          (case (case h of Sealed b \<Rightarrow> Some b | Plain p \<Rightarrow> io_read i p) of
             None \<Rightarrow> emit (UError RequestedReadFailed) g
           | Some b \<Rightarrow> spawn (ServeTask (c_server_url (g_cfg g)) (c_token (g_cfg g)) bid b) g))"

definition handle_frame :: "crates \<Rightarrow> io \<Rightarrow> rstr \<Rightarrow> json \<Rightarrow> eng \<Rightarrow> eng" where
  "handle_frame cr i t d g =
     (if t = T_CLIP then
        (case clip_of_json d of
           None \<Rightarrow> emit (UError ClipDecodeFailed) g
         | Some ev \<Rightarrow>
             if is_blob ev
             then spawn (DownloadTask (c_server_url (g_cfg g)) (c_token (g_cfg g)) ev) g
             else (case handle_incoming_text cr i ev g of
                     Ok g' \<Rightarrow> g'
                   | _ \<Rightarrow> emit (UError ClipPanicked) g))
      else if t = T_BLOB_REQUEST then
        (case blob_request_of_json d of
           None \<Rightarrow> g
         | Some bid \<Rightarrow> serve_request i bid g)
      else if t = T_ROSTER then
        (case roster_of_json d of None \<Rightarrow> g | Some ds \<Rightarrow> set_roster ds g)
      else if t = T_PRESENCE then
        (case presence_of_json d of None \<Rightarrow> g | Some p \<Rightarrow> apply_presence p g)
      else g)"

lemma handle_frame_keeps:
  assumes "P g" and "\<And>m. P (emit (UError m) g)" and "\<And>t. P (spawn t g)"
    and "\<And>ev g'. handle_incoming_text cr i ev g = Ok g' \<Longrightarrow> P g'" and "\<And>bid. P (serve_request i bid g)"
    and "\<And>ds. P (set_roster ds g)" and "\<And>p. P (apply_presence p g)"
  shows "P (handle_frame cr i t d g)"
  by (simp add: handle_frame_def assms split: option.split res.split)

subsection \<open>Detached tasks\<close>

text \<open>What a task reports back to the loop; \<open>put\<close> and \<open>get\<close> are the server's answers.\<close>

definition upload_worker :: "crates \<Rightarrow> (rstr \<Rightarrow> rstr \<Rightarrow> bytes \<Rightarrow> http_response) \<Rightarrow> rstr \<Rightarrow> rstr \<Rightarrow> rstr \<Rightarrow> bytes
    \<Rightarrow> upload \<Rightarrow> blob_result" where
  "upload_worker cr put tmsg base token payload up =
     Upload (case put_blob cr put tmsg base token payload of
               Inr _ \<Rightarrow> None
             | Inl e \<Rightarrow>
                 (let cls = classify_blob_err e in
                  Some (cls, if up_err_via_error up then ImageUploadFailed cls (blob_error_text e)
                             else FileUploadFailed cls (blob_error_text e)))) up"

definition serve_worker :: "crates \<Rightarrow> (rstr \<Rightarrow> rstr \<Rightarrow> bytes \<Rightarrow> http_response) \<Rightarrow> rstr \<Rightarrow> rstr \<Rightarrow> rstr \<Rightarrow> rstr
    \<Rightarrow> bytes \<Rightarrow> blob_result" where
  "serve_worker cr put tmsg base token bid b =
     Serve bid (case put_blob cr put tmsg base token b of Inr _ \<Rightarrow> True | Inl _ \<Rightarrow> False)"

definition download_worker :: "crates \<Rightarrow> (rstr \<Rightarrow> rstr \<Rightarrow> http_response) \<Rightarrow> rstr \<Rightarrow> rstr \<Rightarrow> rstr \<Rightarrow> clip_event
    \<Rightarrow> blob_result" where
  "download_worker cr get tmsg base token ev =
     Download (case get_blob cr get tmsg base token (blob_id_of ev) of
                 Inr b \<Rightarrow> Inr b
               | Inl e \<Rightarrow> (let cls = classify_blob_err e in Inl (cls, DownloadFailed cls (blob_error_text e)))) ev"

definition purge_fires :: "bool \<Rightarrow> int \<Rightarrow> eng \<Rightarrow> eng" where
  "purge_fires ok n g = g\<lparr>g_hist := fst (hist_delete ok (g_hist g) n)\<rparr>"

definition clear_fires :: "os \<Rightarrow> rstr \<Rightarrow> eng \<Rightarrow> eng" where
  "clear_fires w expected g =
     (if get_text w = Some expected then g\<lparr>g_clip := fst (clip_clear w (g_clip g))\<rparr> else g)"

end
