(* ===== verification/Engine_Run.thy ===== *)
theory Engine_Run
  imports Engine_In
begin

text \<open>
  The actor (\<open>run\<close> of \<open>core/src/engine.rs\<close>): its start, one definition per arm of the
  \<open>select!\<close>, the re-advertising of finished uploads on a new connection, the disconnect and
  backoff path, and the whole loop as a step function on a phase and the engine's state.

  Each event is one thing \<open>select!\<close> picks: a timer tick, a manual reconnect, a command (or the
  end of the command channel), a frame, or the result of a detached transfer. A step takes the
  answers of the outside as a sequence, one per file of a multi-file copy and one per stashed upload.
\<close>

definition WS_WATCHDOG :: millis where
  "WS_WATCHDOG = 75000"

datatype flow = Go | Break why | Return | Panicked

datatype loop_event =
    PingTick
  | WatchdogTick
  | ReconnectAsked
  | Command "cmd option"
  | Received recv_result
  | BlobDone blob_result

definition of_send :: "why \<Rightarrow> (eng \<times> bool) res \<Rightarrow> eng \<Rightarrow> eng \<times> flow" where
  "of_send w r g = (case r of Ok (g', ok) \<Rightarrow> (g', if ok then Go else Break w) | _ \<Rightarrow> (g, Panicked))"

subsection \<open>The arms of the select\<close>

definition on_ping :: "io \<Rightarrow> eng \<Rightarrow> eng \<times> flow" where
  "on_ping i g = (g, if io_send i then Go else Break PingFailed)"

definition on_watchdog :: "io \<Rightarrow> eng \<Rightarrow> eng \<times> flow" where
  "on_watchdog i g =
     (let idle = io_now i - g_last_recv g
      in (g, if idle > WS_WATCHDOG then Break (WatchdogExpired (idle div 1000)) else Go))"

definition sensitive_json :: "rstr \<Rightarrow> sensitivity \<Rightarrow> json" where
  "sensitive_json text r = JObj [(''direction'', JStr (lit ''out'')), (''kind'', JStr (lit ''text'')),
     (''text'', JStr text), (''sensitive'', JStr (lit (label r)))]"

definition on_local_text :: "crates \<Rightarrow> io \<Rightarrow> rstr \<Rightarrow> rstr option \<Rightarrow> eng \<Rightarrow> eng \<times> flow" where
  "on_local_text cr i text html g =
     (let sha = sha_hex cr (as_bytes text) in
      if seen (io_now i) (g_text g) sha then (g, Go)
      else
        (case (if g_exclude g then classify (alnum_table cr) text (g_customs g) else None) of
           Some reason \<Rightarrow>
             (let (g1, n) = add_history cr i (io_ts i) (lit ''text'') (lit ''me'') (lit ''out'') text
                              (lit ''text/plain'') (int (str_len text)) [] [] g;
                  g2 = schedule_purge n (c_sensitive_ttl_secs (g_cfg g1)) g1
              in (emit (UClip (sensitive_json text reason)) g2, Go))
         | None \<Rightarrow> of_send TextSendFailed (send_text_clip cr i text html g) g))"

definition on_local_image :: "crates \<Rightarrow> io \<Rightarrow> image \<Rightarrow> eng \<Rightarrow> eng \<times> flow" where
  "on_local_image cr i img g =
     (let sha = sha_hex cr (rgba img) in
      if seen (io_now i) (g_img g) sha then (g, Go)
      else (case spawn_image_clip cr i img sha g of Ok g' \<Rightarrow> (g', Go) | _ \<Rightarrow> (g, Panicked)))"

fun on_local_files :: "crates \<Rightarrow> (nat \<Rightarrow> io) \<Rightarrow> nat \<Rightarrow> rstr list \<Rightarrow> eng \<Rightarrow> eng \<times> flow" where
  "on_local_files cr ios n [] g = (g, Go)"
| "on_local_files cr ios n (p # ps) g =
     (if seen (io_now (ios n)) (g_files g) p then on_local_files cr ios (Suc n) ps g
      else
        (case of_send FileSendFailed (send_file_clip cr (ios n) p g) g of
           (g', Go) \<Rightarrow> on_local_files cr ios (Suc n) ps g'
         | r \<Rightarrow> r))"

definition on_set_pool :: "crates \<Rightarrow> io \<Rightarrow> rstr \<Rightarrow> eng \<Rightarrow> eng \<times> flow" where
  "on_set_pool cr i name g =
     (let (g1, sent) = ws_send cr i T_SET_POOL (set_pool_to_json name) g in
      if \<not> sent then (g1, Break SetPoolFailed)
      else (let s = (g_status g1)\<lparr>st_pool := name\<rparr>
            in (emit (UStatus s) (g1\<lparr>g_status := s\<rparr>), Go)))"

fun on_command :: "crates \<Rightarrow> (nat \<Rightarrow> io) \<Rightarrow> cmd option \<Rightarrow> eng \<Rightarrow> eng \<times> flow" where
  "on_command cr ios None g = (g, Return)"
| "on_command cr ios (Some (LocalText text html)) g = on_local_text cr (ios 0) text html g"
| "on_command cr ios (Some (SendText t)) g =
     of_send TextSendFailed (send_text_clip cr (ios 0) t None g) g"
| "on_command cr ios (Some (LocalImage img)) g = on_local_image cr (ios 0) img g"
| "on_command cr ios (Some (SendFile p)) g = of_send FileSendFailed (send_file_clip cr (ios 0) p g) g"
| "on_command cr ios (Some (LocalFiles files)) g = on_local_files cr ios 0 files g"
| "on_command cr ios (Some (SetPool name)) g = on_set_pool cr (ios 0) name g"

definition on_token_rotate :: "crates \<Rightarrow> io \<Rightarrow> json \<Rightarrow> eng \<Rightarrow> eng" where
  "on_token_rotate cr i d g =
     (case token_rotate_of_json d of
        None \<Rightarrow> g
      | Some t \<Rightarrow>
          if t = [] then g
          else (let g1 = g\<lparr>g_cfg := (g_cfg g)\<lparr>c_token := t\<rparr>\<rparr>;
                    (fs, ok) = config_save cr (io_mkdir i) (io_write i) (g_disk g1) (g_cfg_path g1) (g_cfg g1)
                in emit (UError TokenRotated) (g1\<lparr>g_disk := fs\<rparr>)))"

fun on_received :: "crates \<Rightarrow> io \<Rightarrow> recv_result \<Rightarrow> eng \<Rightarrow> eng \<times> flow" where
  "on_received cr i (RecvFrame t d) g =
     (let g1 = g\<lparr>g_last_recv := io_now i\<rparr> in
      if t = KEEPALIVE then (g1, Go)
      else if t = T_TOKEN_ROTATE then (on_token_rotate cr i d g1, Go)
      else (handle_frame cr i t d g1, Go))"
| "on_received cr i RecvEof g = (g, Break ServerClosed)"
| "on_received cr i RecvErr g = (g, Break RecvError)"

text \<open>The bookkeeping once an uploaded clip has been advertised.\<close>

definition record_sent :: "crates \<Rightarrow> io \<Rightarrow> upload \<Rightarrow> eng \<Rightarrow> eng" where
  "record_sent cr i up g =
     (let g1 = (case up_echo up of
                  Some sha \<Rightarrow> g\<lparr>g_img := remember (io_now i) (g_img g) sha\<rparr>
                | None \<Rightarrow> g);
          g2 = fst (add_history cr i (ev_ts (up_ev up)) (up_kind up) (lit ''me'') (lit ''out'') (up_preview up)
                      (up_mime up) (up_size up) (blob_id_of (up_ev up)) (up_name up) g1)
      in emit (UClip (up_json up)) g2)"

fun on_blob :: "crates \<Rightarrow> io \<Rightarrow> blob_result \<Rightarrow> eng \<Rightarrow> eng \<times> flow" where
  "on_blob cr i (Upload None up) g =
     (let (g1, sent) = ws_send cr i T_CLIP (clip_to_json (up_ev up)) g in
      if \<not> sent then (g1\<lparr>g_pending := g_pending g1 @ [Upload None up]\<rparr>, Break ClipSendFailed)
      else (record_sent cr i up g1, Go))"
| "on_blob cr i (Upload (Some (cls, m)) up) g =
     (emit (if up_err_via_error up then UError m else UNotify (lit ''CopySync'') m) g, Go)"
| "on_blob cr i (Serve bid ok) g = (g\<lparr>g_holds := drop_served bid ok (g_holds g)\<rparr>, Go)"
| "on_blob cr i (Download (Inr b) ev) g =
     (case apply_blob cr i ev b g of
        Ok g' \<Rightarrow> (g', Go)
      | _ \<Rightarrow> (emit (UError BlobPanicked) g, Go))"
| "on_blob cr i (Download (Inl (cls, m)) ev) g = (emit (UNotify (lit ''CopySync'') m) g, Go)"

fun loop_step :: "crates \<Rightarrow> (nat \<Rightarrow> io) \<Rightarrow> loop_event \<Rightarrow> eng \<Rightarrow> eng \<times> flow" where
  "loop_step cr ios PingTick g = on_ping (ios 0) g"
| "loop_step cr ios WatchdogTick g = on_watchdog (ios 0) g"
| "loop_step cr ios ReconnectAsked g = (g, Break UserReconnect)"
| "loop_step cr ios (Command c) g = on_command cr ios c g"
| "loop_step cr ios (Received r) g = on_received cr (ios 0) r g"
| "loop_step cr ios (BlobDone r) g = on_blob cr (ios 0) r g"

subsection \<open>Connecting\<close>

text \<open>Re-advertise the stashed uploads; once a send fails the rest is kept.\<close>

fun readvertise :: "crates \<Rightarrow> (nat \<Rightarrow> io) \<Rightarrow> nat \<Rightarrow> blob_result list \<Rightarrow> bool \<Rightarrow> eng \<Rightarrow> eng \<times> bool" where
  "readvertise cr ios n [] failed g = (g, failed)"
| "readvertise cr ios n (res # rest) failed g =
     (if failed then readvertise cr ios (Suc n) rest True (g\<lparr>g_pending := g_pending g @ [res]\<rparr>)
      else
        (case res of
           Upload outcome up \<Rightarrow>
             (let (g1, sent) = ws_send cr (ios n) T_CLIP (clip_to_json (up_ev up)) g in
              if \<not> sent
              then readvertise cr ios (Suc n) rest True (g1\<lparr>g_pending := g_pending g1 @ [Upload outcome up]\<rparr>)
              else readvertise cr ios (Suc n) rest False (record_sent cr (ios n) up g1))
         | _ \<Rightarrow> readvertise cr ios (Suc n) rest False g))"

definition on_hello :: "io \<Rightarrow> hello_ok \<Rightarrow> eng \<Rightarrow> eng" where
  "on_hello i hello g =
     (let g1 = g\<lparr>g_attempt := 0, g_threshold := ho_on_demand_threshold hello, g_max_msg := ho_max_msg hello\<rparr>;
          g2 = set_roster (ho_roster hello) g1;
          g3 = g2\<lparr>g_status := (g_status g2)\<lparr>st_pool := ho_pool hello, st_pools := ho_pools hello,
                                            st_reconnecting := False\<rparr>\<rparr>;
          g4 = set_connected True g3
      in g4\<lparr>g_last_recv := io_now i\<rparr>)"

definition bump_attempt :: "eng \<Rightarrow> eng" where
  "bump_attempt g = g\<lparr>g_attempt := saturating_add (g_attempt g) 1\<rparr>"

text \<open>The path of a connection whose first re-advertisement failed.\<close>

definition requeue_failed :: "eng \<Rightarrow> eng" where
  "requeue_failed g = bump_attempt (set_connected False (emit (UError ReadvertiseFailed) g))"

definition backoff :: "io \<Rightarrow> eng \<Rightarrow> eng" where
  "backoff i g =
     (let g1 = bump_attempt g;
          delay = backoff_delay (io_subsec i) (g_attempt g1);
          s = (g_status g1)\<lparr>st_connected := False, st_reconnecting := True\<rparr>;
          g2 = emit (UStatus s) (g1\<lparr>g_status := s\<rparr>)
      in emit (UReconnect (g_attempt g2) (max (unat delay div 1000) 1)) g2)"

definition disconnected :: "why \<Rightarrow> eng \<Rightarrow> eng" where
  "disconnected w g = set_connected False (emit (UError (Disconnected w)) g)"

subsection \<open>The whole loop\<close>

datatype phase = Dialing | Connected | Stopped | Crashed

datatype run_event =
    Dialed bytes bool bool ws_item
  | Looped loop_event

text \<open>\<open>Dialed cert dial_ok send_ok first\<close>: the certificate the server showed, whether the
  connection and the hello were made, and the first thing the server sent.\<close>

fun run_step :: "crates \<Rightarrow> bytes \<Rightarrow> run_event \<times> (nat \<Rightarrow> io) \<Rightarrow> phase \<times> eng \<Rightarrow> phase \<times> eng" where
  "run_step cr pin (Dialed cert dial_ok send_ok first, ios) (Dialing, g) =
     (case ws_connect cr pin (c_device_id (g_cfg g)) (c_device_name (g_cfg g)) (c_token (g_cfg g))
             cert dial_ok send_ok first of
        Inl e \<Rightarrow> (Dialing, backoff (ios 0) (emit (UError (ConnectFailed e)) g))
      | Inr hello \<Rightarrow>
          (let g1 = on_hello (ios 0) hello g;
               (g2, failed) = readvertise cr ios 1 (g_pending g1) False (g1\<lparr>g_pending := []\<rparr>)
           in if failed then (Dialing, requeue_failed g2) else (Connected, g2)))"
| "run_step cr pin (Looped ev, ios) (Connected, g) =
     (case loop_step cr ios ev g of
        (g1, Go) \<Rightarrow> (Connected, g1)
      | (g1, Break w) \<Rightarrow> (Dialing, backoff (ios 0) (disconnected w g1))
      | (g1, Return) \<Rightarrow> (Stopped, g1)
      | (g1, Panicked) \<Rightarrow> (Crashed, g1))"
| "run_step cr pin ev s = s"

text \<open>The start of \<open>run\<close>: the pin is decoded, the key derived and the patterns compiled, and the
  rings start empty. \<open>None\<close> is the early return on a bad pin, with the state it leaves.\<close>

definition run_init :: "crates \<Rightarrow> config \<Rightarrow> eng \<Rightarrow> (bytes \<times> eng) option" where
  "run_init cr c g =
     (case pin_bytes cr c of
        None \<Rightarrow> None
      | Some pin \<Rightarrow>
          Some (pin, g\<lparr>g_cfg := c, g_key := e2e_key cr c, g_customs := custom_regexes cr c, g_seq := 0,
                       g_text := [], g_img := [], g_files := [], g_holds := (\<lambda>_. None, []),
                       g_pending := [], g_attempt := 0\<rparr>))"

definition run_bad_pin :: "eng \<Rightarrow> eng" where
  "run_bad_pin g = emit (UError BadPin) (set_connected False g)"

end
