(* ===== verification/Engine_Inv.thy ===== *)
theory Engine_Inv
  imports Engine_Run
begin

text \<open>
  The engine's invariant: the three echo rings and the ring of holds are well formed and
  bounded, row ids of the history are unique and never reused, only finished uploads are
  stashed, and the group key has 32 bytes. Every arm of the loop keeps it and none panics.
\<close>

named_theorems eng_frame \<open>fields and invariant under the engine's effects\<close>

definition eng_inv :: "eng \<Rightarrow> bool" where
  "eng_inv g \<longleftrightarrow> dedup_wf (g_text g) \<and> dedup_wf (g_img g) \<and> dedup_wf (g_files g) \<and> holds_wf (g_holds g)
     \<and> hist_wf (g_hist g) \<and> list_all (\<lambda>r. case r of Upload None _ \<Rightarrow> True | _ \<Rightarrow> False) (g_pending g)
     \<and> (case g_key g of Some (k, _) \<Rightarrow> length k = 32 | None \<Rightarrow> True)"

lemma eng_inv_irrelevant [eng_frame]:
  "eng_inv (g\<lparr>g_cfg := x0\<rparr>) = eng_inv g"
  "eng_inv (g\<lparr>g_customs := x1\<rparr>) = eng_inv g"
  "eng_inv (g\<lparr>g_status := x2\<rparr>) = eng_inv g"
  "eng_inv (g\<lparr>g_roster := x3\<rparr>) = eng_inv g"
  "eng_inv (g\<lparr>g_targets := x4\<rparr>) = eng_inv g"
  "eng_inv (g\<lparr>g_seq := x5\<rparr>) = eng_inv g"
  "eng_inv (g\<lparr>g_attempt := x6\<rparr>) = eng_inv g"
  "eng_inv (g\<lparr>g_threshold := x7\<rparr>) = eng_inv g"
  "eng_inv (g\<lparr>g_max_msg := x8\<rparr>) = eng_inv g"
  "eng_inv (g\<lparr>g_last_recv := x9\<rparr>) = eng_inv g"
  "eng_inv (g\<lparr>g_wire := x10\<rparr>) = eng_inv g"
  "eng_inv (g\<lparr>g_ui := x11\<rparr>) = eng_inv g"
  "eng_inv (g\<lparr>g_tasks := x12\<rparr>) = eng_inv g"
  "eng_inv (g\<lparr>g_disk := x13\<rparr>) = eng_inv g"
  "eng_inv (g\<lparr>g_clip := x14\<rparr>) = eng_inv g"
  by (simp_all add: eng_inv_def)

lemma eng_inv_rings [eng_frame]:
  "eng_inv g \<Longrightarrow> eng_inv (g\<lparr>g_text := remember n (g_text g) sha\<rparr>)"
  "eng_inv g \<Longrightarrow> eng_inv (g\<lparr>g_img := remember n (g_img g) sha\<rparr>)"
  "eng_inv g \<Longrightarrow> eng_inv (g\<lparr>g_files := remember n (g_files g) sha\<rparr>)"
  "eng_inv g \<Longrightarrow> eng_inv (g\<lparr>g_holds := hold_on_demand (g_holds g) bid h\<rparr>)"
  "eng_inv g \<Longrightarrow> eng_inv (g\<lparr>g_holds := drop_served bid ok (g_holds g)\<rparr>)"
  by (simp_all add: eng_inv_def remember_wf hold_wf drop_served_wf)

lemma eng_inv_pending [eng_frame]:
  "eng_inv g \<Longrightarrow> eng_inv (g\<lparr>g_pending := g_pending g @ [Upload None up]\<rparr>)"
  "eng_inv g \<Longrightarrow> eng_inv (g\<lparr>g_pending := []\<rparr>)"
  by (simp_all add: eng_inv_def)

lemma eng_inv_if [eng_frame]: "eng_inv (if b then g else g') = (if b then eng_inv g else eng_inv g')"
  by simp

lemma eng_inv_emit [eng_frame]: "eng_inv (emit e g) = eng_inv g"
  by (simp add: emit_def eng_frame)

lemma eng_inv_spawn [eng_frame]: "eng_inv (spawn t g) = eng_inv g"
  by (simp add: spawn_def eng_frame)

lemma eng_inv_send [eng_frame]: "eng_inv (fst (ws_send cr i t d g)) = eng_inv g"
  by (auto simp: ws_send_def eng_frame split: option.splits)

lemma eng_inv_write [eng_frame]: "eng_inv (fst (write_file i p b g)) = eng_inv g"
  by (auto simp: write_file_def eng_frame split: write_result.splits)

lemma eng_inv_history [eng_frame]:
  assumes "eng_inv g"
  shows "eng_inv (fst (add_history cr i ts k og d p m s b n g))"
proof -
  have "hist_wf (fst (hist_add cr (io_sql i) (fst (io_nonce_row i)) (snd (io_nonce_row i)) (g_hist g)
      ts k og d p m s b n))"
    using assms by (intro hist_wf_add) (simp add: eng_inv_def)
  then show ?thesis using assms
    by (simp add: add_history_def Let_def case_prod_beta) (simp add: eng_inv_def)
qed

lemma eng_inv_schedule [eng_frame]:
  "eng_inv (schedule_purge n ttl g) = eng_inv g" "eng_inv (schedule_clear_text t secs g) = eng_inv g"
  by (simp_all add: schedule_purge_def schedule_clear_text_def eng_frame)

lemma eng_inv_status [eng_frame]:
  "eng_inv (set_connected on g) = eng_inv g" "eng_inv (set_roster ds g) = eng_inv g"
  "eng_inv (apply_presence p g) = eng_inv g"
  by (simp_all add: set_connected_def set_roster_def apply_presence_def Let_def eng_frame)

lemma key_length: "eng_inv g \<Longrightarrow> g_key g = Some (k, kid) \<Longrightarrow> length k = 32"
  by (simp add: eng_inv_def)

text \<open>A send that returns, in a state that satisfies the invariant.\<close>

definition inv_sent :: "(eng \<times> bool) res \<Rightarrow> bool" where
  "inv_sent r = (case r of Ok p \<Rightarrow> eng_inv (fst p) | _ \<Rightarrow> False)"

lemma inv_sent_Ok [simp]: "inv_sent (Ok p) = eng_inv (fst p)"
  by (simp add: inv_sent_def)

subsection \<open>Outbound\<close>

lemma new_text_no_panic:
  assumes "\<And>k kid. key = Some (k, kid) \<Longrightarrow> length k = 32"
  shows "new_text cr nid ts n1 n2 sq text html key tg \<noteq> Panic"
proof (cases key)
  case (Some p)
  obtain k kid where p: "p = (k, kid)" by (cases p)
  have l: "length k = 32" using assms Some p by blast
  show ?thesis
    using Some p seal_no_panic [OF l]
    by (auto simp: new_text_def Let_def bind_res_Panic_iff split: option.splits)
qed (simp add: new_text_def Let_def)

lemma seal_payload_no_panic: "eng_inv g \<Longrightarrow> seal_payload cr i (g_key g) b \<noteq> Panic"
  by (auto simp: seal_payload_def seal_no_panic key_length split: option.splits)

lemma send_text_inv:
  assumes "eng_inv g"
  shows "inv_sent (send_text_clip cr i text html g)"
proof -
  define g1 where "g1 = g\<lparr>g_seq := g_seq g + 1\<rparr>"
  have inv: "eng_inv g1" using assms by (simp add: g1_def eng_frame)
  have np: "new_text cr (io_id i) (io_ts i) (io_nonce i) (io_nonce_html i) (g_seq g1) text html (g_key g1)
      (current_targets g1) \<noteq> Panic"
    using new_text_no_panic key_length [OF inv] by blast
  show ?thesis
    using np inv
    by (simp add: send_text_clip_def g1_def [symmetric] Let_def case_prod_beta eng_frame
        split: res.splits option.splits)
qed

lemma cache_image_inv: "eng_inv (fst (cache_outbound_image cr i png g)) = eng_inv g"
  by (simp add: cache_outbound_image_def Let_def case_prod_beta eng_frame)

lemma cache_image_key: "g_key (fst (cache_outbound_image cr i png g)) = g_key g"
  by (simp add: cache_outbound_image_def Let_def case_prod_beta write_file_def split: write_result.splits)

lemma spawn_image_inv:
  assumes "eng_inv g"
  shows "\<exists>g'. spawn_image_clip cr i img sha g = Ok g' \<and> eng_inv g'"
  using assms seal_payload_no_panic [OF assms]
  by (simp add: spawn_image_clip_def Let_def case_prod_beta eng_frame cache_image_inv
      split: option.splits res.splits)

lemma advertise_no_panic: "eng_inv g \<Longrightarrow> advertise cr i path g \<noteq> None"
  by (auto simp: advertise_def seal_no_panic key_length split: option.splits res.splits)

lemma send_on_demand_inv:
  assumes "eng_inv g"
  shows "inv_sent (send_file_on_demand cr i path sz g)"
  using assms advertise_no_panic [OF assms, of cr i path]
  by (cases "advertise cr i path g")
    (simp_all add: send_file_on_demand_def Let_def case_prod_beta eng_frame split: sum.splits)

lemma send_eager_inv:
  assumes "eng_inv g"
  shows "inv_sent (send_file_eager cr i path sz g)"
  using assms seal_payload_no_panic [OF assms]
  by (simp add: send_file_eager_def Let_def eng_frame split: option.splits res.splits)

lemma send_file_inv:
  assumes "eng_inv g"
  shows "inv_sent (send_file_clip cr i path g)"
  using assms send_on_demand_inv send_eager_inv
  by (simp add: send_file_clip_def Let_def eng_frame split: option.splits)

lemma of_send_inv:
  assumes "inv_sent r"
  shows "eng_inv (fst (of_send w r g)) \<and> snd (of_send w r g) \<in> {Go, Break w}"
  using assms by (cases r) (auto simp: of_send_def inv_sent_def split: prod.splits)

subsection \<open>Inbound\<close>

lemma apply_text_inv: "eng_inv g \<Longrightarrow> eng_inv (apply_text cr i ev text html g)"
  by (simp add: apply_text_def Let_def case_prod_beta eng_frame)

lemma handle_text_inv:
  assumes "eng_inv g" "handle_incoming_text cr i ev g = Ok g'"
  shows "eng_inv g'"
proof -
  obtain r where "incoming_text cr (g_key g) ev = Ok r"
    using assms(2) by (auto simp: handle_incoming_text_def bind_res_Ok_iff)
  then show ?thesis using assms
    by (cases r) (auto simp: handle_incoming_text_def bind_res_Ok_iff eng_frame apply_text_inv)
qed

lemma apply_image_inv: "eng_inv g \<Longrightarrow> eng_inv (apply_image cr i ev n b g)"
  by (auto simp: apply_image_def Let_def case_prod_beta eng_frame split: option.splits)

lemma apply_file_inv: "eng_inv g \<Longrightarrow> eng_inv (apply_file i ev n p b g)"
  by (auto simp: apply_file_def Let_def case_prod_beta eng_frame)

lemma apply_blob_inv:
  assumes "eng_inv g" "apply_blob cr i ev b g = Ok g'"
  shows "eng_inv g'"
proof -
  obtain r where "incoming_blob cr (g_key g) ev b = Ok r"
    using assms(2) by (auto simp: apply_blob_def bind_res_Ok_iff)
  then show ?thesis using assms
    by (cases r) (auto simp: apply_blob_def Let_def eng_frame apply_image_inv apply_file_inv)
qed

lemma serve_request_inv: "eng_inv (serve_request i bid g) = eng_inv g"
  by (auto simp: serve_request_def eng_frame split: option.splits)

lemma handle_frame_inv: "eng_inv g \<Longrightarrow> eng_inv (handle_frame cr i t d g)"
  by (rule handle_frame_keeps) (simp_all add: eng_frame serve_request_inv handle_text_inv)

subsection \<open>The loop\<close>

lemma record_sent_inv: "eng_inv g \<Longrightarrow> eng_inv (record_sent cr i up g)"
  by (simp add: record_sent_def Let_def eng_frame split: option.splits)

lemma on_blob_inv:
  assumes "eng_inv g"
  shows "eng_inv (fst (on_blob cr i r g)) \<and> snd (on_blob cr i r g) \<noteq> Panicked"
  using assms
  by (cases "(cr, i, r, g)" rule: on_blob.cases)
    (auto simp: Let_def case_prod_beta eng_frame record_sent_inv apply_blob_inv split: res.splits)

lemma on_local_files_inv:
  assumes "eng_inv g"
  shows "eng_inv (fst (on_local_files cr ios n ps g)) \<and> snd (on_local_files cr ios n ps g) \<noteq> Panicked"
  using assms
proof (induction cr ios n ps g rule: on_local_files.induct)
  case (2 cr ios n p ps g)
  define r where "r = of_send FileSendFailed (send_file_clip cr (ios n) p g) g"
  have r: "eng_inv (fst r) \<and> snd r \<in> {Go, Break FileSendFailed}"
    unfolding r_def by (rule of_send_inv) (rule send_file_inv [OF 2(3)])
  show ?case
  proof (cases "seen (io_now (ios n)) (g_files g) p")
    case False
    obtain g' f where g': "r = (g', f)" by (cases r)
    show ?thesis
    proof (cases "f = Go")
      case True
      then show ?thesis using 2(2) [OF False] r g' False unfolding r_def by simp
    next
      case F: False
      then show ?thesis using r g' False unfolding r_def by auto
    qed
  qed (use 2 in simp)
qed simp

lemma on_token_rotate_inv: "eng_inv (on_token_rotate cr i d g) = eng_inv g"
  by (simp add: on_token_rotate_def Let_def case_prod_beta eng_frame split: option.splits)

lemma on_received_inv:
  "eng_inv g \<Longrightarrow> eng_inv (fst (on_received cr i r g)) \<and> snd (on_received cr i r g) \<noteq> Panicked"
  by (cases r) (auto simp: Let_def eng_frame on_token_rotate_inv handle_frame_inv)

lemma of_send_inv_flow:
  "inv_sent r \<Longrightarrow> eng_inv (fst (of_send w r g)) \<and> snd (of_send w r g) \<noteq> Panicked"
  using of_send_inv [of r w g] by auto

lemma on_local_text_inv:
  assumes "eng_inv g"
  shows "eng_inv (fst (on_local_text cr i t h g)) \<and> snd (on_local_text cr i t h g) \<noteq> Panicked"
  using assms of_send_inv_flow [OF send_text_inv [OF assms]]
  by (simp add: on_local_text_def Let_def case_prod_beta eng_frame split: option.splits)

lemma on_local_image_inv:
  assumes "eng_inv g"
  shows "eng_inv (fst (on_local_image cr i img g)) \<and> snd (on_local_image cr i img g) \<noteq> Panicked"
  using assms spawn_image_inv [OF assms, of cr i img "sha_hex cr (rgba img)"]
  by (auto simp: on_local_image_def Let_def)

lemma on_command_inv:
  assumes "eng_inv g"
  shows "eng_inv (fst (on_command cr ios c g)) \<and> snd (on_command cr ios c g) \<noteq> Panicked"
proof (cases "(cr, ios, c, g)" rule: on_command.cases)
  case (7 cr' ios' name g')
  with assms show ?thesis by (auto simp: on_set_pool_def Let_def case_prod_beta eng_frame)
qed (use assms in \<open>simp_all add: on_local_text_inv on_local_image_inv on_local_files_inv
       of_send_inv_flow send_text_inv send_file_inv\<close>)

lemma loop_step_inv:
  assumes "eng_inv g"
  shows "eng_inv (fst (loop_step cr ios ev g)) \<and> snd (loop_step cr ios ev g) \<noteq> Panicked"
  using assms on_command_inv on_received_inv on_blob_inv
  by (cases ev) (auto simp: on_ping_def on_watchdog_def Let_def)

lemma readvertise_inv:
  assumes "eng_inv g" "list_all (\<lambda>r. case r of Upload None _ \<Rightarrow> True | _ \<Rightarrow> False) stash"
  shows "eng_inv (fst (readvertise cr ios n stash failed g))"
  using assms
proof (induction stash arbitrary: n failed g)
  case (Cons r stash)
  then obtain up where r: "r = Upload None up" by (auto split: blob_result.splits option.splits)
  show ?case using Cons r by (auto simp: Let_def case_prod_beta eng_frame record_sent_inv)
qed simp

lemma backoff_inv [eng_frame]:
  "eng_inv (backoff i g) = eng_inv g" "eng_inv (requeue_failed g) = eng_inv g"
  "eng_inv (disconnected w g) = eng_inv g" "eng_inv (on_hello i h g) = eng_inv g"
  by (simp_all add: backoff_def requeue_failed_def disconnected_def on_hello_def bump_attempt_def
      Let_def eng_frame)

definition run_inv :: "phase \<times> eng \<Rightarrow> bool" where
  "run_inv s \<longleftrightarrow> fst s \<noteq> Crashed \<and> eng_inv (snd s)"

lemma on_hello_pending: "g_pending (on_hello i h g) = g_pending g"
  by (simp add: on_hello_def set_connected_def set_roster_def emit_def Let_def)

lemma run_step_inv:
  assumes "run_inv s"
  shows "run_inv (run_step cr pin ev s)"
proof (cases "(cr, pin, ev, s)" rule: run_step.cases)
  case (1 cr' pin' cert d sd first ios g)
  then have "eng_inv g" using assms by (simp add: run_inv_def)
  moreover from this have "list_all (\<lambda>r. case r of Upload None _ \<Rightarrow> True | _ \<Rightarrow> False) (g_pending g)"
    by (simp add: eng_inv_def)
  ultimately show ?thesis using 1
    by (auto simp: run_inv_def eng_frame Let_def case_prod_beta on_hello_pending readvertise_inv split: sum.splits)
next
  case (2 cr' pin' ev' ios g)
  then show ?thesis using assms loop_step_inv [of g cr' ios ev']
    by (auto simp: run_inv_def eng_frame split: prod.splits flow.splits)
qed (use assms in \<open>simp_all add: run_inv_def\<close>)

interpretation actor: invariant_machine "run_step cr pin" run_inv for cr pin
  by unfold_locales (rule run_step_inv)

lemma run_init_inv:
  assumes "argon_len cr" "hist_wf (g_hist g)" "run_init cr c g = Some (pin, g0)"
  shows "run_inv (Dialing, g0)"
  using assms
  by (auto simp: run_init_def run_inv_def eng_inv_def dedup_wf_def holds_wf_def MAX_HOLDS_def
      dest: e2e_key_length split: option.splits)

end
