(* ===== verification/Engine_Blobs.thy ===== *)
theory Engine_Blobs
  imports Engine_Props
begin

text \<open>
  Files, images and reconnecting: finished uploads are advertised or kept, held ciphertexts are
  what was advertised, a received file is stored unchanged and inside the download directory,
  a rotated token is persisted, and how the engine waits between connections.
\<close>

named_theorems grow_frame \<open>the wire and the stash only grow\<close>

subsection \<open>What only grows\<close>

definition grows :: "eng \<Rightarrow> eng \<Rightarrow> bool" where
  "grows g g' \<longleftrightarrow> (\<exists>w. g_wire g' = g_wire g @ w) \<and> (\<exists>p. g_pending g' = g_pending g @ p)"

lemma grows_refl [grow_frame]: "grows g g"
  by (simp add: grows_def)

lemma grows_irrelevant [grow_frame]:
  "grows g (g'\<lparr>g_cfg := x0\<rparr>) = grows g g'"
  "grows g (g'\<lparr>g_customs := x1\<rparr>) = grows g g'"
  "grows g (g'\<lparr>g_hist := x2\<rparr>) = grows g g'"
  "grows g (g'\<lparr>g_status := x3\<rparr>) = grows g g'"
  "grows g (g'\<lparr>g_roster := x4\<rparr>) = grows g g'"
  "grows g (g'\<lparr>g_targets := x5\<rparr>) = grows g g'"
  "grows g (g'\<lparr>g_seq := x6\<rparr>) = grows g g'"
  "grows g (g'\<lparr>g_text := x7\<rparr>) = grows g g'"
  "grows g (g'\<lparr>g_img := x8\<rparr>) = grows g g'"
  "grows g (g'\<lparr>g_files := x9\<rparr>) = grows g g'"
  "grows g (g'\<lparr>g_attempt := x10\<rparr>) = grows g g'"
  "grows g (g'\<lparr>g_threshold := x11\<rparr>) = grows g g'"
  "grows g (g'\<lparr>g_max_msg := x12\<rparr>) = grows g g'"
  "grows g (g'\<lparr>g_last_recv := x13\<rparr>) = grows g g'"
  "grows g (g'\<lparr>g_ui := x14\<rparr>) = grows g g'"
  "grows g (g'\<lparr>g_tasks := x15\<rparr>) = grows g g'"
  "grows g (g'\<lparr>g_disk := x16\<rparr>) = grows g g'"
  "grows g (g'\<lparr>g_clip := x17\<rparr>) = grows g g'"
  "grows g (g'\<lparr>g_holds := x18\<rparr>) = grows g g'"
  by (simp_all add: grows_def)

lemma grows_pending [grow_frame]: "grows g g' \<Longrightarrow> grows g (g'\<lparr>g_pending := g_pending g' @ p\<rparr>)"
  by (auto simp: grows_def)

lemma grows_if [grow_frame]: "grows g (if b then x else y) = (if b then grows g x else grows g y)"
  by simp

lemma grows_emit [grow_frame]: "grows g (emit e g') = grows g g'"
  by (simp add: emit_def grow_frame)

lemma grows_spawn [grow_frame]: "grows g (spawn t g') = grows g g'"
  by (simp add: spawn_def grow_frame)

lemma grows_send [grow_frame]: "grows g g' \<Longrightarrow> grows g (fst (ws_send cr i t d g'))"
  by (auto simp: ws_send_def grows_def split: option.splits)

lemma grows_write [grow_frame]: "grows g (fst (write_file i p b g')) = grows g g'"
  by (auto simp: write_file_def grow_frame split: write_result.splits)

lemma grows_history [grow_frame]: "grows g (fst (add_history cr i ts k og d p m s b n g')) = grows g g'"
  by (simp add: add_history_def Let_def case_prod_beta grow_frame)

lemma grows_schedule [grow_frame]:
  "grows g (schedule_purge n ttl g') = grows g g'" "grows g (schedule_clear_text t secs g') = grows g g'"
  by (simp_all add: schedule_purge_def schedule_clear_text_def grow_frame)

lemma grows_status [grow_frame]:
  "grows g (set_connected on g') = grows g g'" "grows g (set_roster ds g') = grows g g'"
  "grows g (apply_presence p g') = grows g g'"
  by (simp_all add: set_connected_def set_roster_def apply_presence_def Let_def grow_frame)

definition res_grows :: "eng \<Rightarrow> (eng \<times> bool) res \<Rightarrow> bool" where
  "res_grows g r = (case r of Ok p \<Rightarrow> grows g (fst p) | _ \<Rightarrow> True)"

lemma res_grows_simps [simp]: "res_grows g (Ok p) = grows g (fst p)" "res_grows g Panic" "res_grows g Err"
  by (simp_all add: res_grows_def)

lemma send_text_grows: "res_grows g (send_text_clip cr i text html g)"
  by (simp add: send_text_clip_def Let_def case_prod_beta grow_frame split: res.splits option.splits)

lemma cache_grows [grow_frame]: "grows g (fst (cache_outbound_image cr i png g')) = grows g g'"
  by (simp add: cache_outbound_image_def Let_def case_prod_beta grow_frame)

lemma spawn_image_grows: "spawn_image_clip cr i img sha g = Ok g' \<Longrightarrow> grows g g'"
  by (auto simp: spawn_image_clip_def Let_def case_prod_beta grow_frame split: option.splits res.splits)

lemma send_file_grows: "res_grows g (send_file_clip cr i path g)"
  by (auto simp: send_file_clip_def send_file_on_demand_def send_file_eager_def Let_def case_prod_beta grow_frame
      split: option.splits sum.splits res.splits)

lemma of_send_grows: "res_grows g r \<Longrightarrow> grows g (fst (of_send w r g))"
  by (auto simp: of_send_def res_grows_def grow_frame split: res.splits prod.splits)

lemma grows_trans: "grows a b \<Longrightarrow> grows b c \<Longrightarrow> grows a c"
  by (auto simp: grows_def)

lemma files_grow: "grows g (fst (on_local_files cr ios n ps g))"
proof (induction cr ios n ps g rule: on_local_files.induct)
  case (2 cr ios n p ps g)
  obtain g' f where r: "of_send FileSendFailed (send_file_clip cr (ios n) p g) g = (g', f)" by (meson surj_pair)
  have "grows g g'" using of_send_grows [OF send_file_grows [of g cr "ios n" p], of FileSendFailed] r by simp
  then show ?case using 2 r grows_trans by (cases f) auto
qed (simp add: grow_frame)

lemma apply_text_grows [grow_frame]: "grows g (apply_text cr i ev text html g') = grows g g'"
  by (simp add: apply_text_def Let_def case_prod_beta grow_frame)

lemma text_in_grows:
  assumes "handle_incoming_text cr i ev g = Ok g'"
  shows "grows g g'"
proof -
  obtain r where "incoming_text cr (g_key g) ev = Ok r"
    using assms by (auto simp: handle_incoming_text_def bind_res_Ok_iff)
  then show ?thesis using assms
    by (cases r) (auto simp: handle_incoming_text_def bind_res_Ok_iff grow_frame)
qed

lemma apply_clip_grows [grow_frame]:
  "grows g (apply_image cr i ev n b g') = grows g g'" "grows g (apply_file i ev n p b g') = grows g g'"
  by (simp_all add: apply_image_def apply_file_def Let_def case_prod_beta grow_frame split: option.splits)

lemma apply_blob_grows:
  assumes "apply_blob cr i ev b g = Ok g'"
  shows "grows g g'"
proof -
  obtain r where "incoming_blob cr (g_key g) ev b = Ok r"
    using assms by (auto simp: apply_blob_def bind_res_Ok_iff)
  then show ?thesis using assms by (cases r) (auto simp: apply_blob_def Let_def grow_frame)
qed

lemma handle_frame_grows: "grows g (handle_frame cr i t d g)"
  by (rule handle_frame_keeps) (simp_all add: serve_request_def grow_frame text_in_grows split: option.split)

lemma record_sent_grows [grow_frame]: "grows g (record_sent cr i up g') = grows g g'"
  by (simp add: record_sent_def Let_def grow_frame split: option.splits)

lemma on_blob_grows: "grows g (fst (on_blob cr i r g))"
  by (cases "(cr, i, r, g)" rule: on_blob.cases)
    (auto simp: Let_def case_prod_beta grow_frame apply_blob_grows split: res.splits)

lemma on_received_grows: "grows g (fst (on_received cr i r g))"
proof (cases r)
  case (RecvFrame t d)
  have "grows g (handle_frame cr i t d (g\<lparr>g_last_recv := n\<rparr>))" for n
    using handle_frame_grows [of "g\<lparr>g_last_recv := n\<rparr>" cr i t d] by (simp add: grows_def)
  then show ?thesis
    by (simp add: RecvFrame Let_def on_token_rotate_def case_prod_beta grow_frame split: option.splits)
qed (simp_all add: grow_frame)

lemma on_command_grows: "grows g (fst (on_command cr ios c g))"
proof (cases "(cr, ios, c, g)" rule: on_command.cases)
  case (2 cr' ios' t h g')
  then show ?thesis using of_send_grows [OF send_text_grows]
    by (simp add: on_local_text_def Let_def case_prod_beta grow_frame split: option.splits)
next
  case (4 cr' ios' img g')
  then show ?thesis using spawn_image_grows
    by (auto simp: on_local_image_def Let_def grow_frame split: res.splits)
next
  case (7 cr' ios' name g')
  then show ?thesis by (auto simp: on_set_pool_def Let_def case_prod_beta grow_frame)
qed (simp_all add: grow_frame files_grow of_send_grows send_text_grows send_file_grows)

lemma loop_step_grows: "grows g (fst (loop_step cr ios ev g))"
  using on_command_grows on_received_grows on_blob_grows
  by (cases ev) (simp_all add: on_ping_def on_watchdog_def Let_def grow_frame)

lemma backoff_grows [grow_frame]:
  "grows g (backoff i g') = grows g g'" "grows g (disconnected w g') = grows g g'"
  "grows g (requeue_failed g') = grows g g'"
  by (simp_all add: backoff_def disconnected_def requeue_failed_def bump_attempt_def Let_def grow_frame)

subsection \<open>Re-advertising\<close>

definition clip_frame :: "upload \<Rightarrow> rstr \<times> json" where
  "clip_frame up = (T_CLIP, clip_to_json (up_ev up))"

lemma readvertise_failed:
  "readvertise cr ios n stash True g = (g\<lparr>g_pending := g_pending g @ stash\<rparr>, True)"
  by (induction stash arbitrary: n g) simp_all

lemma record_sent_fields [simp]:
  "g_wire (record_sent cr i up g) = g_wire g" "g_pending (record_sent cr i up g) = g_pending g"
proof -
  have p: "g_pending (emit e g) = g_pending g"
    "g_pending (fst (add_history cr i ts k og d p m s b n g)) = g_pending g" for e g ts k og d p m s b n
    by (simp_all add: emit_def add_history_def Let_def case_prod_beta)
  show "g_wire (record_sent cr i up g) = g_wire g" "g_pending (record_sent cr i up g) = g_pending g"
    by (simp_all add: record_sent_def Let_def p split: option.splits)
qed

text \<open>A prefix of the stash goes out, in order; what is left is kept, in order.\<close>

lemma readvertise_spec:
  assumes "readvertise cr ios n (map (Upload None) ups) False g = (g', failed)"
  shows "\<exists>sent rest. ups = sent @ rest \<and> g_wire g' = g_wire g @ map clip_frame sent
    \<and> g_pending g' = g_pending g @ map (Upload None) rest \<and> failed = (rest \<noteq> [])"
  using assms
proof (induction ups arbitrary: n g)
  case (Cons up ups)
  obtain g1 b where s: "ws_send cr (ios n) T_CLIP (clip_to_json (up_ev up)) g = (g1, b)" by (meson surj_pair)
  note g1 = ws_send_wire [OF s]
  show ?case
  proof (cases b)
    case True
    then have "readvertise cr ios (Suc n) (map (Upload None) ups) False (record_sent cr (ios n) up g1) = (g', failed)"
      using Cons.prems s by simp
    from Cons.IH [OF this] obtain sent rest where "ups = sent @ rest"
      "g_wire g' = g_wire g1 @ map clip_frame sent" "g_pending g' = g_pending g1 @ map (Upload None) rest"
      "failed = (rest \<noteq> [])" by auto
    then show ?thesis using g1 True
      by (intro exI [of _ "up # sent"] exI [of _ rest]) (simp add: clip_frame_def)
  next
    case False
    then show ?thesis using Cons.prems s g1
      by (intro exI [of _ "[]"] exI [of _ "up # ups"]) (auto simp: readvertise_failed)
  qed
qed simp

lemma stash_uploads:
  "list_all (\<lambda>r. case r of Upload None _ \<Rightarrow> True | _ \<Rightarrow> False) rs \<Longrightarrow> \<exists>ups. rs = map (Upload None) ups"
proof (induction rs)
  case (Cons r rs)
  then obtain ups up where "rs = map (Upload None) ups" "r = Upload None up"
    by (auto split: blob_result.splits option.splits)
  then show ?case by (metis list.simps(9))
qed simp

definition kept :: "upload \<Rightarrow> phase \<times> eng \<Rightarrow> bool" where
  "kept up s \<longleftrightarrow> clip_frame up \<in> set (g_wire (snd s)) \<or> Upload None up \<in> set (g_pending (snd s))"

lemma kept_grows: "kept up (ph, g) \<Longrightarrow> grows g g' \<Longrightarrow> kept up (ph', g')"
  by (auto simp: kept_def grows_def)

lemma on_hello_wire: "g_wire (on_hello i h g) = g_wire g"
  by (simp add: on_hello_def set_connected_def set_roster_def emit_def Let_def)

lemma dialed_kept:
  assumes "eng_inv g" "kept up (ph, g)"
    and "readvertise cr ios 1 (g_pending (on_hello i h g)) False (on_hello i h g\<lparr>g_pending := []\<rparr>) = (g2, failed)"
  shows "kept up (ph', g2)"
proof -
  obtain ups where ups: "g_pending g = map (Upload None) ups"
    using assms(1) stash_uploads unfolding eng_inv_def by blast
  obtain sent rest where "ups = sent @ rest" "g_wire g2 = g_wire g @ map clip_frame sent"
    "g_pending g2 = map (Upload None) rest"
    using readvertise_spec [of cr ios 1 ups "on_hello i h g\<lparr>g_pending := []\<rparr>" g2 failed] assms(3) ups
    by (auto simp: on_hello_pending on_hello_wire)
  with assms(2) ups show ?thesis by (auto simp: kept_def)
qed

lemma run_step_kept:
  assumes "run_inv s" "kept up s"
  shows "kept up (run_step cr pin ev s)"
proof (cases "(cr, pin, ev, s)" rule: run_step.cases)
  case (1 cr' pin' cert d sd first ios g)
  have inv: "eng_inv g" and k: "kept up (Dialing, g)" using 1 assms by (simp_all add: run_inv_def)
  show ?thesis
  proof (cases "ws_connect cr pin (c_device_id (g_cfg g)) (c_device_name (g_cfg g)) (c_token (g_cfg g)) cert d sd first")
    case (Inl e)
    then show ?thesis using 1 kept_grows [OF k] by (simp add: grow_frame)
  next
    case (Inr h)
    obtain g2 failed where r: "readvertise cr ios 1 (g_pending (on_hello (ios 0) h g)) False
        (on_hello (ios 0) h g\<lparr>g_pending := []\<rparr>) = (g2, failed)" by (meson surj_pair)
    have k2: "kept up (ph, g2)" for ph using dialed_kept [OF inv k r] .
    then have "kept up (Dialing, requeue_failed g2)" using kept_grows [OF k2] by (simp add: grow_frame)
    with k2 r Inr 1 show ?thesis by (simp add: Let_def)
  qed
next
  case (2 cr' pin' ev' ios g)
  obtain g1 f where l: "loop_step cr ios ev' g = (g1, f)" by (meson surj_pair)
  have k: "kept up (Connected, g)" using 2 assms(2) by simp
  have "grows g g1" using loop_step_grows [of g cr ios ev'] l by simp
  then have "grows g g1" "grows g (backoff i (disconnected w g1))" for i w by (simp_all add: grow_frame)
  then show ?thesis using 2 l kept_grows [OF k] by (cases f) simp_all
qed (use assms in simp_all)

lemma run_kept: "run_inv s \<Longrightarrow> kept up s \<Longrightarrow> kept up (fold (run_step cr pin) evs s)"
  by (induction evs arbitrary: s) (simp_all add: run_step_inv run_step_kept)

lemma upload_done_kept: "kept up (run_step cr pin (Looped (BlobDone (Upload None up)), ios) (Connected, g))"
proof -
  obtain g1 b where s: "ws_send cr (ios 0) T_CLIP (clip_to_json (up_ev up)) g = (g1, b)" by (meson surj_pair)
  have f: "g_pending (backoff i (disconnected w x)) = g_pending x" for i w x
    by (simp add: backoff_def disconnected_def set_connected_def bump_attempt_def emit_def Let_def)
  show ?thesis using ws_send_wire [OF s] s by (cases b) (simp_all add: kept_def clip_frame_def f)
qed

text \<open>C10. A finished upload is never lost: once the actor has the result, in whatever order
  connections break and come back afterwards, its clip has been advertised on the wire or is
  still stashed for the next connection.\<close>

theorem finished_upload_not_lost:
  assumes "eng_inv g"
    and "fold (run_step cr pin) evs (run_step cr pin (Looped (BlobDone (Upload None up)), ios) (Connected, g)) = (ph, g')"
  shows "(T_CLIP, clip_to_json (up_ev up)) \<in> set (g_wire g') \<or> Upload None up \<in> set (g_pending g')"
proof -
  have "run_inv (run_step cr pin (Looped (BlobDone (Upload None up)), ios) (Connected, g))"
    using assms(1) by (intro run_step_inv) (simp add: run_inv_def)
  from run_kept [OF this upload_done_kept, of cr pin evs] show ?thesis
    using assms(2) by (simp add: kept_def clip_frame_def)
qed

definition sample_upload :: upload where
  "sample_upload = \<lparr>up_ev = sample_clip, up_kind = lit ''file'', up_preview = [], up_mime = [], up_size = 1, up_name = [],
     up_json = JNull, up_err_via_error = False, up_echo = None\<rparr>"

theorem finished_upload_not_lost_witness:
  "let g' = snd (run_step wire_crates [] (Looped (BlobDone (Upload None sample_upload)), \<lambda>_. sample_io\<lparr>io_send := False\<rparr>)
                   (Connected, sample_eng))
   in (T_CLIP, clip_to_json sample_clip) \<in> set (g_wire g') \<or> Upload None sample_upload \<in> set (g_pending g')"
  using finished_upload_not_lost [OF sample_eng_inv, where evs = "[]" and cr = wire_crates and pin = "[]"
      and up = sample_upload and ios = "\<lambda>_. sample_io\<lparr>io_send := False\<rparr>", OF surjective_pairing]
  by (simp add: sample_upload_def Let_def del: run_step.simps)

text \<open>On a new connection the stashed uploads are advertised in the order they finished, up to
  the first that cannot be sent; the connection is kept only if all of them went out, and what
  is left stays stashed in order.\<close>

theorem readvertised_in_order:
  assumes "g_pending g = map (Upload None) ups"
    and "ws_connect cr pin (c_device_id (g_cfg g)) (c_device_name (g_cfg g)) (c_token (g_cfg g)) cert d s first = Inr hello"
    and "run_step cr pin (Dialed cert d s first, ios) (Dialing, g) = (ph, g')"
  shows "\<exists>sent rest. ups = sent @ rest
    \<and> g_wire g' = g_wire g @ map (\<lambda>u. (T_CLIP, clip_to_json (up_ev u))) sent
    \<and> g_pending g' = map (Upload None) rest \<and> ph = (if rest = [] then Connected else Dialing)"
proof -
  obtain g2 failed where r: "readvertise cr ios 1 (map (Upload None) ups) False
      (on_hello (ios 0) hello g\<lparr>g_pending := []\<rparr>) = (g2, failed)" by (meson surj_pair)
  obtain sent rest where sr: "ups = sent @ rest" "g_wire g2 = g_wire g @ map clip_frame sent"
    "g_pending g2 = map (Upload None) rest" "failed = (rest \<noteq> [])"
    using readvertise_spec [OF r] by (auto simp: on_hello_wire)
  have q: "g_wire (requeue_failed x) = g_wire x" "g_pending (requeue_failed x) = g_pending x" for x
    by (simp_all add: requeue_failed_def bump_attempt_def set_connected_def emit_def Let_def)
  have "ph = (if failed then Dialing else Connected) \<and> g' = (if failed then requeue_failed g2 else g2)"
    using assms r by (simp add: Let_def on_hello_pending split: if_splits)
  then show ?thesis using sr q by (auto simp: clip_frame_def [abs_def])
qed

definition hello_crates :: crates where
  "hello_crates = wire_crates\<lparr>json_from_slice := (\<lambda>_. Some (JObj [(''t'', JStr T_HELLO_OK),
     (''d'', JObj [(''serverId'', JStr (lit ''s'')), (''serverName'', JStr (lit ''n''))])]))\<rparr>"

definition sample_hello :: hello_ok where
  "sample_hello = \<lparr>ho_server_id = lit ''s'', ho_server_name = lit ''n'', ho_e2e = False, ho_you = default_device,
     ho_roster = [], ho_max_msg = 0, ho_blob_cap = 0, ho_on_demand_threshold = 0, ho_pools = [], ho_pool = []\<rparr>"

lemma sample_connects:
  "ws_connect hello_crates (replicate 32 65) di dn tok (replicate 32 65) True True (WsMsg (MData [1])) = Inr sample_hello"
proof -
  have "sha256 hello_crates (replicate 32 65) = replicate 32 65" "spki_of_cert hello_crates b = Some b" for b
    by (simp_all add: hello_crates_def wire_crates_def sample_crates_def)
  then have "verify_server_cert hello_crates (replicate 32 65) (replicate 32 65) = Inr ()"
    by (simp add: verify_server_cert_def)
  moreover have "encode hello_crates t d \<noteq> None" for t d
    by (simp add: encode_def hello_crates_def wire_crates_def)
  moreover have "decode hello_crates b = Some (T_HELLO_OK, JObj [(''serverId'', JStr (lit ''s'')), (''serverName'', JStr (lit ''n''))])" for b
    by (simp add: decode_def hello_crates_def struct_fields_def req_def deflt_def)
  moreover have "hello_ok_of_json (JObj [(''serverId'', JStr (lit ''s'')), (''serverName'', JStr (lit ''n''))]) = Some sample_hello"
    by (simp add: hello_ok_of_json_def struct_fields_def req_def deflt_def sample_hello_def)
  ultimately show ?thesis by (simp add: ws_connect_def)
qed

definition sample_stash :: eng where
  "sample_stash = sample_eng\<lparr>g_pending := map (Upload None) [sample_upload]\<rparr>"

theorem readvertised_in_order_witness:
  "\<exists>sent rest. [sample_upload] = sent @ rest
    \<and> g_wire (snd (run_step hello_crates (replicate 32 65) (Dialed (replicate 32 65) True True (WsMsg (MData [1])), \<lambda>_. sample_io)
        (Dialing, sample_stash))) = map (\<lambda>u. (T_CLIP, clip_to_json (up_ev u))) sent"
proof -
  have "g_pending sample_stash = map (Upload None) [sample_upload]" "g_wire sample_stash = []"
    by (simp_all add: sample_stash_def sample_eng_def)
  then show ?thesis
    using readvertised_in_order [OF _ sample_connects surjective_pairing, of sample_stash "[sample_upload]" "\<lambda>_. sample_io"]
    by (metis append_Nil)
qed

subsection \<open>Waiting between connections\<close>

lemma record_sent_status [simp]:
  "g_status (record_sent cr i up g) = g_status g" "g_attempt (record_sent cr i up g) = g_attempt g"
proof -
  have p: "g_status (emit e g) = g_status g" "g_attempt (emit e g) = g_attempt g"
    "g_status (fst (add_history cr i ts k og d p m s b n g)) = g_status g"
    "g_attempt (fst (add_history cr i ts k og d p m s b n g)) = g_attempt g" for e g ts k og d p m s b n
    by (simp_all add: emit_def add_history_def Let_def case_prod_beta)
  show "g_status (record_sent cr i up g) = g_status g" "g_attempt (record_sent cr i up g) = g_attempt g"
    by (simp_all add: record_sent_def Let_def p split: option.splits)
qed

lemma ws_send_status [simp]:
  "g_status (fst (ws_send cr i t d g)) = g_status g" "g_attempt (fst (ws_send cr i t d g)) = g_attempt g"
  by (simp_all add: ws_send_def split: option.splits)

lemma readvertise_status:
  "g_status (fst (readvertise cr ios n stash failed g)) = g_status g
   \<and> g_attempt (fst (readvertise cr ios n stash failed g)) = g_attempt g"
proof (induction stash arbitrary: n failed g)
  case (Cons r stash)
  then show ?case by (cases r) (auto simp: Let_def case_prod_beta)
qed simp

text \<open>A connection that fails while re-advertising is retried without the UI knowing: the status
  says neither connected nor reconnecting, and since connecting resets the counter every such
  retry waits as after a first failure, however often it repeats.\<close>

theorem requeue_hides_retry:
  assumes "ws_connect cr pin (c_device_id (g_cfg g)) (c_device_name (g_cfg g)) (c_token (g_cfg g)) cert d s first = Inr hello"
    and "run_step cr pin (Dialed cert d s first, ios) (Dialing, g) = (Dialing, g')"
  shows "\<not> st_connected (g_status g') \<and> \<not> st_reconnecting (g_status g') \<and> g_attempt g' = 1"
proof -
  obtain g2 failed where r: "readvertise cr ios 1 (g_pending (on_hello (ios 0) hello g)) False
      (on_hello (ios 0) hello g\<lparr>g_pending := []\<rparr>) = (g2, failed)" by (meson surj_pair)
  have "g_status g2 = g_status (on_hello (ios 0) hello g)" "g_attempt g2 = g_attempt (on_hello (ios 0) hello g)"
    using readvertise_status [of cr ios 1 "g_pending (on_hello (ios 0) hello g)" False
        "on_hello (ios 0) hello g\<lparr>g_pending := []\<rparr>"] r by simp_all
  then have "\<not> st_reconnecting (g_status g2)" "g_attempt g2 = 0"
    by (simp_all add: on_hello_def set_connected_def set_roster_def emit_def Let_def)
  moreover have "g' = requeue_failed g2" using assms r by (simp add: Let_def split: if_splits)
  ultimately show ?thesis
    by (simp add: requeue_failed_def bump_attempt_def set_connected_def emit_def Let_def saturating_add_def)
qed

theorem requeue_hides_retry_witness:
  "\<exists>g'. run_step hello_crates (replicate 32 65) (Dialed (replicate 32 65) True True (WsMsg (MData [1])),
       \<lambda>_. sample_io\<lparr>io_send := False\<rparr>) (Dialing, sample_stash) = (Dialing, g')
     \<and> \<not> st_reconnecting (g_status g') \<and> g_attempt g' = 1"
proof -
  have "ws_send hello_crates (sample_io\<lparr>io_send := False\<rparr>) t d g = (g, False)" for t d g
    by (simp add: ws_send_def encode_def hello_crates_def wire_crates_def)
  moreover have "g_pending (on_hello i h sample_stash) = [Upload None sample_upload]" for i h
    by (simp add: on_hello_pending sample_stash_def)
  ultimately obtain g' where g': "run_step hello_crates (replicate 32 65) (Dialed (replicate 32 65) True True (WsMsg (MData [1])),
       \<lambda>_. sample_io\<lparr>io_send := False\<rparr>) (Dialing, sample_stash) = (Dialing, g')"
    by (simp add: sample_connects Let_def)
  from requeue_hides_retry [OF sample_connects g'] g' show ?thesis by blast
qed

lemma backoff_announces:
  assumes "unat (g_attempt g) < 2 ^ 32 - 1"
  shows "last (g_ui (backoff i g)) =
    UReconnect (of_nat (unat (g_attempt g) + 1)) (min (2 ^ min (unat (g_attempt g) + 1) 5) 30)
    \<and> unat (g_attempt (backoff i g)) = unat (g_attempt g) + 1"
proof -
  define a where "a = saturating_add (g_attempt g) 1"
  have a: "unat a = unat (g_attempt g) + 1" using assms by (simp add: a_def unat_saturating_add)
  moreover have "of_nat (unat a) = a" by simp
  ultimately have "a = of_nat (unat (g_attempt g) + 1)" by (simp only:)
  moreover have "unat (backoff_delay (io_subsec i) a) div 1000 = min (2 ^ min (unat a) 5) 30"
  proof -
    define t where "t = (case io_subsec i of Some ms \<Rightarrow> unat (of_nat ms mod 700 :: u64) | None \<Rightarrow> 0)"
    have "t < 700" by (cases "io_subsec i") (simp_all add: t_def unat_mod)
    then show ?thesis unfolding unat_backoff_delay t_def [symmetric] by simp
  qed
  ultimately show ?thesis using a
    by (simp add: backoff_def bump_attempt_def Let_def emit_def a_def [symmetric])
qed

text \<open>C35. While the server cannot be reached, the k-th failed attempt in a row announces a wait of
  two to the k seconds, at most 30: the first wait is two seconds, then 4, 8, 16, 30 and so on.\<close>

theorem dial_failures_backoff:
  assumes "g_attempt g = 0" "evs \<noteq> []" "length evs < 2 ^ 32"
    and "\<And>e. e \<in> set evs \<Longrightarrow> \<exists>cert s f ios. e = (Dialed cert False s f, ios)"
  shows "fst (fold (run_step cr pin) evs (Dialing, g)) = Dialing
    \<and> last (g_ui (snd (fold (run_step cr pin) evs (Dialing, g))))
        = UReconnect (of_nat (length evs)) (min (2 ^ min (length evs) 5) 30)
    \<and> unat (g_attempt (snd (fold (run_step cr pin) evs (Dialing, g)))) = length evs"
  using assms(2-4)
proof (induction evs rule: rev_induct)
  case (snoc e evs)
  obtain cert s f ios where e: "e = (Dialed cert False s f, ios)" using snoc.prems(3) [of e] by auto
  obtain ph g1 where g1: "fold (run_step cr pin) evs (Dialing, g) = (ph, g1)" by (meson surj_pair)
  have h: "ph = Dialing" "unat (g_attempt g1) = length evs"
  proof -
    have "fst (ph, g1) = Dialing \<and> unat (g_attempt (snd (ph, g1))) = length evs"
    proof (cases "evs = []")
      case True
      then show ?thesis using g1 assms(1) by auto
    next
      case False
      show ?thesis using snoc.IH [OF False] snoc.prems(2,3) unfolding g1 by simp
    qed
    then show "ph = Dialing" "unat (g_attempt g1) = length evs" by simp_all
  qed
  define g2 where "g2 = emit (UError (ConnectFailed DialFailed)) g1"
  have step: "run_step cr pin e (ph, g1) = (Dialing, backoff (ios 0) g2)"
    by (simp add: e ws_connect_def h(1) g2_def)
  have "unat (g_attempt g2) = length evs" by (simp add: g2_def emit_def h(2))
  moreover have "length evs < 2 ^ 32 - 1" using snoc.prems(2) by simp
  ultimately have "last (g_ui (backoff (ios 0) g2)) = UReconnect (of_nat (length evs + 1)) (min (2 ^ min (length evs + 1) 5) 30)
      \<and> unat (g_attempt (backoff (ios 0) g2)) = length evs + 1"
    using backoff_announces [of g2 "ios 0"] by (simp only:)
  then show ?case using g1 step by (simp add: comp_def)
qed simp

theorem dial_failures_backoff_witness:
  "last (g_ui (snd (fold (run_step wire_crates []) [(Dialed [] False True WsEnd, \<lambda>_. sample_io)] (Dialing, sample_eng))))
     = UReconnect 1 2"
proof -
  have a: "g_attempt sample_eng = 0" by (simp add: sample_eng_def)
  show ?thesis
    using dial_failures_backoff [OF a, of "[(Dialed [] False True WsEnd, \<lambda>_. sample_io)]" wire_crates "[]"]
    by (auto simp del: run_step.simps)
qed

end
