(* ===== verification/Engine_Files.thy ===== *)
theory Engine_Files
  imports Engine_Blobs
begin

text \<open>
  Files and images through the engine: a received file stays in the download directory and has
  the sender's bytes, a held ciphertext is what was advertised, a plain hold may go stale, and
  a rotated token survives a restart.
\<close>

subsection \<open>What receiving does to the disk\<close>

lemma disk_fields [simp]:
  "g_disk (emit e g) = g_disk g" "g_disk (spawn t g) = g_disk g"
  "g_disk (fst (add_history cr i ts k og d p m s b n g)) = g_disk g"
  "g_downloads (emit e g) = g_downloads g"
  by (simp_all add: emit_def spawn_def add_history_def Let_def case_prod_beta)

lemma disk_apply [simp]:
  "g_disk (apply_image cr i ev n b g) = g_disk g" "g_disk (apply_file i ev n p b g) = g_disk g"
  by (simp_all add: apply_image_def apply_file_def Let_def case_prod_beta split: option.splits)

lemma apply_blob_disk:
  assumes "apply_blob cr i ev b g = Ok g'"
  shows "g_disk g' = g_disk g \<or>
    (\<exists>plain. incoming_blob cr (g_key g) ev b = Ok (Inr plain)
      \<and> g_disk g' = g_disk (fst (write_file i (path_join (g_downloads g) (download_name ev)) plain g)))"
proof -
  obtain r where r: "incoming_blob cr (g_key g) ev b = Ok r"
    using assms by (auto simp: apply_blob_def bind_res_Ok_iff)
  then show ?thesis using assms by (cases r) (auto simp: apply_blob_def Let_def)
qed

lemma write_file_disk:
  "p \<noteq> path \<Longrightarrow> g_disk (fst (write_file i path b g)) p = g_disk g p"
  "io_write i = Written \<Longrightarrow> g_disk (fst (write_file i path b g)) path = Some b"
  by (auto simp: write_file_def split: write_result.splits)

text \<open>Hexadecimal digests contain nothing but the digits \<open>0-9\<close> and \<open>a-f\<close>.\<close>

definition hex_lower :: "crates \<Rightarrow> bool" where
  "hex_lower cr \<longleftrightarrow> (\<forall>b. \<forall>c\<in>set (hex_encode cr b). (48 \<le> c \<and> c \<le> 57) \<or> (97 \<le> c \<and> c \<le> 102))"

lemma trim_start_hex:
  assumes "hex_lower cr"
  shows "trim_start_str (lit ''sha256:'') (lit ''sha256:'' @ hex_encode cr b) = hex_encode cr b"
proof -
  have n: "\<not> starts_with (hex_encode cr b) (lit ''sha256:'')"
  proof
    assume "starts_with (hex_encode cr b) (lit ''sha256:'')"
    then have "115 \<in> set (hex_encode cr b)" by (auto simp: starts_with_iff)
    then show False using assms by (fastforce simp: hex_lower_def)
  qed
  have "starts_with (lit ''sha256:'' @ hex_encode cr b) (lit ''sha256:'')"
    unfolding starts_with_iff by blast
  moreover have "lit ''sha256:'' \<noteq> []" by simp
  ultimately show ?thesis
    using n by (subst trim_start_str.simps, subst trim_start_str.simps) (simp del: lit_simps add: lit_def)
qed

lemma download_name_safe:
  assumes "hex_lower cr" "hex_len cr" "sha_len cr" "blob_id_of ev = blob_id cr b"
  shows "download_name ev \<noteq> [] \<and> download_name ev \<noteq> lit ''.'' \<and> download_name ev \<noteq> lit ''..''
    \<and> 47 \<notin> set (download_name ev)"
proof -
  define h where "h = hex_encode cr (sha256 cr b)"
  have l: "length h = 64" using assms(2,3) by (simp add: h_def hex_len_def sha_len_def)
  have "47 \<notin> set h" using assms(1) by (fastforce simp: hex_lower_def h_def)
  moreover have "h \<noteq> []" "h \<noteq> lit ''.''" "h \<noteq> lit ''..''" using l by auto
  moreover have "trim_start_str (lit ''sha256:'') (blob_id_of ev) = h"
    using trim_start_hex [OF assms(1)] unfolding assms(4) blob_id_def sha_hex_def h_def .
  ultimately show ?thesis
    using path_file_name_safe [of "ev_name ev"] unfolding download_name_def
    by (auto split: option.splits simp del: lit_simps)
qed

text \<open>C9. A received file cannot be written outside the download directory. Whatever name the
  peer or the server puts into the clip, absolute or with parent components, the only file
  that changes is a direct child of the download directory with a plain name; the fallback to
  the blob id is safe because the download was checked against it.\<close>

theorem download_confined:
  assumes "hex_lower cr" "hex_len cr" "sha_len cr"
    and "download_worker cr get tmsg base token ev = Download (Inr b) ev'"
    and "on_blob cr i (Download (Inr b) ev') g = (g', f)"
  shows "\<exists>name. name \<noteq> [] \<and> name \<noteq> lit ''.'' \<and> name \<noteq> lit ''..'' \<and> 47 \<notin> set name
    \<and> (\<forall>p. g_disk g' p \<noteq> g_disk g p \<longrightarrow>
          p = (if g_downloads g = [] \<or> last (g_downloads g) = 47 then g_downloads g @ name
               else g_downloads g @ lit ''/'' @ name))"
proof -
  have ev: "ev' = ev" "blob_id_of ev = blob_id cr b"
    using assms(4) by (auto simp: download_worker_def get_blob_def Let_def split: sum.splits option.splits if_splits)
  define name where "name = download_name ev"
  have safe: "name \<noteq> [] \<and> name \<noteq> lit ''.'' \<and> name \<noteq> lit ''..'' \<and> 47 \<notin> set name"
    unfolding name_def using download_name_safe [OF assms(1-3) ev(2)] .
  then have join: "path_join (g_downloads g) name =
      (if g_downloads g = [] \<or> last (g_downloads g) = 47 then g_downloads g @ name
       else g_downloads g @ lit ''/'' @ name)"
    by (auto simp: path_join_def starts_with_iff)
  have "g_disk g' p = g_disk g p" if "p \<noteq> path_join (g_downloads g) name" for p
  proof (cases "apply_blob cr i ev b g")
    case (Ok g1)
    then show ?thesis using apply_blob_disk [OF Ok] that assms(5) ev(1) write_file_disk(1)
      by (auto simp: name_def)
  qed (use assms(5) ev(1) in auto)
  then show ?thesis using safe join by metis
qed

definition hex_digit :: "nat \<Rightarrow> nat" where
  "hex_digit n = (if n < 10 then 48 + n else 87 + n)"

definition hex_crates :: crates where
  "hex_crates = wire_crates\<lparr>hex_encode := (\<lambda>b. concat (map (\<lambda>w. [hex_digit (unat w div 16), hex_digit (unat w mod 16)]) b))\<rparr>"

lemma hex_crates_ok: "hex_lower hex_crates" "hex_len hex_crates" "sha_len hex_crates"
proof -
  have d: "n < 16 \<Longrightarrow> (48 \<le> hex_digit n \<and> hex_digit n \<le> 57) \<or> (97 \<le> hex_digit n \<and> hex_digit n \<le> 102)" for n
    by (simp add: hex_digit_def)
  have "unat (w :: 8 word) div 16 < 16" "unat w mod 16 < 16" for w
  proof -
    have "unat w < 256" using unsigned_less [where 'a = nat and w = w] by simp
    then show "unat w div 16 < 16" "unat w mod 16 < 16" by simp_all
  qed
  then show "hex_lower hex_crates" using d by (auto simp: hex_lower_def hex_crates_def)
  have "length (concat (map (\<lambda>w. [hex_digit (unat w div 16), hex_digit (unat w mod 16)]) b)) = 2 * length (b :: bytes)" for b
    by (induction b) simp_all
  then show "hex_len hex_crates" by (simp add: hex_len_def hex_crates_def)
  show "sha_len hex_crates" using sample_sha by (simp add: sha_len_def hex_crates_def wire_crates_def)
qed

definition evil_clip :: clip_event where
  "evil_clip = default_clip\<lparr>ev_name := lit ''../../.bashrc'', blob_id_of := blob_id hex_crates [1]\<rparr>"

theorem download_confined_witness:
  "\<exists>name. 47 \<notin> set name \<and> (\<forall>p. g_disk (fst (on_blob hex_crates sample_io (Download (Inr [1]) evil_clip) sample_eng)) p
      \<noteq> g_disk sample_eng p \<longrightarrow> p = lit ''/d/'' @ name)"
proof -
  have "download_worker hex_crates (\<lambda>_ _. Some (200, [1])) [] [] [] evil_clip = Download (Inr [1]) evil_clip"
    by (simp add: download_worker_def get_blob_def is_success_def evil_clip_def Let_def)
  moreover have "g_downloads sample_eng = lit ''/d''" by (simp add: sample_eng_def)
  ultimately show ?thesis
    using download_confined [OF hex_crates_ok _ surjective_pairing,
        of "\<lambda>_ _. Some (200, [1])" "[]" "[]" "[]" evil_clip "[1]" evil_clip sample_io sample_eng]
    by (auto simp del: on_blob.simps)
qed

subsection \<open>Delivery of files\<close>

lemma on_demand_tasks:
  assumes "send_file_on_demand cr i path sz g = Ok (g', ok)"
  shows "g_tasks g' = g_tasks g"
proof -
  have t: "g_tasks (fst (ws_send cr i t d g)) = g_tasks g" for t d g
    by (auto simp: ws_send_def split: option.splits)
  obtain r where "advertise cr i path g = Some r"
    using assms by (cases "advertise cr i path g") (auto simp: send_file_on_demand_def)
  then show ?thesis using assms
    by (auto simp: send_file_on_demand_def Let_def case_prod_beta t split: sum.splits if_splits)
qed

lemma eager_upload:
  assumes "send_file_clip cr i path gs = Ok (gs', ok)"
    and "g_tasks gs' = g_tasks gs @ [UploadTask base tok payload up]" "io_read i path = Some content"
  shows "seal_payload cr i (g_key gs) content = Ok payload" "blob_id_of (up_ev up) = blob_id cr payload"
    "ev_enc (up_ev up) = enc_of_key (g_key gs)"
proof -
  obtain n where n: "io_meta i path = Some n"
    using assms(1,2) by (cases "io_meta i path") (auto simp: send_file_clip_def)
  have "\<not> (g_threshold gs > 0 \<and> cast_i64 n > g_threshold gs)"
    using assms(1,2) on_demand_tasks n by (force simp: send_file_clip_def Let_def)
  then have e: "send_file_eager cr i path (cast_i64 n) (gs\<lparr>g_seq := g_seq gs + 1\<rparr>) = Ok (gs', ok)"
    using assms(1) n by (simp add: send_file_clip_def Let_def del: de_Morgan_conj)
  then have "\<exists>p. seal_payload cr i (g_key gs) content = Ok p"
    using assms(2,3) by (auto simp: send_file_eager_def Let_def split: res.splits)
  then show "seal_payload cr i (g_key gs) content = Ok payload" "blob_id_of (up_ev up) = blob_id cr payload"
    "ev_enc (up_ev up) = enc_of_key (g_key gs)"
    using e assms(2,3) by (auto simp: send_file_eager_def Let_def)
qed

lemma incoming_sealed:
  assumes "aead_inverts cr" "length (io_nonce i) = 12" "seal_payload cr i key content = Ok payload"
    and "ev_enc ev = enc_of_key key"
  shows "incoming_blob cr key ev payload = Ok (Inr content)"
  using assms open_seal [OF assms(1,2)]
  by (cases key) (auto simp: seal_payload_def enc_of_key_def incoming_blob_def)



subsection \<open>On-demand files\<close>

lemma cast_i64_range: "i64_range (cast_i64 n)"
  using sint_range_size [of "of_nat n :: u64"] by (simp add: i64_range_def cast_i64_def word_size)

lemma send_on_demand_sent:
  assumes "send_file_on_demand cr i path sz g = Ok (g', True)" "g_wire g' \<noteq> g_wire g"
  obtains h sha ev where "advertise cr i path g = Some (Inr (h, sha))"
    "g_wire g' = g_wire g @ [(T_CLIP, clip_to_json ev)]" "ev_size ev = sz" "blob_id_of ev = lit ''sha256:'' @ sha"
    "g_holds g' = hold_on_demand (g_holds g) (lit ''sha256:'' @ sha) h" "on_demand_flag ev"
proof -
  obtain h sha where a: "advertise cr i path g = Some (Inr (h, sha))"
    using assms by (auto simp: send_file_on_demand_def Let_def split: option.splits sum.splits)
  define ev where "ev = default_clip\<lparr>ev_id := io_id i, ev_seq := g_seq g, ev_ts := io_ts i,
     ev_mime := [mime_of path], ev_name := file_name path, blob_id_of := lit ''sha256:'' @ sha, ev_size := sz,
     ev_sha256 := sha, on_demand_flag := True, ev_targets := g_targets g, ev_enc := enc_of_key (g_key g)\<rparr>"
  define g1 where "g1 = g\<lparr>g_holds := hold_on_demand (g_holds g) (lit ''sha256:'' @ sha) h\<rparr>"
  obtain g2 b where s: "ws_send cr i T_CLIP (clip_to_json ev) g1 = (g2, b)" by (meson surj_pair)
  have f: "g_holds (emit e x) = g_holds x" "g_holds (fst (add_history cr i ts k og d p m sz' bb n x)) = g_holds x"
    for e x ts k og d p m sz' bb n by (simp_all add: emit_def add_history_def Let_def case_prod_beta)
  have g1: "g_seq g1 = g_seq g" "current_targets g1 = g_targets g" "g_key g1 = g_key g"
    by (simp_all add: g1_def current_targets_def)
  have "g_wire g' = g_wire g @ [(T_CLIP, clip_to_json ev)]"
    "g_holds g' = hold_on_demand (g_holds g) (lit ''sha256:'' @ sha) h"
    using assms(1) a s ws_send_wire [OF s]
    unfolding send_file_on_demand_def Let_def
    by (auto simp: g1_def [symmetric] g1 ev_def [symmetric] f case_prod_beta simp del: lit_simps split: if_splits)
      (simp_all add: g1_def)
  then show ?thesis using that [OF a] by (simp add: ev_def)
qed

text \<open>C33. A large encrypted file is served as it was advertised: when the server asks for the
  advertised blob and the hold is still there, the bytes the engine uploads have exactly the
  advertised content address and open under the group key to the content of the file.\<close>

theorem on_demand_serves_advertised:
  assumes "aead_inverts cr" "length (io_nonce i) = 12" "eng_inv g" "g_key g = Some (k, kid)"
    and "io_read i path = Some content" "io_meta i path = Some n" "0 < g_threshold g" "g_threshold g < cast_i64 n"
    and "send_file_clip cr i path g = Ok (g1, True)" "g_wire g1 \<noteq> g_wire g"
    and "clip_of_json (snd (last (g_wire g1))) = Some ev" "blob_request_of_json q = Some (blob_id_of ev)"
    and "fst (g_holds g2) (blob_id_of ev) = fst (g_holds g1) (blob_id_of ev)"
  shows "\<exists>b. g_tasks (handle_frame cr j T_BLOB_REQUEST q g2)
      = g_tasks g2 @ [ServeTask (c_server_url (g_cfg g2)) (c_token (g_cfg g2)) (blob_id_of ev) b]
    \<and> blob_id cr b = blob_id_of ev \<and> e2e_open cr k b = Ok content"
proof -
  define g0 where "g0 = g\<lparr>g_seq := g_seq g + 1\<rparr>"
  have od: "send_file_on_demand cr i path (cast_i64 n) g0 = Ok (g1, True)" "g_wire g1 \<noteq> g_wire g0"
    using assms(6-10) by (simp_all add: send_file_clip_def Let_def g0_def)
  obtain h sha ev' where a: "advertise cr i path g0 = Some (Inr (h, sha))"
    and w: "g_wire g1 = g_wire g0 @ [(T_CLIP, clip_to_json ev')]" "ev_size ev' = cast_i64 n"
    and bid: "blob_id_of ev' = lit ''sha256:'' @ sha"
    and hold: "g_holds g1 = hold_on_demand (g_holds g0) (lit ''sha256:'' @ sha) h"
    using send_on_demand_sent [OF od] by metis
  have ev: "ev = ev'" using clip_json_roundtrip [of ev'] cast_i64_range w assms(11) by simp
  obtain b where b: "seal cr (io_nonce i) k content = Ok b" "h = Sealed b" "sha = sha_hex cr b"
    using a assms(4,5) by (auto simp: advertise_def g0_def split: res.splits)
  have "holds_wf (g_holds g0)" using assms(3) by (simp add: g0_def eng_inv_def)
  then have "fst (g_holds g2) (blob_id_of ev) = Some (Sealed b)"
    using hold_self hold bid ev b(2) assms(13) by simp
  then show ?thesis
    using assms(12) open_seal [OF assms(1,2) b(1)] bid ev b(3)
    by (simp add: handle_frame_def serve_request_def tag_defs blob_id_def)
qed

lemma wire_send: "ws_send wire_crates sample_io t d g = (g\<lparr>g_wire := g_wire g @ [(t, d)]\<rparr>, True)"
  by (simp add: ws_send_def encode_def wire_crates_def sample_io_def)

theorem on_demand_serves_advertised_witness:
  "\<exists>g1 ev b. let g = sample_eng\<lparr>g_key := Some (replicate 32 7, lit ''kid''), g_threshold := 2\<rparr> in
     send_file_clip wire_crates sample_io (lit ''a'') g = Ok (g1, True)
     \<and> clip_of_json (snd (last (g_wire g1))) = Some ev
     \<and> g_tasks (handle_frame wire_crates sample_io T_BLOB_REQUEST (JObj [(''id'', JStr (blob_id_of ev))]) g1)
         = [ServeTask (c_server_url (g_cfg g1)) (c_token (g_cfg g1)) (blob_id_of ev) b]"
proof -
  define g where "g = sample_eng\<lparr>g_key := Some (replicate 32 (7 :: 8 word), lit ''kid''), g_threshold := 2\<rparr>"
  have inv: "eng_inv g" using sample_eng_inv by (simp add: g_def eng_inv_def sample_eng_def)
  have io: "io_read sample_io p = Some [1, 2, 3]" "io_meta sample_io p = Some 5" "length (io_nonce sample_io) = 12" for p
    by (simp_all add: sample_io_def)
  have k: "g_key g = Some (replicate 32 7, lit ''kid'')" "g_threshold g = 2" "g_wire g = []" "g_tasks g = []"
    by (simp_all add: g_def sample_eng_def)
  have c: "cast_i64 5 = 5" by (simp add: cast_i64_def)
  have a: "\<exists>ct. advertise wire_crates sample_io (lit ''a'') (g\<lparr>g_seq := m\<rparr>) = Some (Inr (Sealed ct, sha_hex wire_crates ct))" for m
    by (simp add: advertise_def k io(1) seal_def) (simp add: wire_crates_def sample_crates_def)
  then obtain ct where ct: "advertise wire_crates sample_io (lit ''a'') (g\<lparr>g_seq := g_seq g + 1\<rparr>)
      = Some (Inr (Sealed ct, sha_hex wire_crates ct))" by blast
  have "\<exists>g1 ev. send_file_clip wire_crates sample_io (lit ''a'') g = Ok (g1, True)
      \<and> g_wire g1 = [(T_CLIP, clip_to_json ev)] \<and> ev_size ev = 5 \<and> g_tasks g1 = []"
    unfolding send_file_clip_def send_file_on_demand_def Let_def io(2) option.case c k(2)
    by (simp only: ct option.case sum.case prod.case wire_send)
      (auto simp: k default_clip_def intro!: exI)
  then obtain g1 ev where s: "send_file_clip wire_crates sample_io (lit ''a'') g = Ok (g1, True)"
    and w: "g_wire g1 = [(T_CLIP, clip_to_json ev)]" "ev_size ev = 5" "g_tasks g1 = []" by blast
  have r: "clip_of_json (snd (last (g_wire g1))) = Some ev"
    using clip_json_roundtrip [of ev] w by (simp add: i64_range_def)
  have q: "blob_request_of_json (JObj [(''id'', JStr x)]) = Some x" for x
    by (simp add: blob_request_of_json_def struct_fields_def req_def)
  show ?thesis
    using on_demand_serves_advertised [OF wire_aead io(3) inv k(1) io(1) io(2) _ _ s _ r q refl, of sample_io] s r w k c
    unfolding g_def [symmetric] Let_def by auto
qed

text \<open>C34. A plain hold can go stale: when the file was changed after it was advertised, a request
  uploads the new bytes under another address, the upload counts as served, and the hold is
  dropped although the advertised blob was never uploaded.\<close>

theorem plain_hold_goes_stale:
  assumes "fst (g_holds g) bid = Some (Plain p)" "io_read i p = Some b" "blob_id cr b \<noteq> bid"
    and "blob_request_of_json q = Some bid" "\<And>u t c. put u t c = Some (200, [])"
    and "g1 = handle_frame cr i T_BLOB_REQUEST q g"
  shows "\<exists>base tok. g_tasks g1 = g_tasks g @ [ServeTask base tok bid b]
    \<and> serve_worker cr put m base tok bid b = Serve bid True
    \<and> fst (g_holds (fst (on_blob cr j (Serve bid True) g1))) bid = None
    \<and> put_blob cr put m base tok b \<noteq> Inr bid"
proof -
  have g1: "g1 = spawn (ServeTask (c_server_url (g_cfg g)) (c_token (g_cfg g)) bid b) g"
    using assms(1,2,4,6) by (simp add: handle_frame_def serve_request_def tag_defs)
  have "put_blob cr put m base tok b = Inr (blob_id cr b)" for base tok
    by (simp add: put_blob_def Let_def assms(5) is_success_def)
  moreover have "fst (g_holds (fst (on_blob cr j (Serve bid True) g1))) bid = None"
    using assms(1) by (simp add: g1 spawn_def drop_served_def case_prod_beta)
  ultimately show ?thesis using g1 assms(3) by (auto simp: serve_worker_def)
qed

theorem plain_hold_goes_stale_witness:
  "\<exists>base tok. serve_worker wire_crates (\<lambda>_ _ _. Some (200, [])) [] base tok (lit ''sha256:old'') [1, 2, 3]
     = Serve (lit ''sha256:old'') True"
proof -
  define g where "g = sample_eng\<lparr>g_holds := hold_on_demand (\<lambda>_. None, []) (lit ''sha256:old'') (Plain (lit ''/f''))\<rparr>"
  have 1: "fst (g_holds g) (lit ''sha256:old'') = Some (Plain (lit ''/f''))"
    unfolding g_def using hold_self [of "(\<lambda>_. None, [])"] by (simp add: holds_wf_def)
  have 2: "io_read sample_io (lit ''/f'') = Some [1, 2, 3]" by (simp add: sample_io_def)
  have 3: "blob_id wire_crates [1, 2, 3] \<noteq> lit ''sha256:old''"
    by (simp add: blob_id_def sha_hex_def wire_crates_def sample_crates_def)
  have 4: "blob_request_of_json (JObj [(''id'', JStr (lit ''sha256:old''))]) = Some (lit ''sha256:old'')"
    by (simp add: blob_request_of_json_def struct_fields_def req_def)
  show ?thesis
    using plain_hold_goes_stale [OF 1 2 3 4, of "\<lambda>_ _ _. Some (200, [])" _ "[]" sample_io] by blast
qed

subsection \<open>Token rotation\<close>

text \<open>A rotated token survives a restart: once the server sends a new token and the file system
  takes the write, the next dial uses it and so does an engine started from the saved file.\<close>

theorem rotated_token_persists:
  assumes "json_inverts cr" "token_rotate_of_json d = Some t" "t \<noteq> []"
    and "io_mkdir (ios 0)" "io_write (ios 0) = Written"
    and "json_to_vec_pretty cr (config_to_json ((g_cfg g)\<lparr>c_token := t\<rparr>)) \<noteq> None"
    and "loop_step cr ios (Received (RecvFrame T_TOKEN_ROTATE d)) g = (g', f)"
  shows "f = Go \<and> g_cfg g' = (g_cfg g)\<lparr>c_token := t\<rparr> \<and> config_load cr (g_disk g') (g_cfg_path g) = Some (g_cfg g')"
proof -
  obtain b where b: "json_to_vec_pretty cr (config_to_json ((g_cfg g)\<lparr>c_token := t\<rparr>)) = Some b"
    using assms(6) by blast
  have k: "T_TOKEN_ROTATE \<noteq> KEEPALIVE" by (simp add: tag_defs KEEPALIVE_def)
  have g': "f = Go" "g_cfg g' = (g_cfg g)\<lparr>c_token := t\<rparr>" "g_disk g' = (g_disk g)(g_cfg_path g \<mapsto> b)"
    using assms(2-5,7) b k by (auto simp: on_token_rotate_def config_save_def Let_def emit_def)
  have "json_from_slice cr b = Some (config_to_json ((g_cfg g)\<lparr>c_token := t\<rparr>))"
    using assms(1) b by (auto simp: json_inverts_def)
  with g' show ?thesis by (simp add: config_load_def config_json_roundtrip)
qed

theorem rotated_token_persists_witness:
  "let cr = sample_json_crates (config_to_json (sample_config\<lparr>c_token := lit ''new''\<rparr>));
       g' = fst (loop_step cr (\<lambda>_. sample_io) (Received (RecvFrame T_TOKEN_ROTATE (JObj [(''token'', JStr (lit ''new''))]))) sample_eng)
   in config_load cr (g_disk g') (lit ''/c'') = Some (sample_config\<lparr>c_token := lit ''new''\<rparr>)"
proof -
  define cr where "cr = sample_json_crates (config_to_json (sample_config\<lparr>c_token := lit ''new''\<rparr>))"
  have 1: "json_inverts cr" by (simp add: cr_def sample_json_crates_inverts)
  have 2: "token_rotate_of_json (JObj [(''token'', JStr (lit ''new''))]) = Some (lit ''new'')"
    by (simp add: token_rotate_of_json_def struct_fields_def req_def)
  have 3: "g_cfg sample_eng = sample_config" "g_cfg_path sample_eng = lit ''/c''" by (simp_all add: sample_eng_def)
  have 4: "json_to_vec_pretty cr (config_to_json (sample_config\<lparr>c_token := lit ''new''\<rparr>)) \<noteq> None"
    by (simp add: cr_def sample_json_crates_def)
  have 5: "io_mkdir sample_io" "io_write sample_io = Written" by (simp_all add: sample_io_def)
  show ?thesis
    using rotated_token_persists [OF 1 2 _ _ _ _ surjective_pairing, of "\<lambda>_. sample_io" sample_eng] 3 4 5
    unfolding cr_def [symmetric] Let_def by (simp del: loop_step.simps)
qed

end
