(* ===== verification/Pinning.thy ===== *)
theory Pinning
  imports Net
begin

text \<open>
  The TLS clients of \<open>pinning.rs\<close>: the process-wide crypto provider, the certificate verifier with
  its signature checks, the client configuration, the pinned HTTP client and the one that skips
  verification.

  The TLS library is a parameter: a provider is a record of its signature checks, and \<open>tls\<close> says
  whether a session with a given peer is established under a configuration. What the code relies
  on is the contract of a certificate verifier, the predicate \<open>tls_consults\<close>: no session without
  the verifier having accepted the peer's certificate and the handshake signature made with it.
\<close>

subsection \<open>The provider\<close>

text \<open>A signature as the handshake carries it: its scheme and its bytes.\<close>

record dss =
  ds_scheme :: nat
  ds_signature :: bytes

record provider =
  pr_verify12 :: "bytes \<Rightarrow> bytes \<Rightarrow> dss \<Rightarrow> bool"
  pr_verify13 :: "bytes \<Rightarrow> bytes \<Rightarrow> dss \<Rightarrow> bool"
  pr_schemes :: "nat list"

text \<open>The cell of \<open>ensure_provider\<close> and the default provider of the process.\<close>

record provider_cell =
  pc_cell :: "provider option"
  pc_default :: "provider option"

definition ensure_provider :: "provider \<Rightarrow> provider_cell \<Rightarrow> provider \<times> provider_cell" where
  "ensure_provider aws st =
     (case pc_cell st of
        Some p \<Rightarrow> (p, st)
      | None \<Rightarrow>
          (aws, st\<lparr>pc_cell := Some aws,
                   pc_default := (case pc_default st of None \<Rightarrow> Some aws | Some q \<Rightarrow> Some q)\<rparr>))"

subsection \<open>The verifier\<close>

record spki_verifier =
  vf_pin :: bytes
  vf_provider :: provider

text \<open>\<open>verify_server_cert\<close> with the arguments it does not look at: the intermediates, the server's
  name, the stapled response and the time.\<close>

definition spki_verify :: "crates \<Rightarrow> spki_verifier \<Rightarrow> bytes \<Rightarrow> bytes list \<Rightarrow> rstr \<Rightarrow> bytes \<Rightarrow> u64 \<Rightarrow> tls_error + unit" where
  "spki_verify cr v end_entity intermediates server_name ocsp now = verify_server_cert cr (vf_pin v) end_entity"

definition spki_verify_tls12 :: "spki_verifier \<Rightarrow> bytes \<Rightarrow> bytes \<Rightarrow> dss \<Rightarrow> bool" where
  "spki_verify_tls12 v message cert d = pr_verify12 (vf_provider v) message cert d"

definition spki_verify_tls13 :: "spki_verifier \<Rightarrow> bytes \<Rightarrow> bytes \<Rightarrow> dss \<Rightarrow> bool" where
  "spki_verify_tls13 v message cert d = pr_verify13 (vf_provider v) message cert d"

definition supported_verify_schemes :: "spki_verifier \<Rightarrow> nat list" where
  "supported_verify_schemes v = pr_schemes (vf_provider v)"

subsection \<open>Clients\<close>

datatype cert_check = PinCheck spki_verifier | AcceptAny

record client_config =
  cc_provider :: "provider option"
  cc_check :: cert_check
  cc_client_auth :: bool

definition build_config :: "provider \<Rightarrow> provider_cell \<Rightarrow> bytes \<Rightarrow> client_config \<times> provider_cell" where
  "build_config aws st pin =
     (let (p, st') = ensure_provider aws st
      in (\<lparr>cc_provider = Some p, cc_check = PinCheck \<lparr>vf_pin = pin, vf_provider = p\<rparr>, cc_client_auth = False\<rparr>, st'))"

record http_client_cfg =
  hc_tls :: client_config
  hc_timeout :: nat

definition http_client :: "provider \<Rightarrow> provider_cell \<Rightarrow> bytes \<Rightarrow> http_client_cfg \<times> provider_cell" where
  "http_client aws st pin = (let (c, st') = build_config aws st pin in (\<lparr>hc_tls = c, hc_timeout = 60\<rparr>, st'))"

text \<open>The client for on-demand pulls (\<open>blob.rs\<close>) differs in its timeout only.\<close>

definition pull_client :: "provider \<Rightarrow> provider_cell \<Rightarrow> bytes \<Rightarrow> http_client_cfg \<times> provider_cell" where
  "pull_client aws st pin = (let (c, st') = build_config aws st pin in (\<lparr>hc_tls = c, hc_timeout = 70\<rparr>, st'))"

text \<open>The insecure client is built by the HTTP library on the default provider.\<close>

definition insecure_client :: "provider \<Rightarrow> provider_cell \<Rightarrow> http_client_cfg \<times> provider_cell" where
  "insecure_client aws st =
     (let st' = snd (ensure_provider aws st)
      in (\<lparr>hc_tls = \<lparr>cc_provider = pc_default st', cc_check = AcceptAny, cc_client_auth = False\<rparr>, hc_timeout = 15\<rparr>, st'))"

subsection \<open>Sessions\<close>

text \<open>A peer: the certificates it shows, the version it negotiates, and what it signs.\<close>

record tls_peer =
  tp_cert :: bytes
  tp_chain :: "bytes list"
  tp_name :: rstr
  tp_ocsp :: bytes
  tp_now :: u64
  tp_tls13 :: bool
  tp_message :: bytes
  tp_dss :: dss

definition peer_signed :: "provider \<Rightarrow> tls_peer \<Rightarrow> bool" where
  "peer_signed p t \<longleftrightarrow>
     (if tp_tls13 t then pr_verify13 p (tp_message t) (tp_cert t) (tp_dss t)
      else pr_verify12 p (tp_message t) (tp_cert t) (tp_dss t))"

text \<open>The verifier's verdict on a peer: the certificate, the signature by the version, its scheme.\<close>

definition verifier_accepts :: "crates \<Rightarrow> spki_verifier \<Rightarrow> tls_peer \<Rightarrow> bool" where
  "verifier_accepts cr v t \<longleftrightarrow>
     spki_verify cr v (tp_cert t) (tp_chain t) (tp_name t) (tp_ocsp t) (tp_now t) = Inr ()
     \<and> (if tp_tls13 t then spki_verify_tls13 v (tp_message t) (tp_cert t) (tp_dss t)
        else spki_verify_tls12 v (tp_message t) (tp_cert t) (tp_dss t))
     \<and> ds_scheme (tp_dss t) \<in> set (supported_verify_schemes v)"

definition tls_consults :: "crates \<Rightarrow> (client_config \<Rightarrow> tls_peer \<Rightarrow> bool) \<Rightarrow> bool" where
  "tls_consults cr tls \<longleftrightarrow>
     (\<forall>c t v. tls c t \<longrightarrow> cc_check c = PinCheck v \<longrightarrow> verifier_accepts cr v t)"

subsection \<open>Facts\<close>

text \<open>Every call of the process gets the provider that the first one created.\<close>

lemma ensure_provider_once:
  "ensure_provider aws st = (p, st') \<Longrightarrow> ensure_provider aws' st' = (p, st')"
  by (auto simp: ensure_provider_def split: option.splits)

lemma accepts_iff:
  "verifier_accepts cr \<lparr>vf_pin = pin, vf_provider = p\<rparr> t \<longleftrightarrow>
     (\<exists>spki. spki_of_cert cr (tp_cert t) = Some spki \<and> sha256 cr spki = pin)
     \<and> peer_signed p t \<and> ds_scheme (tp_dss t) \<in> set (pr_schemes p)"
  by (simp add: verifier_accepts_def spki_verify_def verify_Inr_iff spki_verify_tls12_def spki_verify_tls13_def
      supported_verify_schemes_def peer_signed_def)

lemma pull_client_pinned:
  "pull_client aws st pin = (let (h, st') = http_client aws st pin in (h\<lparr>hc_timeout := 70\<rparr>, st'))"
  by (simp add: pull_client_def http_client_def case_prod_beta Let_def)


definition sample_provider :: provider where
  "sample_provider = \<lparr>pr_verify12 = (\<lambda>m c d. False), pr_verify13 = (\<lambda>m c d. ds_signature d = c @ m), pr_schemes = [4]\<rparr>"

definition sample_peer :: tls_peer where
  "sample_peer = \<lparr>tp_cert = [7], tp_chain = [], tp_name = [], tp_ocsp = [], tp_now = 0, tp_tls13 = True,
     tp_message = [1], tp_dss = \<lparr>ds_scheme = 4, ds_signature = [7, 1]\<rparr>\<rparr>"

definition sample_tls :: "client_config \<Rightarrow> tls_peer \<Rightarrow> bool" where
  "sample_tls c t = (case cc_check c of PinCheck v \<Rightarrow> verifier_accepts sample_crates v t | AcceptAny \<Rightarrow> True)"


end
