(* ===== verification/Ipc.thy ===== *)
theory Ipc
  imports Crates
begin

text \<open>
  The vocabulary between the agent and its clients (\<open>ipc/src/lib.rs\<close>): the messages as
  datatypes, the JSON that serde writes and reads for the adjacently tagged enums, and the
  line framing. One message is one line.
\<close>

subsection \<open>Types\<close>

record ipc_status =
  is_paired :: bool
  is_connected :: bool
  is_reconnecting :: bool
  is_server :: rstr
  is_device :: rstr
  is_e2e :: bool
  is_pool :: rstr
  is_pools :: "rstr list"
  is_privacy_filter :: bool
  is_mark_sensitive :: bool
  is_auto_clear_secs :: u64
  is_telemetry :: bool

record hist_row =
  hr_ts :: rstr
  hr_kind :: rstr
  hr_direction :: rstr
  hr_origin :: rstr
  hr_preview :: rstr
  hr_size :: int

record clip_info =
  ci_direction :: rstr
  ci_kind :: rstr
  ci_text :: "rstr option"
  ci_name :: "rstr option"
  ci_sensitive :: "rstr option"
  ci_size :: "int option"
  ci_origin :: "rstr option"
  ci_path :: "rstr option"
  ci_on_demand :: "bool option"

record ipc_roster =
  ir_id :: rstr
  ir_name :: rstr
  ir_online :: bool

record found_server =
  fs_name :: rstr
  fs_url :: rstr

datatype request =
    GetStatus
  | GetHistory "rstr option"
  | GetRoster
  | ReqSendText rstr
  | ReqSendFile rstr
  | ReqSetPool rstr
  | SetTargets "rstr list"
  | SetPrivacyFilter bool
  | SetAutoClear u64
  | SetMarkSensitive bool
  | SetTelemetry bool
  | DiscoverServers
  | Pair rstr rstr rstr rstr rstr
  | ReqReconnect
  | Subscribe
  | ReqShutdown

text \<open>The texts of the error replies and events, one constructor per message of the agent.\<close>

datatype agent_msg =
    HistoryFailed | DiscoverFailed | SaveFailed | PairFailed | SyncStopped | NotPaired
  | ActorStopped | ActorRestarts | BadRequest

datatype response =
    RStatus ipc_status
  | RHistory "hist_row list"
  | RRoster "ipc_roster list"
  | RFound "found_server list"
  | RPaired ipc_status
  | ROk
  | RError agent_msg

subsection \<open>Requests on the wire\<close>

text \<open>An adjacently tagged value: an object with the tag and, unless the variant has no data, the
  content; or an array of the two.\<close>

definition adjacent :: "json \<Rightarrow> (rstr \<times> json option) option" where
  "adjacent v =
     (case v of
        JObj m \<Rightarrow> map_option (\<lambda>t. (t, map_of m ''d'')) (req as_str m ''t'')
      | JArr [t, d] \<Rightarrow> map_option (\<lambda>s. (s, Some d)) (as_str t)
      | _ \<Rightarrow> None)"

definition unit_variant :: "'a \<Rightarrow> json option \<Rightarrow> 'a option" where
  "unit_variant x d = (case d of None \<Rightarrow> Some x | Some JNull \<Rightarrow> Some x | _ \<Rightarrow> None)"

definition struct_variant :: "string list \<Rightarrow> ((string \<times> json) list \<Rightarrow> 'a option) \<Rightarrow> json option \<Rightarrow> 'a option" where
  "struct_variant names f d =
     (case d of None \<Rightarrow> None | Some c \<Rightarrow> Option.bind (struct_fields names c) f)"

definition request_of_json :: "json \<Rightarrow> request option" where
  "request_of_json v =
     (case adjacent v of
        None \<Rightarrow> None
      | Some (t, d) \<Rightarrow>
          if t = lit ''get_status'' then unit_variant GetStatus d
          else if t = lit ''get_history'' then
            struct_variant [''query''] (\<lambda>m. map_option GetHistory (opt_field as_str m ''query'')) d
          else if t = lit ''get_roster'' then unit_variant GetRoster d
          else if t = lit ''send_text'' then
            struct_variant [''text''] (\<lambda>m. map_option ReqSendText (req as_str m ''text'')) d
          else if t = lit ''send_file'' then
            struct_variant [''path''] (\<lambda>m. map_option ReqSendFile (req as_str m ''path'')) d
          else if t = lit ''set_pool'' then
            struct_variant [''pool''] (\<lambda>m. map_option ReqSetPool (req as_str m ''pool'')) d
          else if t = lit ''set_targets'' then
            struct_variant [''ids''] (\<lambda>m. map_option SetTargets (req as_str_vec m ''ids'')) d
          else if t = lit ''set_privacy_filter'' then
            struct_variant [''on''] (\<lambda>m. map_option SetPrivacyFilter (req as_bool m ''on'')) d
          else if t = lit ''set_auto_clear'' then
            struct_variant [''secs''] (\<lambda>m. map_option SetAutoClear (req as_u64 m ''secs'')) d
          else if t = lit ''set_mark_sensitive'' then
            struct_variant [''on''] (\<lambda>m. map_option SetMarkSensitive (req as_bool m ''on'')) d
          else if t = lit ''set_telemetry'' then
            struct_variant [''on''] (\<lambda>m. map_option SetTelemetry (req as_bool m ''on'')) d
          else if t = lit ''discover_servers'' then unit_variant DiscoverServers d
          else if t = lit ''pair'' then
            struct_variant [''server'', ''otp'', ''name'', ''pin'', ''e2e_pass''] (\<lambda>m. do {
              s \<leftarrow> req as_str m ''server'';
              otp \<leftarrow> req as_str m ''otp'';
              n \<leftarrow> req as_str m ''name'';
              p \<leftarrow> req as_str m ''pin'';
              e \<leftarrow> req as_str m ''e2e_pass'';
              Some (Pair s otp n p e) }) d
          else if t = lit ''reconnect'' then unit_variant ReqReconnect d
          else if t = lit ''subscribe'' then unit_variant Subscribe d
          else if t = lit ''shutdown'' then unit_variant ReqShutdown d
          else None)"

definition tagged :: "string \<Rightarrow> (string \<times> json) list \<Rightarrow> json" where
  "tagged t m = JObj [(''t'', JStr (lit t)), (''d'', JObj m)]"

definition tag_only :: "string \<Rightarrow> json" where
  "tag_only t = JObj [(''t'', JStr (lit t))]"

fun request_to_json :: "request \<Rightarrow> json" where
  "request_to_json GetStatus = tag_only ''get_status''"
| "request_to_json (GetHistory q) =
     tagged ''get_history'' [(''query'', case q of Some s \<Rightarrow> JStr s | None \<Rightarrow> JNull)]"
| "request_to_json GetRoster = tag_only ''get_roster''"
| "request_to_json (ReqSendText s) = tagged ''send_text'' [(''text'', JStr s)]"
| "request_to_json (ReqSendFile p) = tagged ''send_file'' [(''path'', JStr p)]"
| "request_to_json (ReqSetPool p) = tagged ''set_pool'' [(''pool'', JStr p)]"
| "request_to_json (SetTargets ids) = tagged ''set_targets'' [(''ids'', JArr (map JStr ids))]"
| "request_to_json (SetPrivacyFilter b) = tagged ''set_privacy_filter'' [(''on'', JBool b)]"
| "request_to_json (SetAutoClear n) = tagged ''set_auto_clear'' [(''secs'', JInt (uint n))]"
| "request_to_json (SetMarkSensitive b) = tagged ''set_mark_sensitive'' [(''on'', JBool b)]"
| "request_to_json (SetTelemetry b) = tagged ''set_telemetry'' [(''on'', JBool b)]"
| "request_to_json DiscoverServers = tag_only ''discover_servers''"
| "request_to_json (Pair s otp n p e) =
     tagged ''pair'' [(''server'', JStr s), (''otp'', JStr otp), (''name'', JStr n), (''pin'', JStr p),
       (''e2e_pass'', JStr e)]"
| "request_to_json ReqReconnect = tag_only ''reconnect''"
| "request_to_json Subscribe = tag_only ''subscribe''"
| "request_to_json ReqShutdown = tag_only ''shutdown''"

subsection \<open>The socket name\<close>

text \<open>The environment variables \<open>USER\<close> and \<open>USERNAME\<close>, where they are set.\<close>

definition socket_label :: "rstr option \<Rightarrow> rstr option \<Rightarrow> rstr" where
  "socket_label user username =
     (let who = (case user of Some u \<Rightarrow> u
                 | None \<Rightarrow> (case username of Some u \<Rightarrow> u | None \<Rightarrow> lit ''default''))
      in lit ''copysync-'' @ who @ lit ''.sock'')"

subsection \<open>Round trip\<close>

lemma adjacent_tags [simp]:
  "adjacent (tagged t m) = Some (lit t, Some (JObj m))" "adjacent (tag_only t) = Some (lit t, None)"
  by (simp_all add: adjacent_def tagged_def tag_only_def req_def)

lemma variants [simp]:
  "unit_variant x None = Some x" "struct_variant names f (Some (JObj m)) = f m"
  by (simp_all add: unit_variant_def struct_variant_def struct_fields_def)

text \<open>Every request a client serialises is read back by the agent as the same request.\<close>

lemma request_json_roundtrip: "request_of_json (request_to_json r) = Some r"
  by (cases r) (simp_all add: request_of_json_def lit_eq_iff req_def opt_field_def del: lit_simps split: option.splits)

end
