(* ===== verification/Agent.thy ===== *)
theory Agent
  imports Engine_Run Ipc
begin

text \<open>
  The headless daemon (\<open>agent/src/main.rs\<close>): the bounded telemetry buffer and its uploader, the
  conversions to IPC types, the emitter that fans engine callbacks out, the restart supervisor,
  the history key, every IPC request, the connection loop, the start of the daemon and its
  command line.

  The state \<open>agent\<close> holds the shared state, the command channel (whether its receiver is alive
  and what is queued), the supervisor with the configuration it captured, the events that were
  broadcast, and the configuration file's disk.
\<close>

subsection \<open>Telemetry\<close>

datatype tel_msg =
    TServeStarting | TEngineStart rstr rstr bool | TActorReturned | TActorPanicked u32 nat
  | TReconnecting u32 nat | TEngineError msg | TToggled bool | TPaired | TPairFailed | TShutdown

record tel_line =
  tl_level :: rstr
  tl_ts :: rstr
  tl_msg :: tel_msg

definition TELEMETRY_BUF_CAP :: nat where
  "TELEMETRY_BUF_CAP = 500"

definition tlog_push :: "'l \<Rightarrow> 'l list \<Rightarrow> 'l list" where
  "tlog_push l b = (let b' = (if length b \<ge> TELEMETRY_BUF_CAP then tl b else b) in b' @ [l])"

text \<open>Putting an unsent batch back: from its last line to its first, at the front, dropping the
  newest line when the buffer is over its limit.\<close>

definition push_front_bounded :: "'l \<Rightarrow> 'l list \<Rightarrow> 'l list" where
  "push_front_bounded l b = (let b' = l # b in if length b' > TELEMETRY_BUF_CAP then butlast b' else b')"

definition rebuffer :: "'l list \<Rightarrow> 'l list \<Rightarrow> 'l list" where
  "rebuffer batch b = fold push_front_bounded (rev batch) b"

text \<open>One round of the uploader: \<open>during\<close> are the lines logged while the upload was running,
  \<open>upload\<close> says whether the server took the batch.\<close>

definition uploader_round :: "crates \<Rightarrow> files \<Rightarrow> rstr \<Rightarrow> (config \<Rightarrow> bytes \<Rightarrow> 'l list \<Rightarrow> bool) \<Rightarrow> 'l list \<Rightarrow> 'l list \<Rightarrow> 'l list" where
  "uploader_round cr fs cfg_path upload during buf =
     (case config_load cr fs cfg_path of
        None \<Rightarrow> fold tlog_push during buf
      | Some c \<Rightarrow>
          if \<not> c_telemetry c \<or> c_server_url c = [] \<or> c_token c = [] then fold tlog_push during buf
          else
            (case decode_pin cr (c_pin c) of
               None \<Rightarrow> fold tlog_push during buf
             | Some pin \<Rightarrow>
                 (let n = min (length buf) 200; batch = take n buf; rest = drop n buf in
                  if batch = [] then fold tlog_push during buf
                  else (let b = fold tlog_push during rest in
                        if upload c pin batch then b else rebuffer batch b))))"

subsection \<open>Conversions\<close>

definition status_to_ipc :: "status \<Rightarrow> bool \<Rightarrow> bool \<Rightarrow> u64 \<Rightarrow> bool \<Rightarrow> ipc_status" where
  "status_to_ipc s privacy_filter mark_sensitive auto_clear telem =
     \<lparr>is_paired = st_paired s, is_connected = st_connected s, is_reconnecting = st_reconnecting s,
      is_server = st_server_name s, is_device = st_device_name s, is_e2e = st_e2e s, is_pool = st_pool s,
      is_pools = st_pools s, is_privacy_filter = privacy_filter, is_mark_sensitive = mark_sensitive,
      is_auto_clear_secs = auto_clear, is_telemetry = telem\<rparr>"

definition roster_to_ipc :: "roster_device list \<Rightarrow> ipc_roster list" where
  "roster_to_ipc r = map (\<lambda>d. \<lparr>ir_id = rd_id d, ir_name = rd_name d, ir_online = rd_online d\<rparr>) r"

definition clip_to_info :: "json \<Rightarrow> clip_info" where
  "clip_to_info v =
     (let s = (\<lambda>k. Option.bind (json_get v k) as_str);
          or_empty = (\<lambda>x. case x of Some t \<Rightarrow> t | None \<Rightarrow> [])
      in \<lparr>ci_direction = or_empty (s ''direction''), ci_kind = or_empty (s ''kind''), ci_text = s ''text'',
          ci_name = s ''name'', ci_sensitive = s ''sensitive'',
          ci_size = Option.bind (json_get v ''size'') as_i64, ci_origin = s ''origin'',
          ci_path = s ''path'', ci_on_demand = Option.bind (json_get v ''onDemand'') as_bool\<rparr>)"

definition entry_to_histrow :: "entry \<Rightarrow> hist_row" where
  "entry_to_histrow e = \<lparr>hr_ts = en_ts e, hr_kind = en_kind e, hr_direction = en_direction e,
     hr_origin = en_origin e, hr_preview = en_preview e, hr_size = en_size e\<rparr>"

subsection \<open>State\<close>

datatype event =
    EStatus ipc_status
  | EClip clip_info
  | ERoster "ipc_roster list"
  | EError "msg + agent_msg"
  | EReconnect u32 nat
  | ENotify rstr msg
  | ECliplog clip_log

record agent =
  a_hist :: history
  a_status :: status
  a_roster :: "roster_device list"
  a_targets :: targets
  a_exclude :: bool
  a_auto_clear :: u64
  a_mark :: bool
  a_telemetry :: bool
  a_cfg_path :: rstr
  a_disk :: files
  a_tx :: "(bool \<times> cmd list) option"
  a_supervisor :: "config option"
  a_attempt :: u32
  a_events :: "event list"
  a_buf :: "tel_line list"
  a_wakeups :: nat
  a_exiting :: bool

text \<open>What the outside answers while a request is handled.\<close>

record aio =
  ai_stamp :: rstr
  ai_sql :: bool
  ai_mkdir :: bool
  ai_write :: write_result
  ai_get :: "rstr \<Rightarrow> http_response"
  ai_post :: "bytes \<Rightarrow> rstr \<Rightarrow> json \<Rightarrow> http_response"
  ai_mdns :: "mdns_event list option"
  ai_subsec :: "nat option"

definition broadcast :: "event \<Rightarrow> agent \<Rightarrow> agent" where
  "broadcast e a = a\<lparr>a_events := a_events a @ [e]\<rparr>"

definition tlog :: "rstr \<Rightarrow> string \<Rightarrow> tel_msg \<Rightarrow> agent \<Rightarrow> agent" where
  "tlog stamp level m a =
     a\<lparr>a_buf := tlog_push \<lparr>tl_level = lit level, tl_ts = stamp, tl_msg = m\<rparr> (a_buf a)\<rparr>"

definition status_snapshot :: "agent \<Rightarrow> ipc_status" where
  "status_snapshot a = status_to_ipc (a_status a) (a_exclude a) (a_mark a) (a_auto_clear a) (a_telemetry a)"

text \<open>The \<open>Emitter\<close> of the daemon: what a callback of the engine does to the agent.\<close>

fun emitter :: "rstr \<Rightarrow> ui_event \<Rightarrow> agent \<Rightarrow> agent" where
  "emitter stamp (UStatus s) a =
     broadcast (EStatus (status_to_ipc s (a_exclude a) (a_mark a) (a_auto_clear a) (a_telemetry a))) a"
| "emitter stamp (UClip v) a = broadcast (EClip (clip_to_info v)) a"
| "emitter stamp (URoster r) a = broadcast (ERoster (roster_to_ipc r)) (a\<lparr>a_roster := r\<rparr>)"
| "emitter stamp (UReconnect n secs) a =
     broadcast (EReconnect n secs) (tlog stamp ''warn'' (TReconnecting n secs) a)"
| "emitter stamp (UError m) a = broadcast (EError (Inl m)) (tlog stamp ''error'' (TEngineError m) a)"
| "emitter stamp (UNotify title body) a = broadcast (ENotify title body) a"

definition emitter_cliplog :: "clip_log \<Rightarrow> agent \<Rightarrow> agent" where
  "emitter_cliplog l a = broadcast (ECliplog l) a"

subsection \<open>The supervisor\<close>

text \<open>\<open>Engine::start\<close>: seed the flags and the status from the configuration, abort the previous
  supervisor (which drops its receiver), and install a new one.\<close>

definition start :: "rstr \<Rightarrow> config \<Rightarrow> agent \<Rightarrow> agent" where
  "start stamp c a =
     (let a1 = tlog stamp ''info'' (TEngineStart (c_server_name c) (c_device_name c) (c_e2e_pass c \<noteq> [])) a;
          a2 = a1\<lparr>a_exclude := c_exclude_sensitive c, a_auto_clear := c_auto_clear_secs c,
                  a_mark := c_mark_received_sensitive c, a_telemetry := c_telemetry c,
                  a_status := (a_status a1)\<lparr>st_paired := True, st_server_name := c_server_name c,
                    st_device_name := c_device_name c, st_server_id := c_server_id c,
                    st_e2e := (c_e2e_pass c \<noteq> [])\<rparr>\<rparr>;
          a3 = (if a_supervisor a2 \<noteq> None then a2\<lparr>a_tx := map_option (\<lambda>(_, q). (False, q)) (a_tx a2)\<rparr> else a2)
      in a3\<lparr>a_supervisor := Some c, a_attempt := 0\<rparr>)"

text \<open>The head of the supervisor's loop: a fresh command channel. The actor it starts gets the
  configuration the supervisor captured, \<open>a_supervisor\<close>.\<close>

definition launch :: "agent \<Rightarrow> agent" where
  "launch a = (if a_supervisor a = None then a else a\<lparr>a_tx := Some (True, [])\<rparr>)"

definition supervisor_backoff :: "nat option \<Rightarrow> u32 \<Rightarrow> u64" where
  "supervisor_backoff subsec_millis attempt =
     (let secs = min (push_bit (unat (min attempt 5)) 1) 30;
          jitter = (case subsec_millis of Some ms \<Rightarrow> of_nat ms mod 700 | None \<Rightarrow> 0)
      in secs * 1000 + jitter)"

datatype actor_exit = ActorDone | ActorCancelled | ActorPanic

definition receiver_gone :: "agent \<Rightarrow> agent" where
  "receiver_gone a = a\<lparr>a_tx := map_option (\<lambda>(_, q). (False, q)) (a_tx a)\<rparr>"

definition set_links :: "bool \<Rightarrow> agent \<Rightarrow> agent" where
  "set_links retrying a =
     (let a1 = a\<lparr>a_status := (a_status a)\<lparr>st_connected := False, st_reconnecting := retrying\<rparr>\<rparr>
      in broadcast (EStatus (status_snapshot a1)) a1)"

text \<open>The arms of the match on how the actor's task ended. After a panic the supervisor stays,
  and its next \<open>launch\<close> follows the delay; otherwise it ends.\<close>

fun actor_ended :: "aio \<Rightarrow> actor_exit \<Rightarrow> agent \<Rightarrow> agent" where
  "actor_ended i ActorDone a =
     (let a1 = tlog (ai_stamp i) ''error'' TActorReturned (receiver_gone a);
          a2 = broadcast (EError (Inr ActorStopped)) a1
      in (set_links False a2)\<lparr>a_supervisor := None\<rparr>)"
| "actor_ended i ActorCancelled a = (receiver_gone a)\<lparr>a_supervisor := None\<rparr>"
| "actor_ended i ActorPanic a =
     (let a1 = (receiver_gone a)\<lparr>a_attempt := saturating_add (a_attempt a) 1\<rparr>;
          delay = supervisor_backoff (ai_subsec i) (a_attempt a1);
          a2 = tlog (ai_stamp i) ''warn'' (TActorPanicked (a_attempt a1) (unat delay)) a1;
          a3 = broadcast (EError (Inr ActorRestarts)) a2
      in set_links True a3)"

subsection \<open>The history key\<close>

text \<open>
  Where the key lives. \<open>ks_native\<close> says whether the build uses the operating system's keyring
  (macOS and Windows), \<open>ks_entry\<close> whether its entry could be opened, \<open>ks_secret\<close> what the entry
  holds, and \<open>ks_readable\<close>, \<open>ks_writable\<close> whether the two calls on the entry succeed.
\<close>

record keystore =
  ks_native :: bool
  ks_entry :: bool
  ks_readable :: bool
  ks_writable :: bool
  ks_secret :: "rstr option"

definition stored_key :: "crates \<Rightarrow> keystore \<Rightarrow> bytes option" where
  "stored_key cr k =
     (if \<not> ks_readable k then None
      else (case ks_secret k of
              None \<Rightarrow> None
            | Some b64 \<Rightarrow> (case b64_decode cr b64 of
                             None \<Rightarrow> None
                           | Some raw \<Rightarrow> if length raw = 32 then Some raw else None)))"

text \<open>\<open>fresh\<close> is what \<open>e2e::random_key\<close> returns, \<open>readable\<close> says whether the key file can be read.\<close>

definition history_key :: "crates \<Rightarrow> bytes \<Rightarrow> bool \<Rightarrow> write_result \<Rightarrow> rstr \<Rightarrow> keystore \<Rightarrow> files \<Rightarrow> bytes \<times> keystore \<times> files" where
  "history_key cr fresh readable wr data_dir k fs =
     (if ks_native k \<and> ks_entry k then
        (case stored_key cr k of
           Some key \<Rightarrow> (key, k, fs)
         | None \<Rightarrow> (fresh, if ks_writable k then k\<lparr>ks_secret := Some (b64_encode cr fresh)\<rparr> else k, fs))
      else
        (let kf = path_join data_dir (lit ''history.key'') in
         case (if readable then fs kf else None) of
           Some b \<Rightarrow>
             if length b = 32 then (b, k, fs)
             else (fresh, k, case wr of Written \<Rightarrow> fs(kf \<mapsto> fresh) | WriteFailed left \<Rightarrow> fs(kf := left))
         | None \<Rightarrow> (fresh, k, case wr of Written \<Rightarrow> fs(kf \<mapsto> fresh) | WriteFailed left \<Rightarrow> fs(kf := left))))"

subsection \<open>Requests\<close>

definition send_cmd :: "cmd \<Rightarrow> agent \<Rightarrow> agent \<times> response" where
  "send_cmd c a =
     (case a_tx a of
        Some (alive, q) \<Rightarrow>
          if alive then (a\<lparr>a_tx := Some (True, q @ [c])\<rparr>, ROk) else (a, RError SyncStopped)
      | None \<Rightarrow> (a, RError NotPaired))"

text \<open>Change one field of the saved configuration, when there is one.\<close>

definition update_saved :: "crates \<Rightarrow> aio \<Rightarrow> (config \<Rightarrow> config) \<Rightarrow> agent \<Rightarrow> agent" where
  "update_saved cr i f a =
     (case config_load cr (a_disk a) (a_cfg_path a) of
        None \<Rightarrow> a
      | Some c \<Rightarrow> a\<lparr>a_disk := fst (config_save cr (ai_mkdir i) (ai_write i) (a_disk a) (a_cfg_path a) (f c))\<rparr>)"

fun handle_request :: "crates \<Rightarrow> aio \<Rightarrow> request \<Rightarrow> agent \<Rightarrow> agent \<times> response" where
  "handle_request cr i GetStatus a = (a, RStatus (status_snapshot a))"
| "handle_request cr i (GetHistory query) a =
     (let rows = (case query of
                    Some q \<Rightarrow> if trim q \<noteq> [] then search cr (ai_sql i) (a_hist a) (trim q) 200
                              else recent cr (ai_sql i) (a_hist a) 200
                  | None \<Rightarrow> recent cr (ai_sql i) (a_hist a) 200)
      in (a, case rows of Some l \<Rightarrow> RHistory (map entry_to_histrow l) | None \<Rightarrow> RError HistoryFailed))"
| "handle_request cr i GetRoster a = (a, RRoster (roster_to_ipc (a_roster a)))"
| "handle_request cr i (ReqSendText t) a = (if t = [] then (a, ROk) else send_cmd (SendText t) a)"
| "handle_request cr i (ReqSendFile p) a = send_cmd (SendFile p) a"
| "handle_request cr i (ReqSetPool p) a = send_cmd (SetPool p) a"
| "handle_request cr i (SetTargets ids) a =
     (a\<lparr>a_targets := (if ids = [] then All else Devices ids)\<rparr>, ROk)"
| "handle_request cr i (SetPrivacyFilter on) a =
     (update_saved cr i (\<lambda>c. c\<lparr>c_exclude_sensitive := on\<rparr>) (a\<lparr>a_exclude := on\<rparr>), ROk)"
| "handle_request cr i (SetAutoClear secs) a =
     (update_saved cr i (\<lambda>c. c\<lparr>c_auto_clear_secs := secs\<rparr>) (a\<lparr>a_auto_clear := secs\<rparr>), ROk)"
| "handle_request cr i (SetMarkSensitive on) a =
     (update_saved cr i (\<lambda>c. c\<lparr>c_mark_received_sensitive := on\<rparr>) (a\<lparr>a_mark := on\<rparr>), ROk)"
| "handle_request cr i (SetTelemetry on) a =
     (tlog (ai_stamp i) ''info'' (TToggled on)
        (update_saved cr i (\<lambda>c. c\<lparr>c_telemetry := on\<rparr>) (a\<lparr>a_telemetry := on\<rparr>)), ROk)"
| "handle_request cr i ReqReconnect a = (a\<lparr>a_wakeups := a_wakeups a + 1\<rparr>, ROk)"
| "handle_request cr i DiscoverServers a =
     (a, case ai_mdns i of
           Some evs \<Rightarrow> RFound (map (\<lambda>f. \<lparr>fs_name = f_name f, fs_url = f_url f\<rparr>) (discover evs))
         | None \<Rightarrow> RError DiscoverFailed)"
| "handle_request cr i (Pair server otp name pin e2e_pass) a =
     (case claim cr (ai_get i) (ai_post i) server pin otp name e2e_pass of
        None \<Rightarrow> (tlog (ai_stamp i) ''error'' TPairFailed a, RError PairFailed)
      | Some c \<Rightarrow>
          (let (fs, ok) = config_save cr (ai_mkdir i) (ai_write i) (a_disk a) (a_cfg_path a) c;
               a1 = a\<lparr>a_disk := fs\<rparr>
           in if \<not> ok then (a1, RError SaveFailed)
              else (let a2 = start (ai_stamp i) c (tlog (ai_stamp i) ''info'' TPaired a1)
                    in (a2, RPaired (status_snapshot a2)))))"
| "handle_request cr i Subscribe a = (a, ROk)"
| "handle_request cr i ReqShutdown a =
     (let a1 = tlog (ai_stamp i) ''info'' TShutdown a
      in (a1\<lparr>a_tx := None, a_supervisor := None, a_exiting := True\<rparr>, ROk))"

subsection \<open>A client connection\<close>

datatype outbound = Reply response | Push event

definition process_line :: "crates \<Rightarrow> aio \<Rightarrow> rstr \<Rightarrow> bool \<Rightarrow> agent \<Rightarrow> agent \<times> bool \<times> outbound list" where
  "process_line cr i line_text subscribed a =
     (let trimmed = trim line_text in
      if trimmed = [] then (a, subscribed, [])
      else (case Option.bind (json_from_slice cr (as_bytes trimmed)) request_of_json of
              Some r \<Rightarrow> (let (a', resp) = handle_request cr i r a
                         in (a', subscribed \<or> r = Subscribe, [Reply resp]))
            | None \<Rightarrow> (a, subscribed, [Reply (RError BadRequest)])))"

record conn =
  cn_subscribed :: bool
  cn_streaming :: bool

text \<open>What wakes the connection: a line of the client, its end or an error, an event of the bus,
  the bus having dropped events, or the bus being closed.\<close>

datatype conn_event = ClientLine rstr | ClientEof | ClientError | BusEvent event | BusLagged | BusClosed

text \<open>One turn of the connection loop: the state, what is written, and whether the connection
  goes on.\<close>

fun conn_step :: "crates \<Rightarrow> aio \<Rightarrow> conn_event \<Rightarrow> conn \<Rightarrow> agent \<Rightarrow> conn \<times> agent \<times> outbound list \<times> bool" where
  "conn_step cr i (ClientLine l) cn a =
     (let (a1, sub, out) = process_line cr i l (cn_subscribed cn) a in
      if \<not> cn_streaming cn \<and> sub \<and> \<not> cn_subscribed cn
      then (\<lparr>cn_subscribed = True, cn_streaming = True\<rparr>, a1, out @ [Push (EStatus (status_snapshot a1))], True)
      else (cn\<lparr>cn_subscribed := sub\<rparr>, a1, out, True))"
| "conn_step cr i ClientEof cn a = (cn, a, [], False)"
| "conn_step cr i ClientError cn a = (cn, a, [], False)"
| "conn_step cr i (BusEvent e) cn a = (if cn_streaming cn then (cn, a, [Push e], True) else (cn, a, [], True))"
| "conn_step cr i BusLagged cn a =
     (if cn_streaming cn
      then (cn, a, [Push (EStatus (status_snapshot a)), Push (ERoster (roster_to_ipc (a_roster a)))], True)
      else (cn, a, [], True))"
| "conn_step cr i BusClosed cn a = (cn\<lparr>cn_streaming := False\<rparr>, a, [], True)"

subsection \<open>Start of the daemon and command line\<close>

text \<open>The platform's directories, where it reports them.\<close>

record platform_dirs =
  pd_config :: "rstr option"
  pd_data :: "rstr option"
  pd_temp :: rstr

definition config_path :: "platform_dirs \<Rightarrow> rstr" where
  "config_path d = path_join (path_join (case pd_config d of Some c \<Rightarrow> c | None \<Rightarrow> pd_temp d) (lit ''copysync''))
     (lit ''config.json'')"

definition config_dir :: "platform_dirs \<Rightarrow> rstr" where
  "config_dir d = (case pd_config d of Some c \<Rightarrow> path_join c (lit ''copysync'')
                   | None \<Rightarrow> path_join (pd_temp d) (lit ''copysync''))"

definition data_dir :: "platform_dirs \<Rightarrow> rstr" where
  "data_dir d = (case pd_data d of Some c \<Rightarrow> path_join c (lit ''copysync'') | None \<Rightarrow> config_dir d)"

definition default_status :: status where
  "default_status = \<lparr>st_paired = False, st_connected = False, st_server_name = [], st_device_name = [],
     st_server_id = [], st_e2e = False, st_pool = [], st_pools = [], st_reconnecting = False\<rparr>"

text \<open>\<open>build_engine\<close>, given the history it opened (\<open>None\<close> when that failed) and the files on disk.\<close>

definition build_engine :: "crates \<Rightarrow> rstr \<Rightarrow> platform_dirs \<Rightarrow> history option \<Rightarrow> files \<Rightarrow> tel_line list \<Rightarrow> agent option" where
  "build_engine cr stamp d hist fs buf =
     (case hist of
        None \<Rightarrow> None
      | Some h \<Rightarrow>
          (let cfg = path_join (config_dir d) (lit ''config.json'');
               loaded = config_load cr fs cfg;
               a = \<lparr>a_hist = h, a_status = default_status, a_roster = [], a_targets = All,
                    a_exclude = (case loaded of Some c \<Rightarrow> c_exclude_sensitive c | None \<Rightarrow> True),
                    a_auto_clear = (case loaded of Some c \<Rightarrow> c_auto_clear_secs c | None \<Rightarrow> 0),
                    a_mark = (case loaded of Some c \<Rightarrow> c_mark_received_sensitive c | None \<Rightarrow> False),
                    a_telemetry = (case loaded of Some c \<Rightarrow> c_telemetry c | None \<Rightarrow> True),
                    a_cfg_path = cfg, a_disk = fs, a_tx = None, a_supervisor = None, a_attempt = 0,
                    a_events = [], a_buf = buf, a_wakeups = 0, a_exiting = False\<rparr>
           in Some (case loaded of Some c \<Rightarrow> start stamp c a | None \<Rightarrow> a)))"

text \<open>The value after the first occurrence of a flag.\<close>

fun flag :: "rstr list \<Rightarrow> rstr \<Rightarrow> rstr option" where
  "flag [] name = None"
| "flag (x # xs) name = (if x = name then (case xs of [] \<Rightarrow> None | v # _ \<Rightarrow> Some v) else flag xs name)"

datatype cli_action = CliServe | CliSend request | CliWatch | CliMissing string | CliUsage rstr

text \<open>\<open>main\<close>: the arguments after the program's name.\<close>

definition main_cli :: "rstr list \<Rightarrow> cli_action" where
  "main_cli args =
     (case args of
        [] \<Rightarrow> CliServe
      | c # r \<Rightarrow>
          if c = lit ''serve'' then CliServe
          else if c = lit ''ping'' \<or> c = lit ''status'' then CliSend GetStatus
          else if c = lit ''history'' then CliSend (GetHistory None)
          else if c = lit ''discover'' then CliSend DiscoverServers
          else if c = lit ''reconnect'' then CliSend ReqReconnect
          else if c = lit ''watch'' then CliWatch
          else if c = lit ''send'' then CliSend (ReqSendText (join_with [32] r))
          else if c = lit ''pair'' then
            (case flag r (lit ''--server'') of
               None \<Rightarrow> CliMissing ''--server''
             | Some server \<Rightarrow>
                 (case flag r (lit ''--otp'') of
                    None \<Rightarrow> CliMissing ''--otp''
                  | Some otp \<Rightarrow>
                      (let or_default = (\<lambda>x d. case x of Some v \<Rightarrow> v | None \<Rightarrow> d)
                       in CliSend (Pair server otp (or_default (flag r (lit ''--name'')) (lit ''desktop''))
                            (or_default (flag r (lit ''--pin'')) []) (or_default (flag r (lit ''--e2e'')) [])))))
          else CliUsage c)"

text \<open>\<open>client_send\<close>: the line written to the agent, without its newline.\<close>

definition client_line :: "crates \<Rightarrow> request \<Rightarrow> rstr option" where
  "client_line cr r = map_option from_utf8_lossy (json_to_vec cr (request_to_json r))"

end
