(* ===== verification/Gui_Prefs.thy ===== *)
theory Gui_Prefs
  imports Agent
begin

text \<open>
  The parts of the desktop GUI (\<open>gui/src/main.rs\<close>) that stand alone: the preferences file, the
  colours of a theme, the wallpaper and the small text helpers. The sliders' numbers are
  rationals; the rounding of 32-bit floats is not modelled.
\<close>

subsection \<open>Colours\<close>

record color =
  c_r :: "8 word"
  c_g :: "8 word"
  c_b :: "8 word"
  c_a :: "8 word"

definition hex :: "u32 \<Rightarrow> color" where
  "hex rgb = \<lparr>c_r = ucast (drop_bit 16 rgb), c_g = ucast (drop_bit 8 rgb), c_b = ucast rgb, c_a = 255\<rparr>"

definition rgb24 :: "color \<Rightarrow> u32" where
  "rgb24 c = or (or (push_bit 16 (ucast (c_r c))) (push_bit 8 (ucast (c_g c)))) (ucast (c_b c))"

record palette =
  pl_dark :: bool
  pl_bg :: color
  pl_panel :: color
  pl_panel2 :: color
  pl_line :: color
  pl_fg :: color
  pl_muted :: color
  pl_accent :: color
  pl_success :: color
  pl_danger :: color
  pl_warn :: color
  pl_tag_text :: color
  pl_tag_image :: color
  pl_tag_file :: color
  pl_toast_fill :: color
  pl_toast_stroke :: color
  pl_toast_title :: color
  pl_toast_body :: color
  pl_blocked_pink :: color
  pl_on_accent :: color

definition DARK :: palette where
  "DARK = \<lparr>pl_dark = True, pl_bg = hex 0x1A1816, pl_panel = hex 0x222019, pl_panel2 = hex 0x2B2823,
     pl_line = hex 0x3A362F, pl_fg = hex 0xEDE8DF, pl_muted = hex 0xA39C8E, pl_accent = hex 0x0E8C84,
     pl_success = hex 0x34D399, pl_danger = hex 0xF87171, pl_warn = hex 0xFBBF24, pl_tag_text = hex 0x3FB94F,
     pl_tag_image = hex 0xA78BFA, pl_tag_file = hex 0x5B9CF6, pl_toast_fill = hex 0x482B31, pl_toast_stroke = hex 0x9C4465,
     pl_toast_title = hex 0xFBCFE8, pl_toast_body = hex 0xEDE8DF, pl_blocked_pink = hex 0xE0588F, pl_on_accent = hex 0xFFFFFF\<rparr>"

definition LIGHT :: palette where
  "LIGHT = \<lparr>pl_dark = False, pl_bg = hex 0xF6F3EC, pl_panel = hex 0xFFFFFF, pl_panel2 = hex 0xEFEBE1,
     pl_line = hex 0xDAD3C5, pl_fg = hex 0x23201B, pl_muted = hex 0x6E685C, pl_accent = hex 0x0B7C72,
     pl_success = hex 0x15803D, pl_danger = hex 0xC81E1E, pl_warn = hex 0x9A6406, pl_tag_text = hex 0x117A33,
     pl_tag_image = hex 0x7E22CE, pl_tag_file = hex 0x1D4ED8, pl_toast_fill = hex 0xFDE7F1, pl_toast_stroke = hex 0xE0588F,
     pl_toast_title = hex 0x9D174D, pl_toast_body = hex 0x831843, pl_blocked_pink = hex 0xE0588F, pl_on_accent = hex 0xFFFFFF\<rparr>"

datatype theme_mode = System | Dark | Light

fun theme_str :: "theme_mode \<Rightarrow> rstr" where
  "theme_str System = lit ''system''"
| "theme_str Dark = lit ''dark''"
| "theme_str Light = lit ''light''"

definition theme_of_str :: "rstr \<Rightarrow> theme_mode" where
  "theme_of_str s = (if s = lit ''dark'' then Dark else if s = lit ''light'' then Light else System)"

definition palette_resolve :: "bool \<Rightarrow> theme_mode \<Rightarrow> palette" where
  "palette_resolve system_dark mode =
     (if (case mode of Dark \<Rightarrow> True | Light \<Rightarrow> False | System \<Rightarrow> system_dark) then DARK else LIGHT)"

definition tag_color :: "palette \<Rightarrow> rstr \<Rightarrow> color" where
  "tag_color p k = (if k = lit ''image'' then pl_tag_image p else if k = lit ''file'' then pl_tag_file p else pl_tag_text p)"

definition status_color :: "palette \<Rightarrow> bool \<Rightarrow> bool \<Rightarrow> color" where
  "status_color p online retrying =
     (if online then pl_success p else if retrying then pl_warn p else pl_danger p)"

subsection \<open>Preferences\<close>

definition DEFAULT_HOTKEY :: rstr where
  "DEFAULT_HOTKEY = lit ''Ctrl+Shift+V''"

record prefs =
  p_theme :: theme_mode
  p_hotkey :: rstr
  p_bg_path :: rstr
  p_bg_zoom :: rat
  p_bg_brightness :: rat
  p_bg_blur :: rat
  p_card_opacity :: rat
  p_accent_rgb :: "u32 option"
  p_fg_rgb :: "u32 option"

definition default_prefs :: prefs where
  "default_prefs = \<lparr>p_theme = System, p_hotkey = DEFAULT_HOTKEY, p_bg_path = [], p_bg_zoom = 1,
     p_bg_brightness = 1, p_bg_blur = 0, p_card_opacity = 1, p_accent_rgb = None, p_fg_rgb = None\<rparr>"

definition prefs_path :: "platform_dirs \<Rightarrow> rstr option" where
  "prefs_path d = map_option (\<lambda>c. path_join (path_join c (lit ''copysync'')) (lit ''gui.json'')) (pd_config d)"

text \<open>Keep the old value of a field that is missing or of another type.\<close>

definition adopt :: "json \<Rightarrow> string \<Rightarrow> (json \<Rightarrow> 'a option) \<Rightarrow> ('a \<Rightarrow> prefs \<Rightarrow> prefs) \<Rightarrow> prefs \<Rightarrow> prefs" where
  "adopt v k as f p = (case Option.bind (json_get v k) as of Some x \<Rightarrow> f x p | None \<Rightarrow> p)"

definition rgb_mask :: "u64 \<Rightarrow> u32" where
  "rgb_mask c = and (ucast c) 0x00FFFFFF"

definition prefs_of_json :: "json \<Rightarrow> prefs" where
  "prefs_of_json v =
     (adopt v ''fg_rgb'' as_u64 (\<lambda>c p. p\<lparr>p_fg_rgb := Some (rgb_mask c)\<rparr>)
     (adopt v ''accent_rgb'' as_u64 (\<lambda>c p. p\<lparr>p_accent_rgb := Some (rgb_mask c)\<rparr>)
     (adopt v ''card_opacity'' as_f64 (\<lambda>x p. p\<lparr>p_card_opacity := x\<rparr>)
     (adopt v ''bg_blur'' as_f64 (\<lambda>x p. p\<lparr>p_bg_blur := x\<rparr>)
     (adopt v ''bg_brightness'' as_f64 (\<lambda>x p. p\<lparr>p_bg_brightness := x\<rparr>)
     (adopt v ''bg_zoom'' as_f64 (\<lambda>x p. p\<lparr>p_bg_zoom := x\<rparr>)
     (adopt v ''bg_path'' as_str (\<lambda>s p. p\<lparr>p_bg_path := s\<rparr>)
     (adopt v ''hotkey'' as_str (\<lambda>s p. if trim s = [] then p else p\<lparr>p_hotkey := s\<rparr>)
     (adopt v ''theme'' as_str (\<lambda>s p. p\<lparr>p_theme := theme_of_str s\<rparr>) default_prefs)))))))))"

text \<open>A file that is missing or is not JSON gives the defaults.\<close>

definition load_prefs :: "crates \<Rightarrow> platform_dirs \<Rightarrow> files \<Rightarrow> prefs" where
  "load_prefs cr d fs =
     (case Option.bind (prefs_path d) fs of
        None \<Rightarrow> default_prefs
      | Some content \<Rightarrow> (case json_from_slice cr content of Some v \<Rightarrow> prefs_of_json v | None \<Rightarrow> default_prefs))"

definition rgb_json :: "u32 option \<Rightarrow> json" where
  "rgb_json c = (case c of Some w \<Rightarrow> JInt (uint w) | None \<Rightarrow> JNull)"

definition prefs_to_json :: "prefs \<Rightarrow> json" where
  "prefs_to_json p = JObj [
     (''theme'', JStr (theme_str (p_theme p))), (''hotkey'', JStr (p_hotkey p)), (''bg_path'', JStr (p_bg_path p)),
     (''bg_zoom'', JFloat (p_bg_zoom p)), (''bg_brightness'', JFloat (p_bg_brightness p)),
     (''bg_blur'', JFloat (p_bg_blur p)), (''card_opacity'', JFloat (p_card_opacity p)),
     (''accent_rgb'', rgb_json (p_accent_rgb p)), (''fg_rgb'', rgb_json (p_fg_rgb p))]"

definition save_prefs :: "crates \<Rightarrow> platform_dirs \<Rightarrow> write_result \<Rightarrow> prefs \<Rightarrow> files \<Rightarrow> files" where
  "save_prefs cr d wr p fs =
     (case prefs_path d of
        None \<Rightarrow> fs
      | Some path \<Rightarrow>
          (let body = (case json_to_vec_pretty cr (prefs_to_json p) of Some b \<Rightarrow> b | None \<Rightarrow> [])
           in case wr of Written \<Rightarrow> fs(path \<mapsto> body) | WriteFailed left \<Rightarrow> fs(path := left)))"

subsection \<open>Wallpaper\<close>

definition BG_MAX_EDGE :: nat where
  "BG_MAX_EDGE = 1600"

record bg_image =
  b_path :: rstr
  b_zoom :: rat
  b_brightness :: rat
  b_blur :: rat
  b_card_opacity :: rat
  b_texture :: "image option"
  b_built_from :: "(rstr \<times> nat \<times> nat) option"

definition bg_from_prefs :: "prefs \<Rightarrow> bg_image" where
  "bg_from_prefs p = \<lparr>b_path = p_bg_path p, b_zoom = p_bg_zoom p, b_brightness = p_bg_brightness p,
     b_blur = p_bg_blur p, b_card_opacity = p_card_opacity p, b_texture = None, b_built_from = None\<rparr>"

definition clamp :: "rat \<Rightarrow> rat \<Rightarrow> rat \<Rightarrow> rat" where
  "clamp lo hi x = (if x < lo then lo else if x > hi then hi else x)"

text \<open>\<open>round\<close>, halves away from zero, and the cast to an unsigned integer, which takes a negative number
  to 0.\<close>

definition round_away :: "rat \<Rightarrow> int" where
  "round_away x = (if x \<ge> 0 then \<lfloor>x + 1 / 2\<rfloor> else - \<lfloor>1 / 2 - x\<rfloor>)"

definition round_nat :: "rat \<Rightarrow> nat" where
  "round_nat x = nat (round_away x)"

definition decode_key :: "bg_image \<Rightarrow> rstr \<times> nat \<times> nat" where
  "decode_key b = (b_path b, round_nat (clamp 0 4 (b_brightness b) * 100), round_nat (clamp 0 40 (b_blur b) * 10))"

definition needs_rebuild :: "bg_image \<Rightarrow> bool" where
  "needs_rebuild b =
     (if b_path b = [] then b_texture b \<noteq> None
      else (case b_built_from b of None \<Rightarrow> True | Some key \<Rightarrow> key \<noteq> decode_key b))"

definition bg_clear :: "bg_image \<Rightarrow> bg_image" where
  "bg_clear b = b\<lparr>b_path := [], b_texture := None, b_built_from := None\<rparr>"

text \<open>The image crate: reading and decoding a file, resizing, blurring.\<close>

record imageops =
  im_open :: "rstr \<Rightarrow> image option"
  im_resize :: "image \<Rightarrow> nat \<Rightarrow> nat \<Rightarrow> image"
  im_blur :: "image \<Rightarrow> rat \<Rightarrow> image"

text \<open>Scale the colour bytes of every pixel, not its fourth byte.\<close>

fun brighten :: "rat \<Rightarrow> bytes \<Rightarrow> bytes" where
  "brighten f (r # g # b # a # rest) =
     (let s = (\<lambda>x. of_nat (nat (min 255 (max 0 (round_away (of_nat (unat x) * f)))))) in s r # s g # s b # a # brighten f rest)"
| "brighten f rest = rest"

definition decode_wallpaper :: "imageops \<Rightarrow> rstr \<Rightarrow> rat \<Rightarrow> rat \<Rightarrow> image option" where
  "decode_wallpaper im path brightness blur =
     map_option (\<lambda>img.
       (let longest = max (width img) (height img);
            scaled = (if longest > BG_MAX_EDGE
                      then (let scale = of_nat BG_MAX_EDGE / of_nat longest;
                                nw = max (round_nat (of_nat (width img) * scale)) 1;
                                nh = max (round_nat (of_nat (height img) * scale)) 1
                            in im_resize im img nw nh)
                      else img);
            lit_up = (if \<bar>brightness - 1\<bar> > 1 / 2 ^ 23 then scaled\<lparr>rgba := brighten brightness (rgba scaled)\<rparr> else scaled)
        in if blur > 1 / 20 then im_blur im lit_up blur else lit_up)) (im_open im path)"

definition has_wallpaper :: "bg_image \<Rightarrow> bool" where
  "has_wallpaper b \<longleftrightarrow> b_path b \<noteq> [] \<and> b_texture b \<noteq> None"

text \<open>The palette of a frame: the theme's, the two overrides, and translucent surfaces over a
  wallpaper.\<close>

definition app_palette :: "bool \<Rightarrow> theme_mode \<Rightarrow> u32 option \<Rightarrow> u32 option \<Rightarrow> bg_image \<Rightarrow> palette" where
  "app_palette system_dark mode accent fg b =
     (let p0 = palette_resolve system_dark mode;
          p1 = (case accent of Some rgb \<Rightarrow> p0\<lparr>pl_accent := hex rgb\<rparr> | None \<Rightarrow> p0);
          p2 = (case fg of Some rgb \<Rightarrow> p1\<lparr>pl_fg := hex rgb\<rparr> | None \<Rightarrow> p1)
      in if has_wallpaper b \<and> b_card_opacity b < 999 / 1000
         then (let a = of_nat (round_nat (clamp 0 1 (b_card_opacity b) * 255))
               in p2\<lparr>pl_panel := (pl_panel p2)\<lparr>c_a := a\<rparr>, pl_panel2 := (pl_panel2 p2)\<lparr>c_a := a\<rparr>\<rparr>)
         else p2)"

subsection \<open>Texts\<close>

text \<open>The Korean text for a label of the classifier, as code points; another label is shown as it is.\<close>

definition reason_ko :: "rstr \<Rightarrow> rstr" where
  "reason_ko l =
     (if l = lit ''password-like'' then [0xbe44, 0xbc00, 0xbc88, 0xd638, 0xb85c, 0x20, 0xcd94, 0xc815]
      else if l = lit ''payment card'' then [0xce74, 0xb4dc, 0xbc88, 0xd638, 0xb85c, 0x20, 0xcd94, 0xc815]
      else if l = lit ''private key'' then [0xac1c, 0xc778, 0x20, 0xd0a4]
      else if l = lit ''OTP secret'' then [0x4f, 0x54, 0x50, 0x2f, 0x32, 0x46, 0x41, 0x20, 0xbe44, 0xbc00]
      else if l = lit ''custom pattern'' then [0xc0ac, 0xc6a9, 0xc790, 0x20, 0xd328, 0xd134]
      else l)"

definition kind_tag_label :: "rstr \<Rightarrow> rstr" where
  "kind_tag_label k =
     (if k = lit ''image'' then [0x1f5bc, 0x20, 0xc774, 0xbbf8, 0xc9c0]
      else if k = lit ''file'' then [0x1f4ce, 0x20, 0xd30c, 0xc77c]
      else [0x1f4dd, 0x20, 0xd14d, 0xc2a4, 0xd2b8])"

text \<open>A size with one decimal; like \<open>human\<close> exact below \<open>2 ^ 53\<close> bytes.\<close>

definition human_size :: "int \<Rightarrow> rstr" where
  "human_size n =
     (if n \<le> 0 then lit ''0 B''
      else (let b = nat n;
                tenths = (\<lambda>u. let t = round_half_even (10 * b) u in show_nat (t div 10) @ lit ''.'' @ show_nat (t mod 10))
            in if b \<ge> 1024 * 1024 then tenths (1024 * 1024) @ lit '' MB''
               else if b \<ge> 1024 then tenths 1024 @ lit '' KB''
               else show_nat b @ lit '' B''))"

definition value_or_dash :: "rstr \<Rightarrow> rstr" where
  "value_or_dash s = (if s = [] then [0x2014] else s)"

definition truncate_chars :: "rstr \<Rightarrow> nat \<Rightarrow> rstr" where
  "truncate_chars s n = (if length s \<le> n then s else take n s @ [0x2026])"

definition two_digits :: "nat \<Rightarrow> rstr" where
  "two_digits n = [48 + n div 10, 48 + n mod 10]"

text \<open>The clock as hours, minutes and seconds; \<open>secs\<close> is what the system clock says, 0 when it cannot
  be read.\<close>

definition chrono_lite_now :: "nat \<Rightarrow> rstr" where
  "chrono_lite_now secs = two_digits (secs div 3600 mod 24) @ [58] @ two_digits (secs div 60 mod 60) @ [58] @ two_digits (secs mod 60)"

subsection \<open>Facts\<close>

lemma rgb_mask_eq: "(0xFFFFFF :: u32) = mask 24"
  by (simp add: mask_eq_exp_minus_1)

lemma rgb24_hex: "rgb24 (hex w) = and w 0xFFFFFF"
  unfolding rgb_mask_eq
proof (rule bit_word_eqI)
  fix n assume "n < LENGTH(32)"
  consider "n < 8" | m where "n = 8 + m" "m < 8" | m where "n = 16 + m"
    by (metis add.commute le_Suc_ex less_diff_conv linorder_not_less nat_add_left_cancel_less numeral_Bit0)
  then show "bit (rgb24 (hex w)) n \<longleftrightarrow> bit (and w (mask 24)) n"
    by cases (auto simp: rgb24_def hex_def bit_simps)
qed

lemma rgb24_masked: "and (rgb24 c) 0xFFFFFF = rgb24 c"
  unfolding rgb_mask_eq
  by (rule bit_word_eqI) (auto simp: rgb24_def bit_simps dest: bit_imp_le_length)

lemma theme_roundtrip: "theme_of_str (theme_str m) = m"
  by (cases m) (simp_all add: theme_of_str_def)

text \<open>A colour as the GUI keeps it: without an alpha byte.\<close>

definition rgb_ok :: "u32 option \<Rightarrow> bool" where
  "rgb_ok c \<longleftrightarrow> (case c of Some w \<Rightarrow> and w 0xFFFFFF = w | None \<Rightarrow> True)"

lemma rgb_mask_ucast: "and w 0xFFFFFF = w \<Longrightarrow> rgb_mask (ucast w) = w"
proof -
  have "ucast (ucast w :: u64) = w" by (rule bit_word_eqI) (simp add: bit_simps)
  then show "and w 0xFFFFFF = w \<Longrightarrow> rgb_mask (ucast w) = w" by (simp add: rgb_mask_def)
qed

lemma u64_range_u32: "u64_range (uint (w :: u32))"
  using uint_lt2p [of w] by (simp add: u64_range_def)

lemma adopt_str: "json_get v k = Some (JStr s) \<Longrightarrow> adopt v k as_str f p = f s p"
  by (simp add: adopt_def)

lemma adopt_float: "json_get v k = Some (JFloat q) \<Longrightarrow> adopt v k as_f64 f p = f q p"
  by (simp add: adopt_def)

lemma adopt_rgb:
  "json_get v k = Some (rgb_json c) \<Longrightarrow> rgb_ok c \<Longrightarrow>
     adopt v k as_u64 (\<lambda>x. f (rgb_mask x)) p = (case c of Some w \<Rightarrow> f w p | None \<Rightarrow> p)"
  by (cases c) (simp_all add: adopt_def rgb_json_def u64_range_u32 rgb_ok_def rgb_mask_ucast)

lemma prefs_json_roundtrip:
  assumes "rgb_ok (p_accent_rgb p)" and "rgb_ok (p_fg_rgb p)"
  shows "prefs_of_json (prefs_to_json p) = (if trim (p_hotkey p) = [] then p\<lparr>p_hotkey := DEFAULT_HOTKEY\<rparr> else p)"
proof -
  let ?v = "prefs_to_json p"
  have get: "json_get ?v ''theme'' = Some (JStr (theme_str (p_theme p)))" "json_get ?v ''hotkey'' = Some (JStr (p_hotkey p))"
    "json_get ?v ''bg_path'' = Some (JStr (p_bg_path p))" "json_get ?v ''bg_zoom'' = Some (JFloat (p_bg_zoom p))"
    "json_get ?v ''bg_brightness'' = Some (JFloat (p_bg_brightness p))" "json_get ?v ''bg_blur'' = Some (JFloat (p_bg_blur p))"
    "json_get ?v ''card_opacity'' = Some (JFloat (p_card_opacity p))"
    "json_get ?v ''accent_rgb'' = Some (rgb_json (p_accent_rgb p))" "json_get ?v ''fg_rgb'' = Some (rgb_json (p_fg_rgb p))"
    by (simp_all add: prefs_to_json_def json_get_def)
  note accent = adopt_rgb [where f = "\<lambda>c p. p\<lparr>p_accent_rgb := Some c\<rparr>", OF get(8) assms(1)]
    and fg = adopt_rgb [where f = "\<lambda>c p. p\<lparr>p_fg_rgb := Some c\<rparr>", OF get(9) assms(2)]
  have "prefs_of_json ?v = \<lparr>p_theme = p_theme p, p_hotkey = (if trim (p_hotkey p) = [] then DEFAULT_HOTKEY else p_hotkey p),
      p_bg_path = p_bg_path p, p_bg_zoom = p_bg_zoom p, p_bg_brightness = p_bg_brightness p, p_bg_blur = p_bg_blur p,
      p_card_opacity = p_card_opacity p, p_accent_rgb = p_accent_rgb p, p_fg_rgb = p_fg_rgb p\<rparr>"
    unfolding prefs_of_json_def adopt_str [OF get(1)] adopt_str [OF get(2)] adopt_str [OF get(3)] adopt_float [OF get(4)]
      adopt_float [OF get(5)] adopt_float [OF get(6)] adopt_float [OF get(7)] accent fg
    by (simp add: theme_roundtrip default_prefs_def split: option.split)
  then show ?thesis by simp
qed

text \<open>Preferences survive a restart of the GUI: what is saved is loaded again, field by field. Only a blank
  hotkey comes back as the default one. Any other file, or none, gives the defaults without an
  error.\<close>

theorem prefs_roundtrip:
  assumes "json_inverts cr" and "prefs_path d = Some path" and "json_to_vec_pretty cr (prefs_to_json p) \<noteq> None"
    and "rgb_ok (p_accent_rgb p)" and "rgb_ok (p_fg_rgb p)"
  shows "load_prefs cr d (save_prefs cr d Written p fs) = (if trim (p_hotkey p) = [] then p\<lparr>p_hotkey := DEFAULT_HOTKEY\<rparr> else p)
    \<and> (\<forall>fs'. fs' path = None \<or> json_from_slice cr (the (fs' path)) = None \<longrightarrow> load_prefs cr d fs' = default_prefs)"
proof -
  obtain b where b: "json_to_vec_pretty cr (prefs_to_json p) = Some b" using assms(3) by auto
  then have "json_from_slice cr b = Some (prefs_to_json p)" using assms(1) by (auto simp: json_inverts_def)
  with b assms(2) prefs_json_roundtrip [OF assms(4,5)]
  have "load_prefs cr d (save_prefs cr d Written p fs) = (if trim (p_hotkey p) = [] then p\<lparr>p_hotkey := DEFAULT_HOTKEY\<rparr> else p)"
    by (simp add: load_prefs_def save_prefs_def)
  then show ?thesis using assms(2) by (auto simp: load_prefs_def split: option.splits)
qed

definition sample_prefs :: prefs where
  "sample_prefs = default_prefs\<lparr>p_theme := Dark, p_bg_zoom := 3 / 2, p_accent_rgb := Some 0x102030\<rparr>"

definition prefs_crates :: crates where
  "prefs_crates = sample_crates\<lparr>json_to_vec := (\<lambda>_. None),
     json_to_vec_pretty := (\<lambda>j. if j = prefs_to_json sample_prefs then Some [1] else None),
     json_from_slice := (\<lambda>b. if b = [1] then Some (prefs_to_json sample_prefs) else None)\<rparr>"

definition gui_dirs :: platform_dirs where
  "gui_dirs = \<lparr>pd_config = Some (lit ''/c''), pd_data = None, pd_temp = lit ''/t''\<rparr>"

theorem prefs_roundtrip_witness:
  "load_prefs prefs_crates gui_dirs (save_prefs prefs_crates gui_dirs Written sample_prefs Map.empty) = sample_prefs
   \<and> load_prefs prefs_crates gui_dirs Map.empty = default_prefs"
proof -
  have j: "json_inverts prefs_crates" by (auto simp: json_inverts_def prefs_crates_def split: if_splits)
  have path: "prefs_path gui_dirs = Some (path_join (path_join (lit ''/c'') (lit ''copysync'')) (lit ''gui.json''))"
    by (simp add: prefs_path_def gui_dirs_def del: lit_simps)
  have v: "json_to_vec_pretty prefs_crates (prefs_to_json sample_prefs) \<noteq> None" by (simp add: prefs_crates_def)
  have c: "rgb_ok (p_accent_rgb sample_prefs)" "rgb_ok (p_fg_rgb sample_prefs)"
    by (simp_all add: rgb_ok_def sample_prefs_def default_prefs_def)
  have h: "trim (p_hotkey sample_prefs) \<noteq> []"
    by (simp add: sample_prefs_def default_prefs_def DEFAULT_HOTKEY_def trim_def trim_end_by_def is_whitespace_def)
  from prefs_roundtrip [OF j path v c, where fs = Map.empty] h show ?thesis by simp
qed

subsection \<open>The wallpaper\<close>

lemma round_nat_le: "x \<le> of_nat n \<Longrightarrow> round_nat x \<le> n"
proof -
  assume x: "x \<le> of_nat n"
  show ?thesis
  proof (cases "x \<ge> 0")
    case True
    have "x + 1 / 2 < of_int (int n + 1)" using x by simp
    then have "\<lfloor>x + 1 / 2\<rfloor> < int n + 1" by (simp only: floor_less_iff)
    then show ?thesis using True by (simp add: round_nat_def round_away_def)
  next
    case False
    then have "0 \<le> \<lfloor>1 / 2 - x\<rfloor>" by simp
    then show ?thesis using False by (simp add: round_nat_def round_away_def)
  qed
qed

lemma scaled_edge:
  assumes "(0::nat) < longest" and "w \<le> longest"
  shows "max (round_nat (of_nat w * (of_nat BG_MAX_EDGE / of_nat longest))) 1 \<le> BG_MAX_EDGE"
proof -
  have "of_nat w * (of_nat BG_MAX_EDGE / of_nat longest) \<le> (of_nat BG_MAX_EDGE :: rat)"
    using assms by (simp add: field_simps BG_MAX_EDGE_def)
  then show ?thesis using round_nat_le by (auto simp: BG_MAX_EDGE_def)
qed

end
