(* ===== verification/Gui.thy ===== *)
theory Gui
  imports Gui_Prefs
begin

text \<open>
  The desktop GUI (\<open>gui/src/main.rs\<close>) as a client of the agent: the one-shot request, the
  subscribed event thread, the application state with every handler, and one frame of
  \<open>update\<close>.

  The agent is behind \<open>ask\<close>, the first argument of every operation that talks to it: it takes
  a request and the agent's world and returns the world after it with what came back over the
  socket. A frame gets its input (clicks, drained channels, clocks) as a record; one frame carries
  at most one click or edit. The log file is a copy of the log and is not modelled.
\<close>

subsection \<open>Transport\<close>

text \<open>What one connection yields: no connection, a failed write, no reply line, a line that is not a
  message, or a message.\<close>

datatype wire = NoAgent | NotWritten | NoReply | Garbled | Line outbound

datatype gui_err =
    ErrConnect | ErrWrite | ErrNoReply | ErrParse | ErrEvent | ErrAgent agent_msg | ErrReply

type_synonym 'w ask = "request \<Rightarrow> 'w \<Rightarrow> 'w \<times> wire"

fun reply_of :: "wire \<Rightarrow> gui_err + response" where
  "reply_of NoAgent = Inl ErrConnect"
| "reply_of NotWritten = Inl ErrWrite"
| "reply_of NoReply = Inl ErrNoReply"
| "reply_of Garbled = Inl ErrParse"
| "reply_of (Line (Reply r)) = Inr r"
| "reply_of (Line (Push _)) = Inl ErrEvent"

definition gui_request :: "'w ask \<Rightarrow> request \<Rightarrow> 'w \<Rightarrow> 'w \<times> (gui_err + response)" where
  "gui_request ask r w = (let (w', l) = ask r w in (w', reply_of l))"

definition request_ok :: "'w ask \<Rightarrow> request \<Rightarrow> 'w \<Rightarrow> 'w \<times> (gui_err + response)" where
  "request_ok ask r w =
     (let (w', x) = gui_request ask r w
      in (w', case x of Inr (RError m) \<Rightarrow> Inl (ErrAgent m) | other \<Rightarrow> other))"

text \<open>\<open>ensure_agent\<close>: connect, or start the agent and try every 150 milliseconds for three seconds.
  \<open>tries\<close> are the outcomes of the connection attempts, \<open>spawned\<close> says whether the program exists and
  could be started.\<close>

definition spawn_agent_and_wait :: "bool \<Rightarrow> bool list \<Rightarrow> bool" where
  "spawn_agent_and_wait spawned tries \<longleftrightarrow> spawned \<and> (\<exists>b\<in>set tries. b)"

definition ensure_agent :: "bool \<Rightarrow> bool \<Rightarrow> bool list \<Rightarrow> bool" where
  "ensure_agent up spawned tries \<longleftrightarrow> up \<or> spawn_agent_and_wait spawned tries"

text \<open>The event channel of the GUI: events of the agent, and the notes of the event thread about its
  own connection.\<close>

datatype gui_event = FromAgent event | LinkNote

text \<open>\<open>subscribe_stream\<close>: what the lines of one subscribed connection put on the channel. \<open>None\<close> is a
  line that is not a message.\<close>

fun forward :: "outbound option \<Rightarrow> gui_event list" where
  "forward (Some (Push e)) = [FromAgent e]"
| "forward (Some (Reply _)) = []"
| "forward None = []"

definition subscribe_stream :: "outbound option list \<Rightarrow> gui_event list" where
  "subscribe_stream ls = concat (map forward ls)"

text \<open>\<open>event_loop\<close> over the connections it makes, one list of lines for each.\<close>

definition event_loop :: "outbound option list list \<Rightarrow> gui_event list" where
  "event_loop conns = concat (map (\<lambda>ls. subscribe_stream ls @ [LinkNote]) conns)"

subsection \<open>State\<close>

datatype tab = Connect | History | Settings | Debug

datatype toast_kind = Blocked | ToastError

record toast =
  t_kind :: toast_kind
  t_reason :: rstr
  t_preview :: "rstr + (msg + agent_msg)"
  t_spawned :: nat

text \<open>The lines of the debug log, one constructor per text of the source.\<close>

datatype gui_msg =
    LHotkeyManager | LHotkeyParse rstr | LHotkeyRegister | LNoManager | LHotkeyChanged rstr
  | LTray | LStarted | LQuit | LWallpaper nat nat | LWallpaperFailed
  | LHistoryFailed gui_err | LStatus | LRoster nat | LBlocked rstr | LClip rstr rstr
  | LReconnect u32 nat | LLink | LError "msg + agent_msg" | LNotify rstr msg | LCliplog clip_log
  | LDiscoverFailed gui_err | LAskedReconnect | LReconnectFailed gui_err
  | LPool rstr | LPoolFailed gui_err | LTextSent | LSendFailed gui_err
  | LFileSent rstr | LFileFailed gui_err | LTargets | LTargetsFailed gui_err
  | LRecopied | LRecopyFailed gui_err | LPrivacy bool | LMark bool | LTelemetry bool | LAutoClear u64
  | LWallpaperChosen | LWallpaperRemoved | LAutostart bool | LAutostartFailed
  | LPaired | LPairFailed gui_err

datatype pair_note = NoNote | Searching | FoundServers nat | SearchFailed gui_err | Pairing | PairOk | PairFail gui_err

text \<open>A worker thread's channel: still running, its result sent, or the thread gone without one.\<close>

datatype 'a worker = Running | Sent 'a | Gone

record gui =
  gu_status :: ipc_status
  gu_history :: "hist_row list"
  gu_roster :: "ipc_roster list"
  gu_log :: "(rstr \<times> gui_msg) list"
  gu_recording :: bool
  gu_toasts :: "toast list"
  gu_tab :: tab
  gu_send_text :: rstr
  gu_search_query :: rstr
  gu_target_all :: bool
  gu_selected_targets :: "rstr list"
  gu_pair_server :: rstr
  gu_pair_otp :: rstr
  gu_pair_name :: rstr
  gu_pair_pin :: rstr
  gu_pair_e2e :: rstr
  gu_pair_status :: pair_note
  gu_pair_rx :: "(request \<times> (gui_err + ipc_status) worker) option"
  gu_privacy_filter :: bool
  gu_mark_sensitive :: bool
  gu_telemetry :: bool
  gu_auto_clear_secs :: u64
  gu_discovered :: "found_server list"
  gu_discover_rx :: "(gui_err + found_server list) worker option"
  gu_discovering :: bool
  gu_theme_mode :: theme_mode
  gu_accent_override :: "u32 option"
  gu_fg_override :: "u32 option"
  gu_tray :: bool
  gu_hotkey_mgr :: bool
  gu_hotkey_current :: "nat option"
  gu_hotkey_input :: rstr
  gu_autostart_on :: bool
  gu_bg :: bg_image
  gu_bootstrapped :: bool
  gu_registered :: "nat list"
  gu_visible :: bool
  gu_exited :: bool
  gu_copied :: "rstr option"
  gu_files :: files

text \<open>The desktop under the GUI: the hotkey service (a hotkey is the number its spelling parses to),
  whether a tray icon can be made, the login entry, the image crate, and how a write of the
  preferences ends.\<close>

record gdesk =
  gd_mgr :: bool
  gd_parse :: "rstr \<Rightarrow> nat option"
  gd_grants :: "nat list \<Rightarrow> nat \<Rightarrow> bool"
  gd_releases :: "nat \<Rightarrow> bool"
  gd_tray :: bool
  gd_autostart :: bool
  gd_autoset :: bool
  gd_image :: imageops
  gd_crates :: crates
  gd_dirs :: platform_dirs
  gd_write :: write_result
  gd_secs :: nat

text \<open>The log keeps its last 800 lines.\<close>

definition log_push :: "rstr \<times> gui_msg \<Rightarrow> gui \<Rightarrow> gui" where
  "log_push l g = (let ls = gu_log g @ [l] in g\<lparr>gu_log := drop (length ls - 800) ls\<rparr>)"

definition logline :: "gdesk \<Rightarrow> bool \<Rightarrow> gui_msg \<Rightarrow> gui \<Rightarrow> gui" where
  "logline k force m g =
     (if \<not> force \<and> \<not> gu_recording g then g else log_push (chrono_lite_now (gd_secs k), m) g)"

definition prefs_snapshot :: "gui \<Rightarrow> prefs" where
  "prefs_snapshot g = \<lparr>p_theme = gu_theme_mode g, p_hotkey = gu_hotkey_input g, p_bg_path = b_path (gu_bg g),
     p_bg_zoom = b_zoom (gu_bg g), p_bg_brightness = b_brightness (gu_bg g), p_bg_blur = b_blur (gu_bg g),
     p_card_opacity = b_card_opacity (gu_bg g), p_accent_rgb = gu_accent_override g, p_fg_rgb = gu_fg_override g\<rparr>"

definition persist :: "gdesk \<Rightarrow> gui \<Rightarrow> gui" where
  "persist k g = g\<lparr>gu_files := save_prefs (gd_crates k) (gd_dirs k) (gd_write k) (prefs_snapshot g) (gu_files g)\<rparr>"

definition default_ipc_status :: ipc_status where
  "default_ipc_status = \<lparr>is_paired = False, is_connected = False, is_reconnecting = False, is_server = [],
     is_device = [], is_e2e = False, is_pool = [], is_pools = [], is_privacy_filter = False,
     is_mark_sensitive = False, is_auto_clear_secs = 0, is_telemetry = False\<rparr>"

text \<open>\<open>App::new\<close>: the preferences, the hotkey, and everything else empty. \<open>Inl\<close> is the line logged when the
  hotkey could not be registered.\<close>

definition init_hotkey :: "gdesk \<Rightarrow> rstr \<Rightarrow> gui_msg + nat" where
  "init_hotkey k spec =
     (if \<not> gd_mgr k then Inl LHotkeyManager
      else (case gd_parse k spec of
              None \<Rightarrow> Inl (LHotkeyParse spec)
            | Some hk \<Rightarrow> if gd_grants k [] hk then Inr hk else Inl LHotkeyRegister))"

definition app_new :: "gdesk \<Rightarrow> files \<Rightarrow> gui" where
  "app_new k fs =
     (let p = load_prefs (gd_crates k) (gd_dirs k) fs;
          hk = init_hotkey k (p_hotkey p);
          current = (case hk of Inr h \<Rightarrow> Some h | Inl _ \<Rightarrow> None);
          g = \<lparr>gu_status = default_ipc_status, gu_history = [], gu_roster = [], gu_log = [], gu_recording = False,
               gu_toasts = [], gu_tab = Connect, gu_send_text = [], gu_search_query = [], gu_target_all = True,
               gu_selected_targets = [], gu_pair_server = [], gu_pair_otp = [], gu_pair_name = lit ''desktop'',
               gu_pair_pin = [], gu_pair_e2e = [], gu_pair_status = NoNote, gu_pair_rx = None,
               gu_privacy_filter = True, gu_mark_sensitive = False, gu_telemetry = True, gu_auto_clear_secs = 0,
               gu_discovered = [], gu_discover_rx = None, gu_discovering = False, gu_theme_mode = p_theme p,
               gu_accent_override = p_accent_rgb p, gu_fg_override = p_fg_rgb p, gu_tray = False,
               gu_hotkey_mgr = gd_mgr k, gu_hotkey_current = current, gu_hotkey_input = p_hotkey p,
               gu_autostart_on = gd_autostart k, gu_bg = bg_from_prefs p, gu_bootstrapped = False,
               gu_registered = (case current of Some h \<Rightarrow> [h] | None \<Rightarrow> []), gu_visible = True, gu_exited = False,
               gu_copied = None, gu_files = fs\<rparr>
      in case hk of Inl m \<Rightarrow> logline k True m g | Inr _ \<Rightarrow> g)"

subsection \<open>Window, hotkey and wallpaper\<close>

definition show_window :: "gui \<Rightarrow> gui" where
  "show_window g = g\<lparr>gu_visible := True\<rparr>"

text \<open>The request to the agent is bounded by a deadline; its effect on the agent is whatever \<open>ask\<close> did.\<close>

definition really_quit :: "'w ask \<Rightarrow> gdesk \<Rightarrow> gui \<times> 'w \<Rightarrow> gui \<times> 'w" where
  "really_quit ask k gw =
     (let (g, w) = gw; (w', _) = gui_request ask ReqShutdown w in ((logline k True LQuit g)\<lparr>gu_exited := True\<rparr>, w'))"

definition apply_hotkey :: "gdesk \<Rightarrow> rstr \<Rightarrow> gui \<Rightarrow> gui" where
  "apply_hotkey k spec g =
     (if \<not> gu_hotkey_mgr g then logline k True LNoManager g
      else (case gd_parse k (trim spec) of
              None \<Rightarrow> logline k True (LHotkeyParse spec) g
            | Some hk \<Rightarrow>
                (let g1 = (case gu_hotkey_current g of
                             None \<Rightarrow> g
                           | Some old \<Rightarrow>
                               g\<lparr>gu_hotkey_current := None,
                                 gu_registered := (if gd_releases k old then filter (\<lambda>x. x \<noteq> old) (gu_registered g)
                                                  else gu_registered g)\<rparr>)
                 in if gd_grants k (gu_registered g1) hk
                    then (let g2 = persist k (g1\<lparr>gu_hotkey_current := Some hk, gu_registered := gu_registered g1 @ [hk],
                                                 gu_hotkey_input := trim spec\<rparr>)
                          in logline k True (LHotkeyChanged (gu_hotkey_input g2)) g2)
                    else logline k True LHotkeyRegister g1)))"

definition refresh_wallpaper :: "gdesk \<Rightarrow> gui \<Rightarrow> gui" where
  "refresh_wallpaper k g =
     (let b = gu_bg g in
      if \<not> needs_rebuild b then g
      else if b_path b = [] then g\<lparr>gu_bg := b\<lparr>b_texture := None, b_built_from := None\<rparr>\<rparr>
      else (let key = decode_key b in
            case decode_wallpaper (gd_image k) (b_path b) (b_brightness b) (b_blur b) of
              Some img \<Rightarrow> logline k False (LWallpaper (width img) (height img))
                            (g\<lparr>gu_bg := b\<lparr>b_texture := Some img, b_built_from := Some key\<rparr>\<rparr>)
            | None \<Rightarrow> logline k True LWallpaperFailed (g\<lparr>gu_bg := b\<lparr>b_texture := None, b_built_from := Some key\<rparr>\<rparr>)))"

subsection \<open>Reloading and events\<close>

definition reload_history :: "'w ask \<Rightarrow> gdesk \<Rightarrow> gui \<times> 'w \<Rightarrow> gui \<times> 'w" where
  "reload_history ask k gw =
     (let (g, w) = gw;
          q = (if trim (gu_search_query g) = [] then None else Some (trim (gu_search_query g)));
          (w', x) = request_ok ask (GetHistory q) w
      in (case x of
            Inr (RHistory l) \<Rightarrow> g\<lparr>gu_history := l\<rparr>
          | Inr _ \<Rightarrow> g
          | Inl e \<Rightarrow> logline k True (LHistoryFailed e) g, w'))"

definition adopt_status :: "ipc_status \<Rightarrow> gui \<Rightarrow> gui" where
  "adopt_status s g = g\<lparr>gu_privacy_filter := is_privacy_filter s, gu_mark_sensitive := is_mark_sensitive s,
     gu_telemetry := is_telemetry s, gu_auto_clear_secs := is_auto_clear_secs s, gu_status := s\<rparr>"

definition reload_status :: "'w ask \<Rightarrow> gui \<times> 'w \<Rightarrow> gui \<times> 'w" where
  "reload_status ask gw =
     (let (g, w) = gw; (w', x) = gui_request ask GetStatus w
      in (case x of Inr (RStatus s) \<Rightarrow> adopt_status s g | _ \<Rightarrow> g, w'))"

definition reload_roster :: "'w ask \<Rightarrow> gui \<times> 'w \<Rightarrow> gui \<times> 'w" where
  "reload_roster ask gw =
     (let (g, w) = gw; (w', x) = gui_request ask GetRoster w
      in (case x of Inr (RRoster r) \<Rightarrow> g\<lparr>gu_roster := r\<rparr> | _ \<Rightarrow> g, w'))"

definition push_toast :: "toast \<Rightarrow> gui \<Rightarrow> gui" where
  "push_toast t g = g\<lparr>gu_toasts := gu_toasts g @ [t]\<rparr>"

text \<open>One event of \<open>pump_events\<close>, at time \<open>now\<close> in milliseconds.\<close>

fun pump_event :: "'w ask \<Rightarrow> gdesk \<Rightarrow> nat \<Rightarrow> gui_event \<Rightarrow> gui \<times> 'w \<Rightarrow> gui \<times> 'w" where
  "pump_event ask k now (FromAgent (EStatus s)) (g, w) = (adopt_status s (logline k False LStatus g), w)"
| "pump_event ask k now (FromAgent (ERoster r)) (g, w) = ((logline k False (LRoster (length r)) g)\<lparr>gu_roster := r\<rparr>, w)"
| "pump_event ask k now (FromAgent (EClip c)) (g, w) =
     (case ci_sensitive c of
        Some reason \<Rightarrow>
          (push_toast \<lparr>t_kind = Blocked, t_reason = reason_ko reason,
             t_preview = Inl (case ci_text c of Some t \<Rightarrow> t | None \<Rightarrow> (case ci_name c of Some n \<Rightarrow> n | None \<Rightarrow> [])),
             t_spawned = now\<rparr> (logline k True (LBlocked reason) g), w)
      | None \<Rightarrow>
          (let g1 = logline k False (LClip (ci_direction c) (ci_kind c)) g
           in if gu_tab g1 = History then reload_history ask k (g1, w) else (g1, w)))"
| "pump_event ask k now (FromAgent (EReconnect n secs)) (g, w) = (logline k True (LReconnect n secs) g, w)"
| "pump_event ask k now (FromAgent (EError m)) (g, w) =
     (push_toast \<lparr>t_kind = ToastError, t_reason = [0xC624, 0xB958], t_preview = Inr m, t_spawned = now\<rparr>
        (logline k True (LError m) g), w)"
| "pump_event ask k now (FromAgent (ENotify title body)) (g, w) = (logline k False (LNotify title body) g, w)"
| "pump_event ask k now (FromAgent (ECliplog l)) (g, w) = (logline k False (LCliplog l) g, w)"
| "pump_event ask k now LinkNote (g, w) = (logline k True LLink g, w)"

definition pump_events :: "'w ask \<Rightarrow> gdesk \<Rightarrow> nat \<Rightarrow> gui_event list \<Rightarrow> gui \<times> 'w \<Rightarrow> gui \<times> 'w" where
  "pump_events ask k now evs gw = fold (pump_event ask k now) evs gw"

subsection \<open>Workers\<close>

definition start_discovery :: "gui \<Rightarrow> gui" where
  "start_discovery g =
     (if gu_discovering g then g
      else g\<lparr>gu_discovering := True, gu_pair_status := Searching, gu_discover_rx := Some Running\<rparr>)"

text \<open>The threads of \<open>start_discovery\<close> and \<open>do_pair\<close>, when they run.\<close>

definition discover_worker :: "'w ask \<Rightarrow> gui \<times> 'w \<Rightarrow> gui \<times> 'w" where
  "discover_worker ask gw =
     (let (g, w) = gw in
      if gu_discover_rx g = Some Running
      then (let (w', x) = gui_request ask DiscoverServers w;
                result = (case x of
                            Inr (RFound l) \<Rightarrow> Inr l
                          | Inr (RError m) \<Rightarrow> Inl (ErrAgent m)
                          | Inr _ \<Rightarrow> Inl ErrReply
                          | Inl e \<Rightarrow> Inl e)
            in (g\<lparr>gu_discover_rx := Some (Sent result)\<rparr>, w'))
      else (g, w))"

definition poll_discovery :: "gdesk \<Rightarrow> gui \<Rightarrow> gui" where
  "poll_discovery k g =
     (case gu_discover_rx g of
        None \<Rightarrow> g
      | Some (Sent (Inr l)) \<Rightarrow>
          g\<lparr>gu_discovered := l, gu_discovering := False, gu_discover_rx := None, gu_pair_status := FoundServers (length l)\<rparr>
      | Some (Sent (Inl e)) \<Rightarrow>
          logline k True (LDiscoverFailed e)
            (g\<lparr>gu_discovering := False, gu_discover_rx := None, gu_pair_status := SearchFailed e\<rparr>)
      | Some Running \<Rightarrow> g
      | Some Gone \<Rightarrow> g\<lparr>gu_discovering := False, gu_discover_rx := None\<rparr>)"

definition do_pair :: "gui \<Rightarrow> gui" where
  "do_pair g =
     (if gu_pair_rx g \<noteq> None then g
      else g\<lparr>gu_pair_status := Pairing,
             gu_pair_rx := Some (Pair (trim (gu_pair_server g)) (trim (gu_pair_otp g)) (trim (gu_pair_name g))
                                  (trim (gu_pair_pin g)) (gu_pair_e2e g), Running)\<rparr>)"

definition pair_worker :: "'w ask \<Rightarrow> gui \<times> 'w \<Rightarrow> gui \<times> 'w" where
  "pair_worker ask gw =
     (let (g, w) = gw in
      case gu_pair_rx g of
        Some (r, Running) \<Rightarrow>
          (let (w', x) = gui_request ask r w;
               result = (case x of
                           Inr (RPaired s) \<Rightarrow> Inr s
                         | Inr (RError m) \<Rightarrow> Inl (ErrAgent m)
                         | Inr _ \<Rightarrow> Inl ErrReply
                         | Inl e \<Rightarrow> Inl e)
           in (g\<lparr>gu_pair_rx := Some (r, Sent result)\<rparr>, w'))
      | _ \<Rightarrow> (g, w))"

definition poll_pair :: "'w ask \<Rightarrow> gdesk \<Rightarrow> gui \<times> 'w \<Rightarrow> gui \<times> 'w" where
  "poll_pair ask k gw =
     (let (g, w) = gw in
      case gu_pair_rx g of
        None \<Rightarrow> (g, w)
      | Some (r, Sent (Inr s)) \<Rightarrow>
          reload_roster ask (adopt_status s (logline k True LPaired (g\<lparr>gu_pair_rx := None, gu_pair_status := PairOk\<rparr>)), w)
      | Some (r, Sent (Inl e)) \<Rightarrow> (logline k True (LPairFailed e) (g\<lparr>gu_pair_rx := None, gu_pair_status := PairFail e\<rparr>), w)
      | Some (r, Running) \<Rightarrow> (g, w)
      | Some (r, Gone) \<Rightarrow> (g\<lparr>gu_pair_rx := None\<rparr>, w))"

subsection \<open>The tabs\<close>

datatype slider = Zoom | Brightness | Blur | Opacity

datatype action =
    AGoPair | AReconnect | APool rstr | AEditText rstr | ASendText | ASendFile rstr
  | ATargetAll | ATargetSome | ATick nat
  | AEditQuery rstr | ARefresh | ARecopy nat
  | APrivacy | AMark | ATelemetry | AAutoClear u64
  | AEditPair rstr rstr rstr rstr rstr | ADiscover | APair | AServer nat
  | ATheme theme_mode | AWallpaper rstr | ANoWallpaper | ASlider slider rat bool
  | AAccent color bool | AFg color bool | ADefaultColors
  | AAutostart | AEditHotkey rstr | AHotkey
  | ARecording | AClearLog
  | ATab tab

text \<open>A request whose answer is only logged: \<open>yes\<close> with what to do on success.\<close>

definition told :: "'w ask \<Rightarrow> gdesk \<Rightarrow> request \<Rightarrow> (gui \<Rightarrow> gui) \<Rightarrow> (gui_err \<Rightarrow> gui_msg) \<Rightarrow> gui \<times> 'w \<Rightarrow> gui \<times> 'w" where
  "told ask k r yes no gw =
     (let (g, w) = gw; (w', x) = request_ok ask r w
      in (case x of Inr _ \<Rightarrow> yes g | Inl e \<Rightarrow> logline k True (no e) g, w'))"

text \<open>A setting: the mirror is set first, the answer is ignored.\<close>

definition write_through :: "'w ask \<Rightarrow> gdesk \<Rightarrow> request \<Rightarrow> gui_msg \<Rightarrow> gui \<times> 'w \<Rightarrow> gui \<times> 'w" where
  "write_through ask k r m gw = (let (g, w) = gw; (w', _) = request_ok ask r w in (logline k True m g, w'))"

definition send_targets :: "'w ask \<Rightarrow> gdesk \<Rightarrow> gui \<times> 'w \<Rightarrow> gui \<times> 'w" where
  "send_targets ask k gw =
     told ask k (SetTargets (if gu_target_all (fst gw) then [] else gu_selected_targets (fst gw)))
       (logline k False LTargets) LTargetsFailed gw"

definition tab_connect :: "'w ask \<Rightarrow> gdesk \<Rightarrow> action \<Rightarrow> gui \<times> 'w \<Rightarrow> gui \<times> 'w" where
  "tab_connect ask k a gw =
     (let (g, w) = gw in
      case a of
        AGoPair \<Rightarrow>
          (if is_paired (gu_status g) then g else g\<lparr>gu_tab := Settings\<rparr>, w)
      | AReconnect \<Rightarrow>
          told ask k ReqReconnect (logline k True LAskedReconnect) LReconnectFailed gw
      | APool p \<Rightarrow>
          (if p \<in> set (is_pools (gu_status g)) \<and> p \<noteq> is_pool (gu_status g)
            then told ask k (ReqSetPool p)
                   (\<lambda>g. (logline k True (LPool p) g)\<lparr>gu_status := (gu_status g)\<lparr>is_pool := p\<rparr>\<rparr>) LPoolFailed (g, w)
            else (g, w))
      | AEditText t \<Rightarrow>
          (g\<lparr>gu_send_text := t\<rparr>, w)
      | ASendText \<Rightarrow>
          (if trim (gu_send_text g) = [] then (g, w)
            else told ask k (ReqSendText (gu_send_text g))
                   (\<lambda>g. (logline k True LTextSent g)\<lparr>gu_send_text := []\<rparr>) LSendFailed (g, w))
      | ASendFile p \<Rightarrow>
          told ask k (ReqSendFile p) (logline k True (LFileSent p)) LFileFailed gw
      | ATargetAll \<Rightarrow>
          (if gu_target_all g then (g, w) else send_targets ask k (g\<lparr>gu_target_all := True\<rparr>, w))
      | ATargetSome \<Rightarrow>
          (if gu_target_all g then send_targets ask k (g\<lparr>gu_target_all := False\<rparr>, w) else (g, w))
      | ATick n \<Rightarrow>
          (if gu_target_all g \<or> n \<ge> length (gu_roster g) then (g, w)
            else (let i = ir_id (gu_roster g ! n);
                      sel = gu_selected_targets g
                  in send_targets ask k
                       (g\<lparr>gu_selected_targets := (if i \<in> set sel then filter (\<lambda>x. x \<noteq> i) sel else sel @ [i])\<rparr>, w)))
      | _ \<Rightarrow> gw)"

definition recopyable :: "hist_row \<Rightarrow> bool" where
  "recopyable r \<longleftrightarrow> hr_kind r \<noteq> lit ''image'' \<and> hr_kind r \<noteq> lit ''file'' \<and> trim (hr_preview r) \<noteq> []"

definition tab_history :: "'w ask \<Rightarrow> gdesk \<Rightarrow> action \<Rightarrow> gui \<times> 'w \<Rightarrow> gui \<times> 'w" where
  "tab_history ask k a gw =
     (let (g, w) = gw in
      case a of
        AEditQuery q \<Rightarrow>
          (g\<lparr>gu_search_query := q\<rparr>, w)
      | ARefresh \<Rightarrow>
          reload_history ask k gw
      | ARecopy n \<Rightarrow>
          (if n < length (gu_history g) \<and> recopyable (gu_history g ! n)
            then told ask k (ReqSendText (hr_preview (gu_history g ! n))) (logline k True LRecopied) LRecopyFailed
                   (g\<lparr>gu_copied := Some (hr_preview (gu_history g ! n))\<rparr>, w)
            else (g, w))
      | _ \<Rightarrow> gw)"

fun set_slider :: "slider \<Rightarrow> rat \<Rightarrow> bg_image \<Rightarrow> bg_image" where
  "set_slider Zoom x b = b\<lparr>b_zoom := clamp 1 3 x\<rparr>"
| "set_slider Brightness x b = b\<lparr>b_brightness := clamp (3 / 10) 2 x\<rparr>"
| "set_slider Blur x b = b\<lparr>b_blur := clamp 0 20 x\<rparr>"
| "set_slider Opacity x b = b\<lparr>b_card_opacity := clamp (1 / 20) 1 x\<rparr>"

definition persist_if :: "bool \<Rightarrow> gdesk \<Rightarrow> gui \<Rightarrow> gui" where
  "persist_if released k g = (if released then persist k g else g)"

text \<open>The cards of the settings tab for the appearance and for the system.\<close>

definition settings_look :: "gdesk \<Rightarrow> action \<Rightarrow> gui \<Rightarrow> gui" where
  "settings_look k a g =
     (case a of
        ATheme m \<Rightarrow>
          (if m \<noteq> gu_theme_mode g then persist k (g\<lparr>gu_theme_mode := m\<rparr>) else g)
      | AWallpaper p \<Rightarrow>
          (logline k True LWallpaperChosen
              (persist k (g\<lparr>gu_bg := (gu_bg g)\<lparr>b_path := p, b_texture := None, b_built_from := None\<rparr>\<rparr>)))
      | ANoWallpaper \<Rightarrow>
          (if b_path (gu_bg g) = [] then g
            else logline k True LWallpaperRemoved (persist k (g\<lparr>gu_bg := bg_clear (gu_bg g)\<rparr>)))
      | ASlider s x released \<Rightarrow>
          (if b_path (gu_bg g) = [] then g else persist_if released k (g\<lparr>gu_bg := set_slider s x (gu_bg g)\<rparr>))
      | AAccent c committed \<Rightarrow>
          (persist_if committed k (g\<lparr>gu_accent_override := Some (rgb24 c)\<rparr>))
      | AFg c committed \<Rightarrow>
          (persist_if committed k (g\<lparr>gu_fg_override := Some (rgb24 c)\<rparr>))
      | ADefaultColors \<Rightarrow>
          (if gu_accent_override g = None \<and> gu_fg_override g = None then g
            else persist k (g\<lparr>gu_accent_override := None, gu_fg_override := None\<rparr>))
      | _ \<Rightarrow> g)"

definition settings_system :: "gdesk \<Rightarrow> action \<Rightarrow> gui \<Rightarrow> gui" where
  "settings_system k a g =
     (case a of
        AAutostart \<Rightarrow>
          (if gd_autoset k
            then logline k True (LAutostart (\<not> gu_autostart_on g)) (g\<lparr>gu_autostart_on := \<not> gu_autostart_on g\<rparr>)
            else logline k True LAutostartFailed (g\<lparr>gu_autostart_on := gd_autostart k\<rparr>))
      | AEditHotkey t \<Rightarrow>
          (g\<lparr>gu_hotkey_input := t\<rparr>)
      | AHotkey \<Rightarrow>
          (apply_hotkey k (gu_hotkey_input g) g)
      | _ \<Rightarrow> g)"

definition tab_settings :: "'w ask \<Rightarrow> gdesk \<Rightarrow> action \<Rightarrow> gui \<times> 'w \<Rightarrow> gui \<times> 'w" where
  "tab_settings ask k a gw =
     (let (g, w) = gw in
      case a of
        APrivacy \<Rightarrow>
          write_through ask k (SetPrivacyFilter (\<not> gu_privacy_filter g)) (LPrivacy (\<not> gu_privacy_filter g))
             (g\<lparr>gu_privacy_filter := \<not> gu_privacy_filter g\<rparr>, w)
      | AMark \<Rightarrow>
          write_through ask k (SetMarkSensitive (\<not> gu_mark_sensitive g)) (LMark (\<not> gu_mark_sensitive g))
             (g\<lparr>gu_mark_sensitive := \<not> gu_mark_sensitive g\<rparr>, w)
      | ATelemetry \<Rightarrow>
          write_through ask k (SetTelemetry (\<not> gu_telemetry g)) (LTelemetry (\<not> gu_telemetry g))
             (g\<lparr>gu_telemetry := \<not> gu_telemetry g\<rparr>, w)
      | AAutoClear secs \<Rightarrow>
          (if secs \<in> {0, 30, 60, 300} \<and> secs \<noteq> gu_auto_clear_secs g
            then write_through ask k (SetAutoClear secs) (LAutoClear secs) (g\<lparr>gu_auto_clear_secs := secs\<rparr>, w)
            else (g, w))
      | AEditPair s otp n p e \<Rightarrow>
          (g\<lparr>gu_pair_server := s, gu_pair_otp := otp, gu_pair_name := n, gu_pair_pin := p, gu_pair_e2e := e\<rparr>, w)
      | ADiscover \<Rightarrow>
          (start_discovery g, w)
      | APair \<Rightarrow>
          (do_pair g, w)
      | AServer n \<Rightarrow>
          (if n < length (gu_discovered g) then g\<lparr>gu_pair_server := fs_url (gu_discovered g ! n)\<rparr> else g, w)
      | _ \<Rightarrow> (settings_system k a (settings_look k a g), w))"

lemmas tab_settings_defs = tab_settings_def settings_look_def settings_system_def

text \<open>The debug tab. Copying the log, which only writes the clipboard, is left out.\<close>

definition tab_debug :: "action \<Rightarrow> gui \<Rightarrow> gui" where
  "tab_debug a g =
     (case a of ARecording \<Rightarrow> g\<lparr>gu_recording := \<not> gu_recording g\<rparr> | AClearLog \<Rightarrow> g\<lparr>gu_log := []\<rparr> | _ \<Rightarrow> g)"

definition tab_button :: "'w ask \<Rightarrow> gdesk \<Rightarrow> tab \<Rightarrow> gui \<times> 'w \<Rightarrow> gui \<times> 'w" where
  "tab_button ask k t gw =
     (let (g, w) = gw; g1 = g\<lparr>gu_tab := t\<rparr> in if t = History then reload_history ask k (g1, w) else (g1, w))"

subsection \<open>A frame\<close>

text \<open>The channels drained at the frame: ids of tray menu clicks, tray icon clicks (whether a left
  release), hotkey events (whether a press), the close button, the events, and the click.\<close>

record frame_in =
  f_now :: nat
  f_menu :: "rstr list"
  f_clicks :: "bool list"
  f_keys :: "bool list"
  f_close :: bool
  f_events :: "gui_event list"
  f_action :: "action option"

text \<open>Nothing runs after the process has exited.\<close>

definition alive :: "(gui \<times> 'w \<Rightarrow> gui \<times> 'w) \<Rightarrow> gui \<times> 'w \<Rightarrow> gui \<times> 'w" where
  "alive f gw = (if gu_exited (fst gw) then gw else f gw)"

definition on_menu :: "'w ask \<Rightarrow> gdesk \<Rightarrow> rstr \<Rightarrow> gui \<times> 'w \<Rightarrow> gui \<times> 'w" where
  "on_menu ask k i gw =
     (if i = lit ''cs.tray.open'' then (show_window (fst gw), snd gw)
      else if i = lit ''cs.tray.quit'' then really_quit ask k gw
      else gw)"

definition on_key :: "'w ask \<Rightarrow> gdesk \<Rightarrow> bool \<Rightarrow> gui \<times> 'w \<Rightarrow> gui \<times> 'w" where
  "on_key ask k pressed gw =
     (if pressed
      then (let (g, w) = reload_history ask k ((fst gw)\<lparr>gu_tab := History\<rparr>, snd gw) in (show_window g, w))
      else gw)"

definition pump_shell_events :: "'w ask \<Rightarrow> gdesk \<Rightarrow> frame_in \<Rightarrow> gui \<times> 'w \<Rightarrow> gui \<times> 'w" where
  "pump_shell_events ask k f gw =
     (let gw1 = fold (\<lambda>i. alive (on_menu ask k i)) (f_menu f) gw;
          gw2 = fold (\<lambda>b. alive (\<lambda>(g, w). (if b then show_window g else g, w))) (f_clicks f) gw1
      in fold (\<lambda>b. alive (on_key ask k b)) (f_keys f) gw2)"

definition ensure_tray :: "gdesk \<Rightarrow> gui \<Rightarrow> gui" where
  "ensure_tray k g = (if gu_tray g then g else if gd_tray k then g\<lparr>gu_tray := True\<rparr> else logline k True LTray g)"

definition bootstrap :: "'w ask \<Rightarrow> gdesk \<Rightarrow> gui \<times> 'w \<Rightarrow> gui \<times> 'w" where
  "bootstrap ask k gw =
     (let (g, w) = gw in
      if gu_bootstrapped g then gw
      else (let (g1, w1) = reload_history ask k (reload_roster ask (reload_status ask (g\<lparr>gu_bootstrapped := True\<rparr>, w)))
            in (logline k True LStarted g1, w1)))"

definition on_close :: "'w ask \<Rightarrow> gdesk \<Rightarrow> gui \<times> 'w \<Rightarrow> gui \<times> 'w" where
  "on_close ask k gw =
     (let (g, w) = gw in
      if gu_tray g \<or> gu_hotkey_current g \<noteq> None then (g\<lparr>gu_visible := False\<rparr>, w) else really_quit ask k (g, w))"

definition expire_toasts :: "nat \<Rightarrow> gui \<Rightarrow> gui" where
  "expire_toasts now g = g\<lparr>gu_toasts := filter (\<lambda>t. now - t_spawned t < 5000) (gu_toasts g)\<rparr>"

text \<open>The click goes to the top bar or to the tab that is shown.\<close>

definition act :: "'w ask \<Rightarrow> gdesk \<Rightarrow> action \<Rightarrow> gui \<times> 'w \<Rightarrow> gui \<times> 'w" where
  "act ask k a gw =
     (case a of
        ATab t \<Rightarrow> tab_button ask k t gw
      | _ \<Rightarrow> (case gu_tab (fst gw) of
                Connect \<Rightarrow> tab_connect ask k a gw
              | History \<Rightarrow> tab_history ask k a gw
              | Settings \<Rightarrow> tab_settings ask k a gw
              | Debug \<Rightarrow> (tab_debug a (fst gw), snd gw)))"

definition on_gui :: "(gui \<Rightarrow> gui) \<Rightarrow> gui \<times> 'w \<Rightarrow> gui \<times> 'w" where
  "on_gui f gw = (f (fst gw), snd gw)"

text \<open>\<open>update\<close>, up to the close button, and from there to the tabs.\<close>

definition frame_start :: "'w ask \<Rightarrow> gdesk \<Rightarrow> frame_in \<Rightarrow> gui \<times> 'w \<Rightarrow> gui \<times> 'w" where
  "frame_start ask k f gw =
     pump_shell_events ask k f (bootstrap ask k (on_gui (ensure_tray k) (on_gui (refresh_wallpaper k) gw)))"

definition frame_rest :: "'w ask \<Rightarrow> gdesk \<Rightarrow> frame_in \<Rightarrow> gui \<times> 'w \<Rightarrow> gui \<times> 'w" where
  "frame_rest ask k f gw =
     alive (on_gui (expire_toasts (f_now f)))
       (alive (poll_pair ask k)
         (alive (on_gui (poll_discovery k))
           (alive (pump_events ask k (f_now f) (f_events f)) gw)))"

definition gui_update :: "'w ask \<Rightarrow> gdesk \<Rightarrow> frame_in \<Rightarrow> gui \<times> 'w \<Rightarrow> gui \<times> 'w" where
  "gui_update ask k f gw =
     (let gw1 = frame_start ask k f gw;
          gw2 = (if f_close f then alive (on_close ask k) gw1 else gw1);
          gw3 = frame_rest ask k f gw2
      in case f_action f of Some a \<Rightarrow> alive (act ask k a) gw3 | None \<Rightarrow> gw3)"

text \<open>What happens to the GUI: a frame, a worker thread finishing its request, or dying.\<close>

datatype gui_input = Frame frame_in | DiscoverDone | PairDone | WorkersGone

definition worker_gone :: "'a worker \<Rightarrow> 'a worker" where
  "worker_gone x = (case x of Running \<Rightarrow> Gone | y \<Rightarrow> y)"

fun gui_step :: "'w ask \<Rightarrow> gdesk \<Rightarrow> gui_input \<Rightarrow> gui \<times> 'w \<Rightarrow> gui \<times> 'w" where
  "gui_step ask k (Frame f) gw = alive (gui_update ask k f) gw"
| "gui_step ask k DiscoverDone gw = alive (discover_worker ask) gw"
| "gui_step ask k PairDone gw = alive (pair_worker ask) gw"
| "gui_step ask k WorkersGone gw =
     alive (on_gui (\<lambda>g. g\<lparr>gu_discover_rx := map_option worker_gone (gu_discover_rx g),
                         gu_pair_rx := map_option (\<lambda>(r, x). (r, worker_gone x)) (gu_pair_rx g)\<rparr>)) gw"

end
