(* ===== verification/Gui_Look.thy ===== *)
theory Gui_Look
  imports Gui
begin

text \<open>
  What the desktop GUI paints (\<open>gui/src/main.rs\<close>): tints and blends of the palette's tokens, the
  widget style of a theme, the shared components, the backdrop with its scrim, the top bar and
  the toasts. Painting is modelled as the data handed to the toolkit: fills, strokes, radii,
  positions and texts. Colours are kept as they are given to \<open>from_rgba_unmultiplied\<close>.
\<close>

subsection \<open>Colours\<close>

definition tint :: "color \<Rightarrow> rat \<Rightarrow> color" where
  "tint c alpha = c\<lparr>c_a := of_nat (round_nat (clamp 0 1 alpha * 255))\<rparr>"

definition mix :: "rat \<Rightarrow> 8 word \<Rightarrow> 8 word \<Rightarrow> 8 word" where
  "mix a b over =
     of_nat (nat (min 255 (max 0 (round_away (of_nat (unat b) * (1 - a) + of_nat (unat over) * a)))))"

definition blend_over :: "color \<Rightarrow> color \<Rightarrow> rat \<Rightarrow> color" where
  "blend_over base over alpha =
     (let a = clamp 0 1 alpha
      in \<lparr>c_r = mix a (c_r base) (c_r over), c_g = mix a (c_g base) (c_g over), c_b = mix a (c_b base) (c_b over),
          c_a = 255\<rparr>)"

definition TRANSPARENT :: color where
  "TRANSPARENT = \<lparr>c_r = 0, c_g = 0, c_b = 0, c_a = 0\<rparr>"

subsection \<open>Widget style\<close>

record stroke =
  sk_width :: rat
  sk_color :: color

record widget_style =
  ws_bg_fill :: color
  ws_weak_bg_fill :: color
  ws_bg_stroke :: stroke
  ws_fg_stroke :: stroke
  ws_rounding :: rat

text \<open>The fields of the toolkit's style that the code sets; the others keep the toolkit's dark or light
  defaults, which \<open>vi_base_dark\<close> selects.\<close>

record visuals =
  vi_base_dark :: bool
  vi_dark_mode :: bool
  vi_override_text_color :: "color option"
  vi_window_fill :: color
  vi_panel_fill :: color
  vi_extreme_bg_color :: color
  vi_faint_bg_color :: color
  vi_window_stroke :: stroke
  vi_window_rounding :: rat
  vi_shadows :: bool
  vi_noninteractive :: widget_style
  vi_inactive :: widget_style
  vi_hovered :: widget_style
  vi_active :: widget_style
  vi_open :: widget_style
  vi_selection_fill :: color
  vi_selection_stroke :: stroke

definition line_of :: "color \<Rightarrow> stroke" where
  "line_of c = \<lparr>sk_width = 1, sk_color = c\<rparr>"

definition widget :: "color \<Rightarrow> stroke \<Rightarrow> stroke \<Rightarrow> widget_style" where
  "widget fill edge fg = \<lparr>ws_bg_fill = fill, ws_weak_bg_fill = fill, ws_bg_stroke = edge, ws_fg_stroke = fg, ws_rounding = 8\<rparr>"

definition palette_visuals :: "palette \<Rightarrow> visuals" where
  "palette_visuals p =
     (let line_stroke = line_of (pl_line p); fg_stroke = line_of (pl_fg p)
      in \<lparr>vi_base_dark = pl_dark p, vi_dark_mode = pl_dark p, vi_override_text_color = Some (pl_fg p),
          vi_window_fill = pl_bg p, vi_panel_fill = pl_bg p, vi_extreme_bg_color = pl_panel2 p,
          vi_faint_bg_color = pl_panel2 p, vi_window_stroke = line_stroke, vi_window_rounding = 8, vi_shadows = False,
          vi_noninteractive = widget (pl_panel p) line_stroke fg_stroke,
          vi_inactive = widget (pl_panel2 p) line_stroke fg_stroke,
          vi_hovered = widget (pl_panel2 p) (line_of (tint (pl_accent p) (45 / 100))) fg_stroke,
          vi_active = widget (pl_accent p) (line_of (pl_accent p)) (line_of (pl_on_accent p)),
          vi_open = widget (pl_panel p) line_stroke fg_stroke,
          vi_selection_fill = tint (pl_accent p) (16 / 100), vi_selection_stroke = line_of (pl_accent p)\<rparr>)"

text \<open>\<open>apply_theme\<close>: the style of the frame's palette.\<close>

definition apply_theme :: "bool \<Rightarrow> theme_mode \<Rightarrow> u32 option \<Rightarrow> u32 option \<Rightarrow> bg_image \<Rightarrow> visuals" where
  "apply_theme system_dark mode accent fg b = palette_visuals (app_palette system_dark mode accent fg b)"

subsection \<open>Components\<close>

record frame_style =
  fr_fill :: color
  fr_stroke :: "stroke option"
  fr_rounding :: rat
  fr_margin :: "rat \<times> rat"

record label_style =
  lb_strong :: bool
  lb_size :: "rat option"
  lb_color :: color

definition card :: "palette \<Rightarrow> frame_style" where
  "card p = \<lparr>fr_fill = pl_panel p, fr_stroke = Some (line_of (pl_line p)), fr_rounding = 10, fr_margin = (14, 12)\<rparr>"

definition card_title :: "palette \<Rightarrow> label_style" where
  "card_title p = \<lparr>lb_strong = True, lb_size = Some 14, lb_color = pl_fg p\<rparr>"

text \<open>The buttons, as a frame without a margin of its own and a label.\<close>

definition primary_button :: "palette \<Rightarrow> frame_style \<times> label_style" where
  "primary_button p =
     (\<lparr>fr_fill = pl_accent p, fr_stroke = Some (line_of (pl_accent p)), fr_rounding = 8, fr_margin = (0, 0)\<rparr>,
      \<lparr>lb_strong = True, lb_size = Some 13, lb_color = pl_on_accent p\<rparr>)"

definition secondary_button :: "palette \<Rightarrow> frame_style \<times> label_style" where
  "secondary_button p =
     (\<lparr>fr_fill = pl_panel2 p, fr_stroke = Some (line_of (pl_line p)), fr_rounding = 8, fr_margin = (0, 0)\<rparr>,
      \<lparr>lb_strong = False, lb_size = Some 13, lb_color = pl_fg p\<rparr>)"

definition ghost_button :: "palette \<Rightarrow> frame_style \<times> label_style" where
  "ghost_button p =
     (\<lparr>fr_fill = TRANSPARENT, fr_stroke = None, fr_rounding = 8, fr_margin = (0, 0)\<rparr>,
      \<lparr>lb_strong = False, lb_size = Some 13, lb_color = pl_fg p\<rparr>)"

text \<open>An unselected segment has no frame.\<close>

definition seg_item :: "palette \<Rightarrow> bool \<Rightarrow> frame_style option \<times> label_style" where
  "seg_item p selected =
     (if selected
      then (Some \<lparr>fr_fill = tint (pl_accent p) (18 / 100), fr_stroke = Some (line_of (tint (pl_accent p) (45 / 100))),
                  fr_rounding = 8, fr_margin = (10, 4)\<rparr>,
            \<lparr>lb_strong = True, lb_size = None, lb_color = pl_fg p\<rparr>)
      else (None, \<lparr>lb_strong = False, lb_size = None, lb_color = pl_muted p\<rparr>))"

definition status_pill :: "palette \<Rightarrow> color \<Rightarrow> frame_style \<times> label_style" where
  "status_pill p c =
     (\<lparr>fr_fill = tint c (if pl_dark p then 22 / 100 else 16 / 100), fr_stroke = Some (line_of (tint c (1 / 2))),
       fr_rounding = 8, fr_margin = (9, 3)\<rparr>,
      \<lparr>lb_strong = False, lb_size = Some (25 / 2), lb_color = c\<rparr>)"

definition kind_chip :: "palette \<Rightarrow> rstr \<Rightarrow> rstr \<times> frame_style \<times> label_style" where
  "kind_chip p k =
     (let c = tag_color p k
      in (kind_tag_label k,
          \<lparr>fr_fill = tint c (if pl_dark p then 18 / 100 else 14 / 100), fr_stroke = None, fr_rounding = 8, fr_margin = (7, 2)\<rparr>,
          \<lparr>lb_strong = False, lb_size = Some (23 / 2), lb_color = c\<rparr>))"

text \<open>The texts of the connection's state: connected, reconnecting, disconnected.\<close>

definition status_label :: "ipc_status \<Rightarrow> rstr" where
  "status_label s =
     (if is_connected s then [0xc5f0, 0xacb0, 0xb428]
      else if is_reconnecting s then [0xc7ac, 0xc5f0, 0xacb0, 0x20, 0xc911]
      else [0xc5f0, 0xacb0, 0x20, 0xb04a, 0xae40])"

record top_bar_view =
  tb_frame :: frame_style
  tb_pill_text :: rstr
  tb_pill :: "frame_style \<times> label_style"
  tb_tabs :: "(tab \<times> bool \<times> color) list"

text \<open>The tab buttons from right to left; the selected one has the text colour.\<close>

definition top_bar :: "palette \<Rightarrow> ipc_status \<Rightarrow> tab \<Rightarrow> top_bar_view" where
  "top_bar p s current =
     \<lparr>tb_frame = \<lparr>fr_fill = pl_panel p, fr_stroke = Some (line_of (pl_line p)), fr_rounding = 0, fr_margin = (12, 8)\<rparr>,
      tb_pill_text = status_label s,
      tb_pill = status_pill p (status_color p (is_connected s) (is_reconnecting s)),
      tb_tabs = map (\<lambda>t. (t, t = current, if t = current then pl_fg p else pl_muted p)) [Debug, Settings, History, Connect]\<rparr>"

text \<open>The line under the hotkey's input: the words for an active hotkey with the text of the input, or
  that none is registered.\<close>

definition hotkey_line :: "gui \<Rightarrow> rstr" where
  "hotkey_line g =
     (case gu_hotkey_current g of
        Some _ \<Rightarrow> [0xd65c, 0xc131, 0x3a, 0x20] @ gu_hotkey_input g
      | None \<Rightarrow> [0xb2e8, 0xcd95, 0xd0a4, 0x20, 0xbe44, 0xd65c, 0xc131, 0x20, 0x28, 0xb4f1, 0xb85d, 0x20, 0xc548, 0x20, 0xb428, 0x29])"

text \<open>The colours the two pickers start from.\<close>

definition swatches :: "bool \<Rightarrow> gui \<Rightarrow> color \<times> color" where
  "swatches system_dark g =
     (let base = palette_resolve system_dark (gu_theme_mode g)
      in (case gu_accent_override g of Some rgb \<Rightarrow> hex rgb | None \<Rightarrow> pl_accent base,
          case gu_fg_override g of Some rgb \<Rightarrow> hex rgb | None \<Rightarrow> pl_fg base))"

subsection \<open>Backdrop\<close>

definition SCRIM_ALPHA :: rat where
  "SCRIM_ALPHA = 55 / 100"

record backdrop =
  bd_uv_min :: "rat \<times> rat"
  bd_uv_max :: "rat \<times> rat"
  bd_scrim :: color

text \<open>The wallpaper over a rectangle of the given width and height: the part of the image that is
  shown, in fractions of its size, and the scrim above it.\<close>

definition paint_backdrop :: "bg_image \<Rightarrow> palette \<Rightarrow> rat \<Rightarrow> rat \<Rightarrow> backdrop option" where
  "paint_backdrop b p w h =
     (case b_texture b of
        None \<Rightarrow> None
      | Some t \<Rightarrow>
          (let tx = of_nat (width t); ty = of_nat (height t) in
           if tx \<le> 0 \<or> ty \<le> 0 then None
           else
             (let base = max (w / tx) (h / ty);
                  scale = base * max (b_zoom b) (5 / 100);
                  u = min (w / (tx * scale)) 1;
                  v = min (h / (ty * scale)) 1
              in Some \<lparr>bd_uv_min = (1 / 2 - u / 2, 1 / 2 - v / 2), bd_uv_max = (1 / 2 + u / 2, 1 / 2 + v / 2),
                       bd_scrim = (pl_bg p)\<lparr>c_a := of_nat (round_nat (SCRIM_ALPHA * 255))\<rparr>\<rparr>)))"

subsection \<open>Toasts\<close>

record toast_view =
  tv_pos :: "rat \<times> rat"
  tv_fill :: color
  tv_stroke :: color
  tv_title_color :: color
  tv_body_color :: color
  tv_heading :: rstr
  tv_chip :: "(rstr \<times> color) option"
  tv_preview :: "rstr option"

text \<open>One toast at index \<open>n\<close> from the newest, on a screen with the given centre and bottom; \<open>shown\<close>
  gives the text of a message.\<close>

definition toast_look :: "(msg + agent_msg \<Rightarrow> rstr) \<Rightarrow> palette \<Rightarrow> rat \<Rightarrow> rat \<Rightarrow> nat \<Rightarrow> toast \<Rightarrow> toast_view" where
  "toast_look shown p centre bottom n t =
     (let y = bottom - 70 - of_nat n * 86;
          is_error = (t_kind t = ToastError);
          preview = (case t_preview t of Inl s \<Rightarrow> s | Inr m \<Rightarrow> shown m)
      in \<lparr>tv_pos = (centre - 180, y),
          tv_fill = (if is_error then blend_over (pl_bg p) (pl_danger p) (if pl_dark p then 20 / 100 else 12 / 100)
                     else pl_toast_fill p),
          tv_stroke = (if is_error then tint (pl_danger p) (55 / 100) else pl_toast_stroke p),
          tv_title_color = (if is_error then pl_danger p else pl_toast_title p),
          tv_body_color = (if is_error then pl_fg p else pl_toast_body p),
          tv_heading = (if is_error then [0xc624, 0xb958]
                        else [0xb3d9, 0xae30, 0xd654, 0x20, 0xcc28, 0xb2e8, 0xb428]),
          tv_chip = (if is_error then None else Some (t_reason t, tint (pl_blocked_pink p) (40 / 100))),
          tv_preview = (if preview = [] then None else Some (truncate_chars preview 80))\<rparr>)"

definition blocked_toasts :: "(msg + agent_msg \<Rightarrow> rstr) \<Rightarrow> palette \<Rightarrow> rat \<Rightarrow> rat \<Rightarrow> toast list \<Rightarrow> toast_view list" where
  "blocked_toasts shown p centre bottom ts =
     map (\<lambda>(n, t). toast_look shown p centre bottom n t) (enumerate 0 (rev ts))"

subsection \<open>Legible over any wallpaper\<close>

lemma hex_opaque [simp]: "c_a (hex rgb) = 255"
  by (simp add: hex_def)

lemma palette_tokens:
  "pl_bg (app_palette sd m a f b) = pl_bg (palette_resolve sd m)" "pl_danger (app_palette sd m a f b) = pl_danger (palette_resolve sd m)"
  "pl_toast_fill (app_palette sd m a f b) = pl_toast_fill (palette_resolve sd m)"
  "pl_toast_title (app_palette sd m a f b) = pl_toast_title (palette_resolve sd m)"
  "pl_toast_body (app_palette sd m a f b) = pl_toast_body (palette_resolve sd m)"
  "c_a (pl_fg (app_palette sd m a f b)) = 255"
  by (simp_all add: app_palette_def palette_resolve_def Let_def DARK_def LIGHT_def split: option.split)

lemma tokens_opaque:
  "c_a (pl_danger (palette_resolve sd m)) = 255" "c_a (pl_toast_fill (palette_resolve sd m)) = 255"
  "c_a (pl_toast_title (palette_resolve sd m)) = 255" "c_a (pl_toast_body (palette_resolve sd m)) = 255"
  by (simp_all add: palette_resolve_def DARK_def LIGHT_def)

lemma toast_look_opaque:
  assumes "p = app_palette sd m a f b"
  shows "c_a (tv_fill (toast_look shown p x y n t)) = 255" "c_a (tv_title_color (toast_look shown p x y n t)) = 255"
    "c_a (tv_body_color (toast_look shown p x y n t)) = 255"
  unfolding assms by (simp_all add: toast_look_def Let_def blend_over_def palette_tokens tokens_opaque)

text \<open>A warning can always be read: whatever the theme, the chosen colours, the wallpaper and the
  opacity of the cards, every toast has a fully opaque ground with an opaque title and text, and
  the toasts are stacked 86 points apart from the newest at the bottom.\<close>

theorem toasts_legible:
  assumes "p = app_palette sd mode accent fg b" and "vs = blocked_toasts shown p x y ts"
  shows "length vs = length ts
    \<and> (\<forall>v\<in>set vs. c_a (tv_fill v) = 255 \<and> c_a (tv_title_color v) = 255 \<and> c_a (tv_body_color v) = 255)
    \<and> (\<forall>n<length vs. tv_pos (vs ! n) = (x - 180, y - 70 - of_nat n * 86))"
proof -
  have nth: "vs ! n = toast_look shown p x y n (rev ts ! n)" if "n < length ts" for n
    using that by (simp add: assms(2) blocked_toasts_def nth_enumerate_eq)
  have len: "length vs = length ts" by (simp add: assms(2) blocked_toasts_def)
  have "c_a (tv_fill v) = 255 \<and> c_a (tv_title_color v) = 255 \<and> c_a (tv_body_color v) = 255" if "v \<in> set vs" for v
    using that nth len toast_look_opaque [OF assms(1)] by (auto simp: in_set_conv_nth)
  moreover have "tv_pos (vs ! n) = (x - 180, y - 70 - of_nat n * 86)" if "n < length vs" for n
    using that nth len by (simp add: toast_look_def Let_def)
  ultimately show ?thesis using len by blast
qed

theorem toasts_legible_witness:
  "\<forall>v\<in>set (blocked_toasts (\<lambda>_. []) (app_palette True System (Some 0) (Some 0xFFFFFF)
       \<lparr>b_path = [1], b_zoom = 1, b_brightness = 1, b_blur = 0, b_card_opacity = 0,
        b_texture = Some \<lparr>width = 1, height = 1, rgba = [0, 0, 0, 0]\<rparr>, b_built_from = None\<rparr>) 260 680
       [\<lparr>t_kind = Blocked, t_reason = [1], t_preview = Inl [2], t_spawned = 0\<rparr>,
        \<lparr>t_kind = ToastError, t_reason = [], t_preview = Inl [], t_spawned = 0\<rparr>]).
     c_a (tv_fill v) = 255"
  using toasts_legible [OF refl refl, of "\<lambda>_. []" True System "Some 0" "Some 0xFFFFFF"
      "\<lparr>b_path = [1], b_zoom = 1, b_brightness = 1, b_blur = 0, b_card_opacity = 0,
        b_texture = Some \<lparr>width = 1, height = 1, rgba = [0, 0, 0, 0]\<rparr>, b_built_from = None\<rparr>" 260 680
      "[\<lparr>t_kind = Blocked, t_reason = [1], t_preview = Inl [2], t_spawned = 0\<rparr>,
        \<lparr>t_kind = ToastError, t_reason = [], t_preview = Inl [], t_spawned = 0\<rparr>]"]
  by blast

subsection \<open>What the settings show\<close>

text \<open>The pickers show the colours that are painted with.\<close>

lemma swatches_painted:
  "swatches sd g = (pl_accent p, pl_fg p)"
  if "p = app_palette sd (gu_theme_mode g) (gu_accent_override g) (gu_fg_override g) (gu_bg g)"
  unfolding that by (simp add: swatches_def app_palette_def Let_def split: option.split)

text \<open>A hotkey that is being typed is shown as the active one before it is applied.\<close>

lemma hotkey_line_shows_input:
  assumes "gu_hotkey_current g \<noteq> None"
  shows "hotkey_line (settings_system k (AEditHotkey t) g) = take 4 (hotkey_line g) @ t
    \<and> gu_hotkey_current (settings_system k (AEditHotkey t) g) = gu_hotkey_current g"
  using assms by (auto simp: hotkey_line_def settings_system_def)

subsection \<open>The wallpaper covers the window\<close>

lemma crop_fraction:
  assumes "0 < (w :: rat)" "0 < tx" "w / tx \<le> base" "1 \<le> z"
  shows "min (w / (tx * (base * z))) 1 * (tx * (base * z)) = w"
proof -
  have base: "0 < base" using assms(1-3) by (meson divide_pos_pos less_le_trans)
  have "w \<le> tx * base" using assms(2,3) by (simp add: field_simps)
  also have "\<dots> \<le> tx * base * z" using mult_left_mono [OF assms(4), of "tx * base"] assms(2) base by simp
  finally have "w / (tx * (base * z)) \<le> 1"
    using assms(2,4) base by (simp add: divide_le_eq_1 mult.assoc)
  then show ?thesis using assms(2,4) base by (simp add: min_absorb1)
qed

text \<open>The wallpaper fills the window without distortion: the part of the image that is shown lies
  within the image and is centred in it; from a zoom of 1, which is what the slider offers,
  the image is enlarged by the same factor on both axes and its shown part has exactly the
  size of the window; and the scrim over it has the same strength whatever the settings.\<close>

theorem backdrop_covers:
  assumes "paint_backdrop b p w h = Some d" and "b_texture b = Some t" and "0 < w" and "0 < h"
    and "bd_uv_min d = (x0, y0)" and "bd_uv_max d = (x1, y1)"
  shows "0 \<le> x0 \<and> x0 \<le> x1 \<and> x1 \<le> 1 \<and> x0 + x1 = 1 \<and> 0 \<le> y0 \<and> y0 \<le> y1 \<and> y1 \<le> 1 \<and> y0 + y1 = 1
    \<and> c_a (bd_scrim d) = 140
    \<and> (1 \<le> b_zoom b \<longrightarrow> (\<exists>scale > 0. (x1 - x0) * of_nat (width t) * scale = w \<and> (y1 - y0) * of_nat (height t) * scale = h))"
proof -
  define tx :: rat where "tx = of_nat (width t)"
  define ty :: rat where "ty = of_nat (height t)"
  define base where "base = max (w / tx) (h / ty)"
  define scale where "scale = base * max (b_zoom b) (5 / 100)"
  define u where "u = min (w / (tx * scale)) 1"
  define v where "v = min (h / (ty * scale)) 1"
  have pos: "0 < tx" "0 < ty"
    using assms(1,2) by (auto simp: paint_backdrop_def Let_def tx_def ty_def split: if_splits)
  have "\<not> (tx \<le> 0 \<or> ty \<le> 0)" using pos by simp
  then have painted: "d = \<lparr>bd_uv_min = (1 / 2 - u / 2, 1 / 2 - v / 2), bd_uv_max = (1 / 2 + u / 2, 1 / 2 + v / 2),
      bd_scrim = (pl_bg p)\<lparr>c_a := of_nat (round_nat (SCRIM_ALPHA * 255))\<rparr>\<rparr>"
    using assms(1) unfolding paint_backdrop_def assms(2) option.case Let_def tx_def [symmetric] ty_def [symmetric]
      base_def [symmetric] scale_def [symmetric] u_def [symmetric] v_def [symmetric]
    by (simp only: if_False option.inject)
  have d: "x0 = 1 / 2 - u / 2" "y0 = 1 / 2 - v / 2" "x1 = 1 / 2 + u / 2" "y1 = 1 / 2 + v / 2"
    "bd_scrim d = (pl_bg p)\<lparr>c_a := of_nat (round_nat (SCRIM_ALPHA * 255))\<rparr>"
    using assms(5,6) unfolding painted by simp_all
  have "0 < w / tx" using assms(3) pos by simp
  then have base: "0 < base" unfolding base_def by linarith
  then have scale: "0 < scale" unfolding scale_def by (simp add: max_def)
  have uv: "0 \<le> u" "u \<le> 1" "0 \<le> v" "v \<le> 1"
    using assms(3,4) pos scale by (simp_all add: u_def v_def)
  have "\<lfloor>563 / 4 :: rat\<rfloor> = 140" by (rule floor_unique) simp_all
  then have "round_nat (SCRIM_ALPHA * 255) = 140" by (simp add: SCRIM_ALPHA_def round_nat_def round_away_def)
  then have scrim: "c_a (bd_scrim d) = 140" by (simp add: d(5))
  have "(x1 - x0) * tx * scale = w \<and> (y1 - y0) * ty * scale = h" if "1 \<le> b_zoom b"
  proof -
    have z: "scale = base * b_zoom b" using that by (simp add: scale_def max_def)
    have "u * (tx * scale) = w" "v * (ty * scale) = h"
      using crop_fraction [OF assms(3) pos(1), of base "b_zoom b"] crop_fraction [OF assms(4) pos(2), of base "b_zoom b"] that
      by (simp_all add: u_def v_def z base_def)
    moreover have "x1 - x0 = u" "y1 - y0 = v" by (simp_all add: d field_simps)
    ultimately show ?thesis by (simp add: mult.assoc)
  qed
  then show ?thesis
    using uv scale scrim unfolding tx_def ty_def by (auto simp: d field_simps intro!: exI [of _ scale])
qed

theorem backdrop_covers_witness:
  "let b = \<lparr>b_path = [1], b_zoom = 2, b_brightness = 1, b_blur = 0, b_card_opacity = 1,
        b_texture = Some \<lparr>width = 100, height = 50, rgba = []\<rparr>, b_built_from = None\<rparr>
   in \<exists>d. paint_backdrop b DARK 400 400 = Some d \<and> bd_uv_min d = (3 / 8, 1 / 4) \<and> c_a (bd_scrim d) = 140"
proof -
  let ?b = "\<lparr>b_path = [1], b_zoom = 2, b_brightness = 1, b_blur = 0, b_card_opacity = 1,
        b_texture = Some \<lparr>width = 100, height = 50, rgba = []\<rparr>, b_built_from = None\<rparr>"
  obtain d where d: "paint_backdrop ?b DARK 400 400 = Some d" "bd_uv_min d = (3 / 8, 1 / 4)" "bd_uv_max d = (5 / 8, 3 / 4)"
    by (simp add: paint_backdrop_def Let_def)
  with backdrop_covers [OF d(1) _ _ _ d(2,3), of "\<lparr>width = 100, height = 50, rgba = []\<rparr>"] show ?thesis by simp
qed

end
