(* ===== verification/Logs.thy ===== *)
theory Logs
  imports Gui_Prefs
begin

text \<open>
  The diagnostic log files: the engine's (\<open>core/src/engine.rs\<close>, with its switch and its rotation by
  size), the agent's (\<open>agent/src/main.rs\<close>) and the GUI's (\<open>gui/src/main.rs\<close>). They are written
  beside everything else and read by no component, so the other theories leave the calls out.
\<close>

subsection \<open>The debug switch of the engine\<close>

record debug_switch =
  ds_on :: bool
  ds_probed :: bool

definition switch_off :: debug_switch where
  "switch_off = \<lparr>ds_on = False, ds_probed = False\<rparr>"

definition env_on :: "rstr option \<Rightarrow> bool" where
  "env_on env =
     (case env of
        None \<Rightarrow> False
      | Some v \<Rightarrow> to_ascii_lowercase (trim v) \<in> {lit ''1'', lit ''true'', lit ''yes'', lit ''on''})"

text \<open>The environment is looked at by the first call only.\<close>

definition debug_enabled :: "rstr option \<Rightarrow> debug_switch \<Rightarrow> debug_switch \<times> bool" where
  "debug_enabled env s =
     (let s' = (if ds_probed s then s else \<lparr>ds_on = (ds_on s \<or> env_on env), ds_probed = True\<rparr>) in (s', ds_on s'))"

definition debug_logging :: "config \<Rightarrow> bool" where
  "debug_logging c = False"

definition set_debug_from_config :: "rstr option \<Rightarrow> config \<Rightarrow> debug_switch \<Rightarrow> debug_switch" where
  "set_debug_from_config env c s =
     (let s1 = fst (debug_enabled env s) in if debug_logging c then s1\<lparr>ds_on := True\<rparr> else s1)"

definition force_debug :: "rstr option \<Rightarrow> debug_switch \<Rightarrow> debug_switch" where
  "force_debug env s = (fst (debug_enabled env s))\<lparr>ds_on := True\<rparr>"

subsection \<open>The engine's log file\<close>

definition LOG_ROTATE_BYTES :: nat where
  "LOG_ROTATE_BYTES = 5 * 1024 * 1024"

text \<open>What the system answers during one call: the time, whether the directory is there, whether the
  file's size can be read, whether it can be renamed and opened, and how many bytes of the line a
  failed write leaves (\<open>None\<close> when the write succeeds).\<close>

record log_io =
  li_ts :: rstr
  li_mkdir :: bool
  li_meta :: bool
  li_rename :: bool
  li_open :: bool
  li_partial :: "nat option"

definition log_path :: "platform_dirs \<Rightarrow> bool \<Rightarrow> rstr option" where
  "log_path d mkdir =
     (case pd_config d of
        None \<Rightarrow> None
      | Some c \<Rightarrow>
          if mkdir then Some (path_join (path_join (path_join c (lit ''copysync'')) (lit ''logs'')) (lit ''engine.log'')) else None)"

text \<open>\<open>path.with_extension("log.1")\<close> of a path that ends in \<open>.log\<close>.\<close>

definition rotated :: "rstr \<Rightarrow> rstr" where
  "rotated path = path @ lit ''.1''"

definition contents :: "files \<Rightarrow> rstr \<Rightarrow> bytes" where
  "contents fs p = (case fs p of Some b \<Rightarrow> b | None \<Rightarrow> [])"

definition rotate :: "log_io \<Rightarrow> rstr \<Rightarrow> files \<Rightarrow> files" where
  "rotate i path fs =
     (case fs path of
        Some b \<Rightarrow> if li_meta i \<and> length b \<ge> LOG_ROTATE_BYTES \<and> li_rename i then fs(rotated path \<mapsto> b, path := None) else fs
      | None \<Rightarrow> fs)"

text \<open>Open for appending, creating the file, and write.\<close>

definition append_line :: "log_io \<Rightarrow> rstr \<Rightarrow> bytes \<Rightarrow> files \<Rightarrow> files" where
  "append_line i path b fs =
     (if \<not> li_open i then fs
      else fs(path \<mapsto> contents fs path @ (case li_partial i of None \<Rightarrow> b | Some n \<Rightarrow> take n b)))"

definition log_text :: "rstr \<Rightarrow> rstr \<Rightarrow> rstr \<Rightarrow> bytes" where
  "log_text ts target m = as_bytes (ts @ lit '' ['' @ target @ lit ''] '' @ m @ [10])"

definition debug_log :: "rstr option \<Rightarrow> platform_dirs \<Rightarrow> log_io \<Rightarrow> rstr \<Rightarrow> rstr \<Rightarrow> debug_switch \<times> files \<Rightarrow> debug_switch \<times> files" where
  "debug_log env d i target m sf =
     (let (s, fs) = sf; (s1, on) = debug_enabled env s in
      if \<not> on then (s1, fs)
      else (case log_path d (li_mkdir i) of
              None \<Rightarrow> (s1, fs)
            | Some path \<Rightarrow> (s1, append_line i path (log_text (li_ts i) target m) (rotate i path fs))))"

subsection \<open>The logs of the agent and the GUI\<close>

definition agent_debug_enabled :: "rstr option \<Rightarrow> bool" where
  "agent_debug_enabled env =
     (case env of None \<Rightarrow> False | Some v \<Rightarrow> trim v = lit ''1'' \<or> to_ascii_lowercase (trim v) = lit ''true'')"

definition agent_log_path :: "platform_dirs \<Rightarrow> rstr" where
  "agent_log_path d =
     path_join (path_join (path_join (case pd_config d of Some c \<Rightarrow> c | None \<Rightarrow> pd_temp d) (lit ''copysync'')) (lit ''logs''))
       (lit ''agent.log'')"

definition debug_stamp :: "nat \<Rightarrow> rstr" where
  "debug_stamp secs = two_digits (secs div 3600 mod 24) @ [58] @ two_digits (secs div 60 mod 60) @ [58] @ two_digits (secs mod 60)"

definition agent_dlog :: "rstr option \<Rightarrow> platform_dirs \<Rightarrow> log_io \<Rightarrow> nat \<Rightarrow> rstr \<Rightarrow> files \<Rightarrow> files" where
  "agent_dlog env d i secs m fs =
     (if \<not> agent_debug_enabled env then fs
      else append_line i (agent_log_path d) (as_bytes (lit ''['' @ debug_stamp secs @ lit ''] '' @ m @ [10])) fs)"

definition gui_log_path :: "platform_dirs \<Rightarrow> rstr" where
  "gui_log_path d =
     path_join (path_join (path_join (case pd_config d of Some c \<Rightarrow> c | None \<Rightarrow> pd_temp d) (lit ''copysync'')) (lit ''logs''))
       (lit ''gui.log'')"

definition gui_log_line :: "platform_dirs \<Rightarrow> log_io \<Rightarrow> nat \<Rightarrow> rstr \<Rightarrow> files \<Rightarrow> files" where
  "gui_log_line d i secs m fs =
     append_line i (gui_log_path d) (as_bytes (lit ''['' @ chrono_lite_now secs @ lit ''] '' @ m @ [10])) fs"

subsection \<open>The switch\<close>

datatype switch_op = Ask | FromConfig config | Force

fun switch_step :: "rstr option \<times> switch_op \<Rightarrow> debug_switch \<Rightarrow> debug_switch" where
  "switch_step (env, Ask) s = fst (debug_enabled env s)"
| "switch_step (env, FromConfig c) s = set_debug_from_config env c s"
| "switch_step (env, Force) s = force_debug env s"

lemma switch_step_on:
  "ds_on (switch_step (env, x) s) \<longleftrightarrow> ds_on s \<or> x = Force \<or> \<not> ds_probed s \<and> env_on env"
  "ds_probed (switch_step (env, x) s)"
  by (cases x; simp add: debug_enabled_def set_debug_from_config_def debug_logging_def force_debug_def Let_def)+

text \<open>The detailed log is on exactly when the environment asked for it at the first call or the host
  forced it; the saved configuration never turns it on, and nothing turns it off.\<close>

lemma switch_run:
  "ds_on (fold switch_step ops switch_off) \<longleftrightarrow>
     (\<exists>env. (env, Force) \<in> set ops) \<or> (ops \<noteq> [] \<and> env_on (fst (hd ops)))"
proof -
  have "ds_probed s \<Longrightarrow> ds_on (fold switch_step os s) \<longleftrightarrow> ds_on s \<or> (\<exists>env. (env, Force) \<in> set os)" for os s
    by (induction os arbitrary: s) (auto simp: switch_step_on simp del: switch_step.simps)
  then show ?thesis
    by (cases ops) (auto simp: switch_step_on switch_off_def simp del: switch_step.simps)
qed

subsection \<open>Rotation\<close>

text \<open>What can still be read: the rotated file, then the current one.\<close>

definition log_kept :: "rstr \<Rightarrow> files \<Rightarrow> bytes" where
  "log_kept path fs = contents fs (rotated path) @ contents fs path"

text \<open>A disk on which every call works.\<close>

definition disk_works :: "log_io \<Rightarrow> bool" where
  "disk_works i \<longleftrightarrow> li_mkdir i \<and> li_meta i \<and> li_rename i \<and> li_open i \<and> li_partial i = None"

definition log_once :: "rstr \<Rightarrow> log_io \<times> bytes \<Rightarrow> files \<Rightarrow> files" where
  "log_once path e fs = append_line (fst e) path (snd e) (rotate (fst e) path fs)"

lemma rotated_neq [simp]: "rotated p \<noteq> p" "p \<noteq> rotated p"
  by (simp_all add: rotated_def)

lemma log_once_contents:
  assumes "disk_works i"
  shows "contents (log_once path (i, b) fs) path
      = (if length (contents fs path) \<ge> LOG_ROTATE_BYTES then b else contents fs path @ b)"
    and "contents (log_once path (i, b) fs) (rotated path)
      = (if length (contents fs path) \<ge> LOG_ROTATE_BYTES then contents fs path else contents fs (rotated path))"
  using assms
  by (auto simp: log_once_def append_line_def rotate_def contents_def disk_works_def LOG_ROTATE_BYTES_def split: option.splits)

text \<open>The files read as one log: a suffix of everything that was logged, which is either all of it or
  at least as long as the rotation limit.\<close>

definition log_refines :: "rstr \<Rightarrow> bytes \<Rightarrow> files \<Rightarrow> bool" where
  "log_refines path all fs \<longleftrightarrow>
     (\<exists>lost. all = lost @ log_kept path fs \<and> (lost = [] \<or> length (contents fs (rotated path)) \<ge> LOG_ROTATE_BYTES))"

lemma log_once_refines:
  assumes "disk_works (fst e)" and "log_refines path all fs"
  shows "log_refines path (all @ snd e) (log_once path e fs)"
proof -
  obtain i b where e: "e = (i, b)" by (cases e)
  have w: "disk_works i" using assms(1) e by simp
  obtain lost where l: "all = lost @ log_kept path fs" "lost = [] \<or> length (contents fs (rotated path)) \<ge> LOG_ROTATE_BYTES"
    using assms(2) by (auto simp: log_refines_def)
  show ?thesis
  proof (cases "length (contents fs path) \<ge> LOG_ROTATE_BYTES")
    case True
    then show ?thesis
      unfolding log_refines_def log_kept_def e using l
      by (intro exI [of _ "lost @ contents fs (rotated path)"]) (simp add: log_once_contents [OF w] log_kept_def)
  next
    case False
    then show ?thesis
      unfolding log_refines_def log_kept_def e using l
      by (intro exI [of _ lost]) (simp add: log_once_contents [OF w] log_kept_def)
  qed
qed

lemma log_run_refines:
  "log_refines path all fs \<Longrightarrow> \<forall>e\<in>set es. disk_works (fst e) \<Longrightarrow>
     log_refines path (all @ concat (map snd es)) (fold (log_once path) es fs)"
proof (induction es arbitrary: all fs)
  case (Cons e es)
  from Cons.IH [OF log_once_refines [OF _ Cons.prems(1)], of e] Cons.prems(2) show ?case by simp
qed simp

lemma log_run_bounded:
  assumes "\<forall>e\<in>set es. disk_works (fst e) \<and> length (snd e) \<le> n"
    and "length (contents fs path) < LOG_ROTATE_BYTES + n" and "length (contents fs (rotated path)) < LOG_ROTATE_BYTES + n"
  shows "length (contents (fold (log_once path) es fs) path) < LOG_ROTATE_BYTES + n
    \<and> length (contents (fold (log_once path) es fs) (rotated path)) < LOG_ROTATE_BYTES + n"
  using assms
proof (induction es arbitrary: fs)
  case (Cons e es)
  obtain i b where e: "e = (i, b)" by (cases e)
  have w: "disk_works i" "length b \<le> n" using Cons.prems(1) e by auto
  have "length (contents (log_once path e fs) path) < LOG_ROTATE_BYTES + n"
    "length (contents (log_once path e fs) (rotated path)) < LOG_ROTATE_BYTES + n"
    using Cons.prems(2,3) w(2) by (auto simp: e log_once_contents [OF w(1)] LOG_ROTATE_BYTES_def)
  then show ?case using Cons.IH [of "log_once path e fs"] Cons.prems(1) by simp
qed simp

lemma debug_log_on:
  assumes "ds_on s" and "log_path d True = Some path" and "disk_works i"
  shows "debug_log env d i t m (s, fs) = (fst (debug_enabled env s), log_once path (i, log_text (li_ts i) t m) fs)"
    and "ds_on (fst (debug_enabled env s))"
  using assms by (simp_all add: debug_log_def debug_enabled_def disk_works_def log_once_def Let_def)

lemma debug_run:
  assumes "ds_on s" and "log_path d True = Some path" and "\<forall>(i, t, m)\<in>set calls. disk_works i"
  shows "snd (fold (\<lambda>(i, t, m). debug_log env d i t m) calls (s, fs))
    = fold (log_once path) (map (\<lambda>(i, t, m). (i, log_text (li_ts i) t m)) calls) fs"
  using assms(1,3)
proof (induction calls arbitrary: s fs)
  case (Cons x calls)
  obtain i t m where x: "x = (i, t, m)" by (cases x)
  have i: "disk_works i" using Cons.prems(2) x by simp
  note on = debug_log_on(1) [OF Cons.prems(1) assms(2) i, of env t m fs] and still = debug_log_on(2) [OF Cons.prems(1) assms(2) i]
  show ?case using Cons.IH [OF still [of env], of "log_once path (i, log_text (li_ts i) t m) fs"] Cons.prems(2) on by (simp add: x)
qed simp

text \<open>The engine's log keeps the recent past in bounded space: on a disk that works, after any number of
  calls from an empty directory, the rotated file followed by the current one is a suffix of
  everything that was logged; what is missing at the front was given up only for a rotated file of
  at least 5 MiB; and neither file reaches 5 MiB plus the longest line.\<close>

theorem engine_log_keeps_recent:
  assumes "ds_on s" and "log_path d True = Some path" and "\<forall>(i, t, m)\<in>set calls. disk_works i \<and> length (log_text (li_ts i) t m) \<le> n"
    and "fs = snd (fold (\<lambda>(i, t, m). debug_log env d i t m) calls (s, Map.empty))" and "0 < n"
  shows "(\<exists>lost. concat (map (\<lambda>(i, t, m). log_text (li_ts i) t m) calls) = lost @ contents fs (rotated path) @ contents fs path
        \<and> (lost = [] \<or> length (contents fs (rotated path)) \<ge> 5 * 1024 * 1024))
    \<and> length (contents fs path) < 5 * 1024 * 1024 + n \<and> length (contents fs (rotated path)) < 5 * 1024 * 1024 + n"
proof -
  let ?es = "map (\<lambda>(i, t, m). (i, log_text (li_ts i) t m)) calls"
  have ok: "\<forall>(i, t, m)\<in>set calls. disk_works i" using assms(3) by auto
  have fs: "fs = fold (log_once path) ?es Map.empty"
    unfolding assms(4) by (rule debug_run [OF assms(1,2) ok])
  have empty: "log_refines path [] Map.empty" by (simp add: log_refines_def log_kept_def contents_def)
  have "\<forall>e\<in>set ?es. disk_works (fst e)" using ok by auto
  from log_run_refines [OF empty this] have "log_refines path (concat (map snd ?es)) fs" by (simp add: fs)
  moreover have "concat (map snd ?es) = concat (map (\<lambda>(i, t, m). log_text (li_ts i) t m) calls)"
    by (induction calls) auto
  moreover have "length (contents fs path) < LOG_ROTATE_BYTES + n \<and> length (contents fs (rotated path)) < LOG_ROTATE_BYTES + n"
    unfolding fs by (rule log_run_bounded) (use assms(3,5) in \<open>auto simp: contents_def\<close>)
  ultimately show ?thesis by (auto simp: log_refines_def log_kept_def LOG_ROTATE_BYTES_def)
qed

definition sample_log_io :: log_io where
  "sample_log_io = \<lparr>li_ts = lit ''t'', li_mkdir = True, li_meta = True, li_rename = True, li_open = True, li_partial = None\<rparr>"

theorem engine_log_keeps_recent_witness:
  "\<exists>fs path. fs = snd (fold (\<lambda>(i, t, m). debug_log None gui_dirs i t m) [(sample_log_io, lit ''ws'', lit ''up''), (sample_log_io, lit ''ws'', lit ''down'')]
       (\<lparr>ds_on = True, ds_probed = True\<rparr>, Map.empty))
     \<and> log_path gui_dirs True = Some path \<and> length (contents fs path) < 5 * 1024 * 1024 + 20"
proof -
  let ?calls = "[(sample_log_io, lit ''ws'', lit ''up''), (sample_log_io, lit ''ws'', lit ''down'')]"
  let ?s = "\<lparr>ds_on = True, ds_probed = True\<rparr>"
  obtain path where path: "log_path gui_dirs True = Some path" by (simp add: log_path_def gui_dirs_def)
  have "\<forall>(i, t, m)\<in>set ?calls. disk_works i \<and> length (log_text (li_ts i) t m) \<le> 20"
    by (simp add: disk_works_def sample_log_io_def log_text_def length_as_bytes str_len_def utf8_width_def)
  from engine_log_keeps_recent [OF _ path this refl, of ?s None] show ?thesis using path by auto
qed

end
