(* ===== verification/Gui_Start.thy ===== *)
theory Gui_Start
  imports Gui_Look Logs
begin

text \<open>
  How the desktop GUI comes up and goes down (\<open>gui/src/main.rs\<close>): the panic report and its message
  box, the path of the agent's program, the login entry, the tray, the event thread over a
  channel whose receiver may be gone, and \<open>main\<close> with its fall back from one renderer to another.
\<close>

subsection \<open>Panic report\<close>

text \<open>\<open>str::encode_utf16\<close>, and the buffer for the system's message box.\<close>

definition utf16_char :: "nat \<Rightarrow> nat list" where
  "utf16_char c = (if c < 0x10000 then [c] else [0xD800 + (c - 0x10000) div 1024, 0xDC00 + (c - 0x10000) mod 1024])"

definition encode_utf16 :: "rstr \<Rightarrow> nat list" where
  "encode_utf16 s = concat (map utf16_char s)"

definition wide :: "rstr \<Rightarrow> nat list" where
  "wide s = encode_utf16 s @ [0]"

text \<open>What the system is asked to show, with the flags of an error dialog in the foreground; nothing
  outside Windows.\<close>

definition message_box :: "bool \<Rightarrow> rstr \<Rightarrow> rstr \<Rightarrow> (nat list \<times> nat list \<times> u32) option" where
  "message_box win title body =
     (if win then Some (wide body, wide title, or (or 0x00000000 0x00000010) 0x00010000) else None)"

datatype payload = StrPayload rstr | OtherPayload

record panic_info =
  pi_location :: "(rstr \<times> nat \<times> nat) option"
  pi_payload :: payload
  pi_backtrace :: rstr

definition panic_location :: "panic_info \<Rightarrow> rstr" where
  "panic_location i =
     (case pi_location i of
        Some (f, l, c) \<Rightarrow> f @ [58] @ show_nat l @ [58] @ show_nat c
      | None \<Rightarrow> lit ''<unknown location>'')"

definition panic_payload :: "panic_info \<Rightarrow> rstr" where
  "panic_payload i = (case pi_payload i of StrPayload s \<Rightarrow> s | OtherPayload \<Rightarrow> lit ''<non-string panic payload>'')"

text \<open>The hook: the line for the log file and the dialog, before the previous hook runs.\<close>

definition panic_report :: "bool \<Rightarrow> rstr \<Rightarrow> panic_info \<Rightarrow> rstr \<times> (nat list \<times> nat list \<times> u32) option" where
  "panic_report win log_file i =
     (let full = lit ''PANIC at '' @ panic_location i @ lit '': '' @ panic_payload i @ [10] @ lit ''backtrace:'' @ [10] @ pi_backtrace i;
          body = panic_payload i @ [10, 10, 0xc704, 0xce58, 0x3a, 0x20] @ panic_location i
                 @ [10, 10, 0xc790, 0xc138, 0xd55c, 0x20, 0xb0b4, 0xc6a9, 0x3a, 0x20] @ log_file
      in (full, message_box win (lit ''CopySync GUI failed'') body))"

subsection \<open>The agent's program\<close>

text \<open>\<open>Path::parent\<close> of a path without \<open>.\<close> components.\<close>

definition path_parent :: "rstr \<Rightarrow> rstr option" where
  "path_parent p =
     (let r = dropWhile (\<lambda>c. c = 47) (rev p);
          s = dropWhile (\<lambda>c. c \<noteq> 47) r;
          t = dropWhile (\<lambda>c. c = 47) s
      in if r = [] then None else if t = [] \<and> s \<noteq> [] then Some [47] else Some (rev t))"

text \<open>What the system says: the own program, the files, whether a program starts, and the login
  entries (whether one can be set up, whether it is enabled, whether a change is accepted).\<close>

record starter =
  sr_exe :: "rstr option"
  sr_windows :: bool
  sr_exists :: "rstr \<Rightarrow> bool"
  sr_starts :: "rstr \<Rightarrow> rstr list \<Rightarrow> bool"
  sr_login :: "rstr \<Rightarrow> rstr \<Rightarrow> rstr list \<Rightarrow> bool"
  sr_enabled :: "bool option"
  sr_change :: "bool \<Rightarrow> bool"

definition agent_path :: "starter \<Rightarrow> rstr option" where
  "agent_path w =
     Option.bind (sr_exe w) (\<lambda>exe. map_option (\<lambda>dir. path_join dir
       (if sr_windows w then lit ''copysync-agent.exe'' else lit ''copysync-agent'')) (path_parent exe))"

text \<open>\<open>spawn_agent_and_wait\<close> with its reasons to fail; \<open>tries\<close> are the connection attempts of three
  seconds.\<close>

datatype spawn_error = NoPath | NoProgram rstr | NotStarted | NotReached

definition spawn_agent :: "starter \<Rightarrow> bool list \<Rightarrow> spawn_error + unit" where
  "spawn_agent w tries =
     (case agent_path w of
        None \<Rightarrow> Inl NoPath
      | Some p \<Rightarrow>
          if \<not> sr_exists w p then Inl (NoProgram p)
          else if \<not> sr_starts w p [lit ''serve''] then Inl NotStarted
          else if (\<exists>b\<in>set tries. b) then Inr () else Inl NotReached)"

definition build_autolaunch :: "starter \<Rightarrow> (rstr \<times> rstr \<times> rstr list) option" where
  "build_autolaunch w =
     Option.bind (agent_path w) (\<lambda>p.
       if sr_login w (lit ''CopySync'') p [lit ''serve''] then Some (lit ''CopySync'', p, [lit ''serve'']) else None)"

definition autostart_enabled :: "starter \<Rightarrow> bool" where
  "autostart_enabled w =
     (case build_autolaunch w of None \<Rightarrow> False | Some _ \<Rightarrow> (case sr_enabled w of Some b \<Rightarrow> b | None \<Rightarrow> False))"

definition gui_set_autostart :: "starter \<Rightarrow> bool \<Rightarrow> bool" where
  "gui_set_autostart w on = (case build_autolaunch w of None \<Rightarrow> False | Some _ \<Rightarrow> sr_change w on)"

subsection \<open>The tray\<close>

definition TRAY_OPEN_ID :: rstr where
  "TRAY_OPEN_ID = lit ''cs.tray.open''"

definition TRAY_QUIT_ID :: rstr where
  "TRAY_QUIT_ID = lit ''cs.tray.quit''"

text \<open>The icon: sixteen by sixteen pixels of one colour. \<open>Icon::from_rgba\<close> takes four bytes a pixel.\<close>

definition tray_icon_rgba :: bytes where
  "tray_icon_rgba = concat (replicate (16 * 16) [0x0E, 0x8C, 0x84, 0xFF])"

definition icon_from_rgba :: "bytes \<Rightarrow> nat \<Rightarrow> nat \<Rightarrow> image option" where
  "icon_from_rgba b w h = (if length b = w * h * 4 then Some \<lparr>width = w, height = h, rgba = b\<rparr> else None)"

definition tray_icon_image :: "image option" where
  "tray_icon_image = icon_from_rgba tray_icon_rgba 16 16"

record tray =
  tr_menu :: "(rstr \<times> rstr) list"
  tr_tooltip :: rstr
  tr_icon :: image

definition build_tray :: "(rstr \<Rightarrow> bool) \<Rightarrow> bool \<Rightarrow> tray option" where
  "build_tray adds made =
     (if \<not> adds TRAY_OPEN_ID \<or> \<not> adds TRAY_QUIT_ID \<or> \<not> made then None
      else map_option (\<lambda>icon. \<lparr>tr_menu = [(TRAY_OPEN_ID, [0xc5f4, 0xae30]), (TRAY_QUIT_ID, [0xc885, 0xb8cc])],
             tr_tooltip = lit ''CopySync'', tr_icon = icon\<rparr>) tray_icon_image)"

subsection \<open>The event thread\<close>

text \<open>
  \<open>event_loop\<close> when the receiver takes \<open>n\<close> more messages and is then gone: the messages delivered,
  whether the thread has returned, and how often it looked after the agent. A connection that
  fails at once has no lines.
\<close>

fun event_thread :: "nat \<Rightarrow> outbound option list list \<Rightarrow> gui_event list \<times> bool \<times> nat" where
  "event_thread n [] = ([], False, 0)"
| "event_thread n (ls # conns) =
     (let evs = subscribe_stream ls in
      if n \<le> length evs then (take n evs, True, 0)
      else (let (d, ended, c) = event_thread (n - length evs - 1) conns in (evs @ [LinkNote] @ d, ended, Suc c)))"

subsection \<open>Start\<close>

text \<open>A run of the window system: whether it came to call the creator, which starts the event thread,
  and whether it returned without an error.\<close>

record native_run =
  nr_creator :: bool
  nr_ok :: bool

datatype renderer = Glow | Wgpu

datatype start_log = SProcess | SNoAgent | SGlowAfterInit | SGlowFallback | SWgpuOk | SRunFailed

record gui_start =
  gs_ok :: bool
  gs_tried :: "renderer list"
  gs_threads :: nat
  gs_log :: "start_log list"
  gs_dialog :: bool

definition gui_main :: "bool \<Rightarrow> native_run \<Rightarrow> native_run \<Rightarrow> gui_start" where
  "gui_main agent_up glow wgpu =
     (let started = (\<lambda>r. if nr_creator r then 1 else 0);
          log0 = SProcess # (if agent_up then [] else [SNoAgent]);
          finish = (\<lambda>ok tried threads log.
             \<lparr>gs_ok = ok, gs_tried = tried, gs_threads = threads, gs_log = log @ (if ok then [] else [SRunFailed]),
              gs_dialog = (\<not> ok)\<rparr>)
      in if nr_ok glow then finish True [Glow] (started glow) log0
         else if nr_creator glow then finish False [Glow] (started glow) (log0 @ [SGlowAfterInit])
         else finish (nr_ok wgpu) [Glow, Wgpu] (started glow + started wgpu)
                (log0 @ [SGlowFallback] @ (if nr_ok wgpu then [SWgpuOk] else [])))"

subsection \<open>The event thread ends with its window\<close>

definition link_notes :: "gui_event list \<Rightarrow> nat" where
  "link_notes es = length (filter (\<lambda>e. e = LinkNote) es)"

lemma stream_notes: "LinkNote \<notin> set (subscribe_stream ls)"
proof -
  have "LinkNote \<notin> set (forward x)" for x by (cases x rule: forward.cases) simp_all
  then show ?thesis by (simp add: subscribe_stream_def)
qed

lemma event_loop_Cons: "event_loop (ls # conns) = subscribe_stream ls @ LinkNote # event_loop conns"
  by (simp add: event_loop_def)

text \<open>C21. The event thread does not outlive its window: it delivers what the endless loop would, up to
  the last message the window takes, returns at the first message it cannot deliver, and in
  between has looked after the agent once for each lost connection it reported, so a thread
  whose window is gone never starts an agent again.\<close>

theorem event_thread_ends:
  "event_thread n conns = (take n (event_loop conns), n < length (event_loop conns), link_notes (take n (event_loop conns)))"
proof (induction n conns rule: event_thread.induct)
  case (1 n)
  show ?case by (simp add: event_loop_def link_notes_def)
next
  case (2 n ls conns)
  have quiet: "filter (\<lambda>e. e = LinkNote) (take k (subscribe_stream ls)) = []" for k
    using stream_notes by (auto simp: filter_empty_conv dest: in_set_takeD)
  show ?case
  proof (cases "n \<le> length (subscribe_stream ls)")
    case True
    then show ?thesis by (simp add: event_loop_Cons link_notes_def quiet Let_def)
  next
    case False
    then obtain k where k: "n - length (subscribe_stream ls) = Suc k" by (cases "n - length (subscribe_stream ls)") auto
    have "filter (\<lambda>e. e = LinkNote) (subscribe_stream ls) = []" using quiet [of "length (subscribe_stream ls)"] by simp
    moreover have "event_thread k conns = (take k (event_loop conns), k < length (event_loop conns), link_notes (take k (event_loop conns)))"
      using 2 False k by (simp add: Let_def)
    ultimately show ?thesis using False k
      by (auto simp: event_loop_Cons link_notes_def Let_def)
  qed
qed

subsection \<open>One window\<close>

text \<open>The start never leaves two event threads behind: at most one is started; the second renderer
  is tried exactly when the first failed before it could start one; and the program ends with
  an error dialog exactly when no renderer ran.\<close>

theorem one_event_thread:
  "gs_threads (gui_main up glow wgpu) \<le> 1
   \<and> (Wgpu \<in> set (gs_tried (gui_main up glow wgpu)) \<longleftrightarrow> \<not> nr_ok glow \<and> \<not> nr_creator glow)
   \<and> (gs_dialog (gui_main up glow wgpu) \<longleftrightarrow> \<not> gs_ok (gui_main up glow wgpu))
   \<and> (gs_ok (gui_main up glow wgpu) \<longleftrightarrow> nr_ok glow \<or> (\<not> nr_creator glow \<and> nr_ok wgpu))"
  by (simp add: gui_main_def Let_def)

subsection \<open>Further facts\<close>

text \<open>The model of starting the agent in \<open>Gui\<close> is this one with its reasons forgotten.\<close>

lemma spawn_agent_abstract:
  "(spawn_agent w tries = Inr ()) =
     spawn_agent_and_wait (\<exists>p. agent_path w = Some p \<and> sr_exists w p \<and> sr_starts w p [lit ''serve'']) tries"
  by (auto simp: spawn_agent_def spawn_agent_and_wait_def split: option.splits)

lemma tray_icon_valid: "tray_icon_image \<noteq> None"
proof -
  have "length (concat (replicate n [a, b, c, d])) = n * 4" for n and a b c d :: "8 word"
    by (induction n) simp_all
  then show ?thesis by (simp add: tray_icon_image_def icon_from_rgba_def tray_icon_rgba_def)
qed

text \<open>UTF-16 text is read back as it was written, by the decoder the clipboard reader uses.\<close>

lemma utf16_char_decoded:
  assumes "scalar c"
  shows "from_utf16_lossy (utf16_char c @ us) = c # from_utf16_lossy us"
proof (cases "c < 0x10000")
  case True
  then show ?thesis using assms by (auto simp: utf16_char_def scalar_def)
next
  case False
  then have "(c - 0x10000) div 1024 < 1024" "c < 0x110000" using assms by (auto simp: scalar_def)
  moreover have "65536 + (c - 65536) div 1024 * 1024 + (c - 65536) mod 1024 = c"
    using False div_mult_mod_eq [of "c - 65536" 1024] by linarith
  ultimately show ?thesis using False by (simp add: utf16_char_def)
qed

lemma utf16_roundtrip: "list_all scalar s \<Longrightarrow> from_utf16_lossy (encode_utf16 s) = s"
  by (induction s) (simp_all add: encode_utf16_def utf16_char_decoded)

end
