(* ===== verification/Agent_Props.thy ===== *)
theory Agent_Props
  imports Agent
begin

text \<open>
  Properties of the daemon on its own: the telemetry buffer, the agent as a machine over its
  events with its invariant, settings and pairing, the supervisor, the command channel, the
  event stream of a client, the history key and the command line.
\<close>

subsection \<open>The telemetry buffer\<close>

lemma tlog_push_view:
  "length b \<le> TELEMETRY_BUF_CAP \<Longrightarrow> tlog_push x b = drop (Suc (length b) - TELEMETRY_BUF_CAP) (b @ [x])"
  by (cases b) (auto simp: tlog_push_def TELEMETRY_BUF_CAP_def)

interpretation tel: bounded_fifo tlog_push "\<lambda>b. b" TELEMETRY_BUF_CAP
  by unfold_locales (simp_all add: tlog_push_view TELEMETRY_BUF_CAP_def)

lemma push_front_take:
  "length b \<le> TELEMETRY_BUF_CAP \<Longrightarrow> push_front_bounded x b = take TELEMETRY_BUF_CAP (x # b)"
  by (cases "length b = TELEMETRY_BUF_CAP")
    (simp_all add: push_front_bounded_def Let_def TELEMETRY_BUF_CAP_def butlast_conv_take del: butlast.simps)

lemma take_Cons_take: "take n (x # take n l) = take n (x # l)"
  by (cases n) (simp_all add: min_def)

lemma rebuffer_take:
  assumes "length b \<le> TELEMETRY_BUF_CAP"
  shows "rebuffer batch b = take TELEMETRY_BUF_CAP (batch @ b)"
proof (induction batch)
  case Nil
  then show ?case using assms by (simp add: rebuffer_def)
next
  case (Cons x xs)
  have "rebuffer (x # xs) b = push_front_bounded x (rebuffer xs b)"
    by (simp add: rebuffer_def)
  also have "\<dots> = take TELEMETRY_BUF_CAP (x # take TELEMETRY_BUF_CAP (xs @ b))"
    unfolding Cons.IH by (rule push_front_take) simp
  finally show ?case by (simp add: take_Cons_take del: take_append)
qed

text \<open>The last lines a buffer of the given limit keeps.\<close>

definition newest :: "nat \<Rightarrow> 'l list \<Rightarrow> 'l list" where
  "newest n l = drop (length l - n) l"

lemma fold_tlog_push:
  "length b \<le> TELEMETRY_BUF_CAP \<Longrightarrow> fold tlog_push ls b = newest TELEMETRY_BUF_CAP (b @ ls)"
  by (simp add: tel.run_view newest_def)

text \<open>One round of the telemetry uploader, for a paired daemon that has not opted out: the
  oldest 200 lines are sent. When the server takes them they leave the buffer and the rest
  stays in order behind them; when it does not, they go back to the front in their order, and
  what no longer fits in 500 lines is dropped from the newest end.\<close>

theorem telemetry_round:
  assumes "length buf \<le> 500" and "config_load cr fs path = Some c" and "c_telemetry c"
    and "c_server_url c \<noteq> []" and "c_token c \<noteq> []" and "decode_pin cr (c_pin c) = Some pin"
  shows "uploader_round cr fs path upload during buf
      = (if upload c pin (take 200 buf) then newest 500 (drop 200 buf @ during)
         else take 500 (take 200 buf @ newest 500 (drop 200 buf @ during)))"
proof -
  have cap: "TELEMETRY_BUF_CAP = 500" by (simp add: TELEMETRY_BUF_CAP_def)
  have len: "length (newest 500 l) \<le> 500" for l :: "'a list" by (simp add: newest_def)
  have n: "take (min (length buf) 200) buf = take 200 buf" "drop (min (length buf) 200) buf = drop 200 buf"
    by (simp_all add: min_def)
  have f: "fold tlog_push during (drop 200 buf) = newest 500 (drop 200 buf @ during)"
    using fold_tlog_push [of "drop 200 buf" during] assms(1) by (simp add: cap)
  have r: "rebuffer (take 200 buf) (newest 500 (drop 200 buf @ during))
      = take 500 (take 200 buf @ newest 500 (drop 200 buf @ during))"
    using rebuffer_take [of "newest 500 (drop 200 buf @ during)" "take 200 buf"] len by (simp add: cap)
  show ?thesis
  proof (cases "take 200 buf = []")
    case True
    then have "buf = []" by simp
    then show ?thesis
      using assms f len [of during] by (simp add: uploader_round_def)
  next
    case False
    then show ?thesis
      using assms by (simp only: uploader_round_def Let_def n f r option.simps if_False not_not simp_thms)
  qed
qed

theorem telemetry_round_witness:
  "uploader_round (sample_config_crates\<lparr>b64_decode := (\<lambda>_. Some (replicate 32 0))\<rparr>)
     [lit ''c'' \<mapsto> [1]] (lit ''c'') (\<lambda>_ _ _. False) [3] [1::nat, 2] = [1, 2, 3]"
proof -
  let ?cr = "sample_config_crates\<lparr>b64_decode := (\<lambda>_. Some (replicate 32 0))\<rparr>"
  have "config_load ?cr [lit ''c'' \<mapsto> [1]] (lit ''c'') = Some sample_config"
    by (simp add: config_load_def sample_config_crates_def config_json_roundtrip)
  moreover have "decode_pin ?cr (c_pin sample_config) = Some (replicate 32 0)"
    by (simp add: decode_pin_def)
  moreover have "c_telemetry sample_config" "c_server_url sample_config \<noteq> []" "c_token sample_config \<noteq> []"
    by (simp_all add: sample_config_def)
  ultimately have "uploader_round ?cr [lit ''c'' \<mapsto> [1]] (lit ''c'') (\<lambda>_ _ _. False) [3] [1::nat, 2]
      = (if False then newest 500 (drop 200 [1, 2] @ [3])
         else take 500 (take 200 [1, 2] @ newest 500 (drop 200 [1, 2] @ [3])))"
    using telemetry_round [of "[1::nat, 2]" ?cr "[lit ''c'' \<mapsto> [1]]" "lit ''c''" sample_config
        "replicate 32 0" "\<lambda>_ _ _. False" "[3]"] by simp
  then show ?thesis by (simp add: newest_def)
qed

text \<open>With telemetry off, or before a pairing, no line leaves the machine: the round does not
  depend on the server at all.\<close>

lemma telemetry_opt_out:
  assumes "\<And>c. config_load cr fs path = Some c \<Longrightarrow> \<not> c_telemetry c"
  shows "uploader_round cr fs path up1 during buf = uploader_round cr fs path up2 during buf"
  using assms by (auto simp: uploader_round_def split: option.splits)

subsection \<open>The agent as a machine\<close>

text \<open>What happens to the daemon: a client's request, the supervisor launching the actor, the
  actor ending, a callback of the engine, the actor taking the next command.\<close>

datatype agent_event =
    AReq request
  | ALaunch
  | AEnded actor_exit
  | ACallback ui_event
  | ACliplog clip_log
  | ATake

definition take_cmd :: "agent \<Rightarrow> agent" where
  "take_cmd a = a\<lparr>a_tx := map_option (\<lambda>(alive, q). (alive, if alive then tl q else q)) (a_tx a)\<rparr>"

fun agent_step :: "crates \<Rightarrow> agent_event \<times> aio \<Rightarrow> agent \<Rightarrow> agent" where
  "agent_step cr (AReq r, i) a = fst (handle_request cr i r a)"
| "agent_step cr (ALaunch, i) a = launch a"
| "agent_step cr (AEnded x, i) a = actor_ended i x a"
| "agent_step cr (ACallback e, i) a = emitter (ai_stamp i) e a"
| "agent_step cr (ACliplog l, i) a = emitter_cliplog l a"
| "agent_step cr (ATake, i) a = take_cmd a"

definition accepting :: "agent \<Rightarrow> bool" where
  "accepting a \<longleftrightarrow> (\<exists>q. a_tx a = Some (True, q))"

definition agent_inv :: "agent \<Rightarrow> bool" where
  "agent_inv a \<longleftrightarrow> length (a_buf a) \<le> 500
     \<and> (accepting a \<longrightarrow> a_supervisor a \<noteq> None)
     \<and> (a_supervisor a \<noteq> None \<longrightarrow> st_paired (a_status a))"

lemma tlog_push_bounded [simp]: "length b \<le> 500 \<Longrightarrow> length (tlog_push l b) \<le> 500"
  using tel.push_bounded [of b l] by (simp add: TELEMETRY_BUF_CAP_def)

lemma accepting_simps [simp]:
  "accepting (a\<lparr>a_tx := None\<rparr>) = False"
  "accepting (a\<lparr>a_tx := Some (b, q)\<rparr>) = b"
  "accepting (a\<lparr>a_tx := map_option (\<lambda>(_, q). (False, q)) x\<rparr>) = False"
  by (auto simp: accepting_def)

lemma accepting_frame [simp]:
  "accepting (a\<lparr>a_status := s\<rparr>) = accepting a" "accepting (a\<lparr>a_roster := r\<rparr>) = accepting a"
  "accepting (a\<lparr>a_targets := t\<rparr>) = accepting a" "accepting (a\<lparr>a_exclude := x\<rparr>) = accepting a"
  "accepting (a\<lparr>a_auto_clear := n\<rparr>) = accepting a" "accepting (a\<lparr>a_mark := x\<rparr>) = accepting a"
  "accepting (a\<lparr>a_telemetry := x\<rparr>) = accepting a" "accepting (a\<lparr>a_disk := d\<rparr>) = accepting a"
  "accepting (a\<lparr>a_supervisor := c\<rparr>) = accepting a" "accepting (a\<lparr>a_attempt := u\<rparr>) = accepting a"
  "accepting (a\<lparr>a_events := es\<rparr>) = accepting a" "accepting (a\<lparr>a_buf := b\<rparr>) = accepting a"
  "accepting (a\<lparr>a_wakeups := n'\<rparr>) = accepting a" "accepting (a\<lparr>a_exiting := x\<rparr>) = accepting a"
  by (simp_all add: accepting_def)

lemma inv_broadcast [simp]: "agent_inv (broadcast e a) = agent_inv a"
  by (simp add: agent_inv_def broadcast_def)

lemma inv_tlog: "agent_inv a \<Longrightarrow> agent_inv (tlog stamp lvl m a)"
  by (simp add: agent_inv_def tlog_def)

lemma inv_idle: "a_tx a = None \<Longrightarrow> a_supervisor a = None \<Longrightarrow> length (a_buf a) \<le> 500 \<Longrightarrow> agent_inv a"
  by (simp add: agent_inv_def accepting_def)

lemma inv_disk: "agent_inv (a\<lparr>a_disk := d\<rparr>) = agent_inv a"
  by (simp add: agent_inv_def)

lemma inv_update_saved [simp]: "agent_inv (update_saved cr i f a) = agent_inv a"
  by (simp add: agent_inv_def update_saved_def split: option.splits)

lemma inv_start:
  assumes "agent_inv a"
  shows "agent_inv (start stamp c a)"
proof -
  have "accepting (a\<lparr>a_tx := map_option (\<lambda>(_, q). (False, q)) (a_tx a)\<rparr>) = False" by simp
  with assms show ?thesis by (auto simp: agent_inv_def start_def tlog_def Let_def)
qed

lemma inv_send_cmd: "agent_inv a \<Longrightarrow> agent_inv (fst (send_cmd c a))"
  by (auto simp: agent_inv_def send_cmd_def accepting_def split: option.splits)

lemma inv_request:
  assumes "agent_inv a"
  shows "agent_inv (fst (handle_request cr i r a))"
proof (cases r)
  case (Pair s otp n p e)
  then show ?thesis
    using assms by (auto simp: case_prod_beta Let_def inv_disk split: option.splits intro!: inv_start inv_tlog)
next
  case (SetTelemetry on)
  have "agent_inv (a\<lparr>a_telemetry := on\<rparr>)" using assms by (simp add: agent_inv_def)
  then show ?thesis using SetTelemetry by (simp add: inv_tlog)
qed (use assms in \<open>auto simp: inv_send_cmd, auto simp: agent_inv_def tlog_def Let_def\<close>)

lemma inv_ended: "agent_inv a \<Longrightarrow> agent_inv (actor_ended i x a)"
  by (cases x) (auto simp: agent_inv_def receiver_gone_def set_links_def tlog_def broadcast_def Let_def)

lemma inv_emitter: "agent_inv a \<Longrightarrow> agent_inv (emitter stamp e a)"
  by (cases e) (auto simp: inv_tlog agent_inv_def broadcast_def tlog_def)

lemma inv_agent_step:
  assumes "agent_inv a"
  shows "agent_inv (agent_step cr ei a)"
proof (cases ei)
  case (Pair e i)
  show ?thesis
  proof (cases e)
    case (AReq r)
    then show ?thesis using Pair inv_request [OF assms] by simp
  next
    case ALaunch
    then show ?thesis using Pair assms by (auto simp: launch_def agent_inv_def)
  next
    case (AEnded x)
    then show ?thesis using Pair inv_ended [OF assms] by simp
  next
    case (ACallback u)
    then show ?thesis using Pair inv_emitter [OF assms] by simp
  next
    case (ACliplog l)
    then show ?thesis using Pair assms by (simp add: emitter_cliplog_def)
  next
    case ATake
    then show ?thesis using Pair assms
      by (auto simp: take_cmd_def agent_inv_def accepting_def split: prod.splits)
  qed
qed

interpretation daemon: invariant_machine "agent_step cr" agent_inv for cr
  by unfold_locales (rule inv_agent_step)

lemma inv_build_engine: "build_engine cr stamp d hist fs buf = Some a \<Longrightarrow> length buf \<le> 500 \<Longrightarrow> agent_inv a"
  by (auto simp: build_engine_def Let_def split: option.splits intro!: inv_start inv_idle)

text \<open>Whatever requests, launches, exits of the actor and engine callbacks follow the start of
  the daemon: the telemetry buffer never holds more than 500 lines, commands are accepted
  only while a supervisor owns the engine, and a supervised daemon reports itself as paired.\<close>

theorem agent_run_invariant:
  assumes "build_engine cr stamp d hist fs buf = Some a0" and "length buf \<le> 500"
    and "a = fold (agent_step cr) es a0"
  shows "length (a_buf a) \<le> 500 \<and> (accepting a \<longrightarrow> a_supervisor a \<noteq> None)
    \<and> (a_supervisor a \<noteq> None \<longrightarrow> is_paired (status_snapshot a))"
proof -
  have "agent_inv a0" by (rule inv_build_engine [OF assms(1,2)])
  then have "agent_inv a" unfolding assms(3) by (rule daemon.run_inv)
  then show ?thesis by (simp add: agent_inv_def status_snapshot_def status_to_ipc_def)
qed

definition sample_dirs :: platform_dirs where
  "sample_dirs = \<lparr>pd_config = Some (lit ''/c''), pd_data = Some (lit ''/d''), pd_temp = lit ''/t''\<rparr>"

theorem agent_run_invariant_witness:
  "\<exists>a. build_engine sample_crates [] sample_dirs (Some open_in_memory) Map.empty [] = Some a \<and> length (a_buf a) \<le> 500"
proof -
  obtain a where a: "build_engine sample_crates [] sample_dirs (Some open_in_memory) Map.empty [] = Some a"
    by (simp add: build_engine_def Let_def)
  from agent_run_invariant [OF a, of a "[]"] a show ?thesis by simp
qed

subsection \<open>Settings and pairing\<close>

text \<open>The setting a request changes, as an update of the saved configuration.\<close>

fun setting :: "request \<Rightarrow> (config \<Rightarrow> config) option" where
  "setting (SetPrivacyFilter on) = Some (\<lambda>c. c\<lparr>c_exclude_sensitive := on\<rparr>)"
| "setting (SetAutoClear secs) = Some (\<lambda>c. c\<lparr>c_auto_clear_secs := secs\<rparr>)"
| "setting (SetMarkSensitive on) = Some (\<lambda>c. c\<lparr>c_mark_received_sensitive := on\<rparr>)"
| "setting (SetTelemetry on) = Some (\<lambda>c. c\<lparr>c_telemetry := on\<rparr>)"
| "setting _ = None"

definition saved_settings :: "config \<Rightarrow> bool \<times> u64 \<times> bool \<times> bool" where
  "saved_settings c = (c_exclude_sensitive c, c_auto_clear_secs c, c_mark_received_sensitive c, c_telemetry c)"

definition shown_settings :: "ipc_status \<Rightarrow> bool \<times> u64 \<times> bool \<times> bool" where
  "shown_settings s = (is_privacy_filter s, is_auto_clear_secs s, is_mark_sensitive s, is_telemetry s)"

lemmas settings_defs = saved_settings_def shown_settings_def status_snapshot_def status_to_ipc_def

lemma saved_then_loaded:
  assumes "json_inverts cr" and "json_to_vec_pretty cr (config_to_json c) = Some b"
  shows "config_save cr True Written fs path c = (fs(path \<mapsto> b), True)"
    and "config_load cr (fs(path \<mapsto> b)) path = Some c"
proof -
  have "json_from_slice cr b = Some (config_to_json c)"
    using assms by (auto simp: json_inverts_def)
  then show "config_load cr (fs(path \<mapsto> b)) path = Some c"
    by (simp add: config_load_def config_json_roundtrip)
  show "config_save cr True Written fs path c = (fs(path \<mapsto> b), True)"
    using assms by (simp add: config_save_def)
qed

lemma update_saved_disk:
  assumes "json_inverts cr" and "config_load cr (a_disk a) (a_cfg_path a) = Some c"
    and "ai_mkdir i" and "ai_write i = Written" and "json_to_vec_pretty cr (config_to_json (f c)) = Some b"
  shows "config_load cr (a_disk (update_saved cr i f a)) (a_cfg_path a) = Some (f c)"
  using assms(2-4) saved_then_loaded [OF assms(1,5)] by (simp add: update_saved_def)

lemma update_saved_frame [simp]:
  "a_exclude (update_saved cr i f a) = a_exclude a" "a_auto_clear (update_saved cr i f a) = a_auto_clear a"
  "a_mark (update_saved cr i f a) = a_mark a" "a_telemetry (update_saved cr i f a) = a_telemetry a"
  "a_cfg_path (update_saved cr i f a) = a_cfg_path a" "a_tx (update_saved cr i f a) = a_tx a"
  "a_supervisor (update_saved cr i f a) = a_supervisor a" "a_status (update_saved cr i f a) = a_status a"
  "a_roster (update_saved cr i f a) = a_roster a" "a_events (update_saved cr i f a) = a_events a"
  by (simp_all add: update_saved_def split: option.splits)

lemma setting_effect:
  assumes "json_inverts cr" and "setting r = Some f"
    and "config_load cr (a_disk a) (a_cfg_path a) = Some c"
    and "ai_mkdir i" and "ai_write i = Written" and "json_to_vec_pretty cr (config_to_json (f c)) \<noteq> None"
    and "shown_settings (status_snapshot a) = saved_settings c"
  shows "snd (handle_request cr i r a) = ROk"
    and "config_load cr (a_disk (fst (handle_request cr i r a))) (a_cfg_path a) = Some (f c)"
    and "shown_settings (status_snapshot (fst (handle_request cr i r a))) = saved_settings (f c)"
proof -
  obtain b where b: "json_to_vec_pretty cr (config_to_json (f c)) = Some b" using assms(6) by blast
  have load: "config_load cr (a_disk (update_saved cr i f a')) (a_cfg_path a) = Some (f c)"
    if "a_disk a' = a_disk a" "a_cfg_path a' = a_cfg_path a" for a'
    using update_saved_disk [where a = a' and f = f and c = c, OF assms(1) _ assms(4,5) b] assms(3) that by simp
  show "snd (handle_request cr i r a) = ROk"
    using assms(2) by (cases r) simp_all
  show "config_load cr (a_disk (fst (handle_request cr i r a))) (a_cfg_path a) = Some (f c)"
    using assms(2) by (cases r) (auto simp: tlog_def load)
  show "shown_settings (status_snapshot (fst (handle_request cr i r a))) = saved_settings (f c)"
    using assms(2,7) by (cases r) (auto simp: settings_defs tlog_def)
qed

lemma setting_frame:
  assumes "setting r = Some f"
  shows "a_tx (fst (handle_request cr i r a)) = a_tx a"
    "a_cfg_path (fst (handle_request cr i r a)) = a_cfg_path a"
    "a_supervisor (fst (handle_request cr i r a)) = a_supervisor a"
  using assms by (cases r; simp add: tlog_def)+

text \<open>C14. Changing a setting takes effect at once and lasts: when the live settings agree with the
  saved configuration and the file can be written, the request is acknowledged, the next
  status shows the new value, the saved configuration differs from the old one in that
  setting only, and the two agree again.\<close>

theorem setting_saved_and_shown:
  assumes "json_inverts cr" and "setting r = Some f"
    and "config_load cr (a_disk a) (a_cfg_path a) = Some c"
    and "ai_mkdir i" and "ai_write i = Written" and "json_to_vec_pretty cr (config_to_json (f c)) \<noteq> None"
    and "shown_settings (status_snapshot a) = saved_settings c"
    and "handle_request cr i r a = (a', resp)"
  shows "resp = ROk \<and> config_load cr (a_disk a') (a_cfg_path a) = Some (f c)
    \<and> shown_settings (status_snapshot a') = saved_settings (f c)"
  using setting_effect [OF assms(1-7)] assms(8) by simp

text \<open>Crates whose JSON codec knows two configurations and an answer to a claim, an agent and answers of the outside.\<close>

definition cleared_config :: config where
  "cleared_config = sample_config\<lparr>c_auto_clear_secs := 30\<rparr>"

definition two_config_crates :: crates where
  "two_config_crates = sample_crates\<lparr>
     json_to_vec_pretty := (\<lambda>v. if v = config_to_json sample_config then Some [1]
        else if v = config_to_json cleared_config then Some [2] else None),
     json_from_slice := (\<lambda>b. if b = [1] then Some (config_to_json sample_config)
        else if b = [2] then Some (config_to_json cleared_config) else Some sample_claim_json),
     json_to_vec := (\<lambda>v. None)\<rparr>"

definition sample_agent :: agent where
  "sample_agent = \<lparr>a_hist = open_in_memory, a_status = default_status\<lparr>st_paired := True\<rparr>, a_roster = [],
     a_targets = All, a_exclude = True, a_auto_clear = 0, a_mark = False, a_telemetry = True,
     a_cfg_path = lit ''c'', a_disk = [lit ''c'' \<mapsto> [1]], a_tx = Some (True, []),
     a_supervisor = Some sample_config, a_attempt = 0, a_events = [], a_buf = [], a_wakeups = 0,
     a_exiting = False\<rparr>"

definition sample_aio :: aio where
  "sample_aio = \<lparr>ai_stamp = [], ai_sql = True, ai_mkdir = True, ai_write = Written, ai_get = (\<lambda>_. None),
     ai_post = (\<lambda>_ _ _. None), ai_mdns = None, ai_subsec = Some 0\<rparr>"

lemma two_config_json: "json_inverts two_config_crates"
  by (auto simp: json_inverts_def two_config_crates_def split: if_splits)

lemma two_configs: "config_to_json cleared_config \<noteq> config_to_json sample_config"
proof
  assume "config_to_json cleared_config = config_to_json sample_config"
  then have "Some cleared_config = Some sample_config"
    by (metis config_json_roundtrip)
  then show False by (simp add: cleared_config_def sample_config_def)
qed

lemma sample_agent_load:
  "config_load two_config_crates (a_disk sample_agent) (a_cfg_path sample_agent) = Some sample_config"
  by (simp add: config_load_def sample_agent_def two_config_crates_def config_json_roundtrip)

lemma sample_aio_simps [simp]:
  "ai_mkdir sample_aio" "ai_write sample_aio = Written" "ai_stamp sample_aio = []"
  by (simp_all add: sample_aio_def)

theorem setting_saved_and_shown_witness:
  "config_load two_config_crates (a_disk (fst (handle_request two_config_crates sample_aio (SetAutoClear 30) sample_agent)))
     (a_cfg_path sample_agent) = Some cleared_config"
proof -
  have f: "setting (SetAutoClear 30) = Some (\<lambda>c. c\<lparr>c_auto_clear_secs := 30\<rparr>)" by simp
  have "json_to_vec_pretty two_config_crates (config_to_json cleared_config) \<noteq> None"
    by (simp add: two_config_crates_def)
  then show ?thesis
    using setting_saved_and_shown [OF two_config_json f sample_agent_load _ _ _ _ surjective_pairing, of sample_aio]
    by (simp add: settings_defs cleared_config_def sample_agent_def sample_config_def)
qed

text \<open>C13. Pairing lasts: when the server accepts the claim and the configuration is saved, the client
  is told that the daemon is paired, the engine is supervised with the claimed identity, and
  a daemon started later from the same disk is paired with the same identity and shows the
  same settings.\<close>

theorem pairing_survives_restart:
  assumes "json_inverts cr" and "claim cr (ai_get i) (ai_post i) server pin otp name pass = Some c"
    and "ai_mkdir i" and "ai_write i = Written" and "json_to_vec_pretty cr (config_to_json c) \<noteq> None"
    and "a_cfg_path a = path_join (config_dir d) (lit ''config.json'')"
    and "handle_request cr i (Pair server otp name pin pass) a = (a', resp)"
  shows "resp = RPaired (status_snapshot a') \<and> is_paired (status_snapshot a') \<and> a_supervisor a' = Some c
    \<and> (\<exists>b. build_engine cr stamp d (Some h) (a_disk a') [] = Some b \<and> a_supervisor b = Some c
          \<and> is_paired (status_snapshot b)
          \<and> shown_settings (status_snapshot b) = shown_settings (status_snapshot a'))"
proof -
  obtain fs where save: "config_save cr (ai_mkdir i) (ai_write i) (a_disk a) (a_cfg_path a) c = (fs, True)"
    and load: "config_load cr fs (a_cfg_path a) = Some c"
    using assms(3-5) saved_then_loaded [OF assms(1)] by force
  have a': "a' = start (ai_stamp i) c (tlog (ai_stamp i) ''info'' TPaired (a\<lparr>a_disk := fs\<rparr>))"
    and resp: "resp = RPaired (status_snapshot a')"
    using assms(2,7) save by (auto simp: Let_def)
  have fields: "is_paired (status_snapshot (start st c x)) \<and> a_supervisor (start st c x) = Some c
      \<and> shown_settings (status_snapshot (start st c x)) = saved_settings c \<and> a_disk (start st c x) = a_disk x" for st x
    by (simp add: start_def settings_defs tlog_def Let_def)
  have disk: "a_disk a' = fs" by (simp add: a' fields tlog_def)
  obtain x where b: "build_engine cr stamp d (Some h) (a_disk a') [] = Some (start stamp c x)"
    using load by (simp add: build_engine_def disk assms(6) Let_def)
  show ?thesis unfolding b resp using fields by (simp add: a')
qed

definition claim_aio :: aio where
  "claim_aio = sample_aio\<lparr>ai_post := (\<lambda>_ _ _. Some (200, [3]))\<rparr>"

lemma sample_claim:
  "claim two_config_crates (ai_get claim_aio) (ai_post claim_aio) (lit ''https://h:1'') (replicate 32 65)
     (lit ''1'') (lit ''pc'') [] = Some sample_config"
proof -
  have "trim (replicate 32 65) = replicate 32 65"
    by (rule trim_replicate) (simp add: is_whitespace_def)
  then show ?thesis
    by (simp add: claim_def decode_pin_def two_config_crates_def sample_crates_def is_success_def claim_aio_def
        sample_claim_json_def claim_resp_of_json_def struct_fields_def req_def sample_config_def trim_end_by_def)
qed

theorem pairing_survives_restart_witness:
  "\<exists>a' b. handle_request two_config_crates claim_aio
       (Pair (lit ''https://h:1'') (lit ''1'') (lit ''pc'') (replicate 32 65) [])
       (sample_agent\<lparr>a_cfg_path := path_join (config_dir sample_dirs) (lit ''config.json'')\<rparr>)
       = (a', RPaired (status_snapshot a'))
     \<and> build_engine two_config_crates [] sample_dirs (Some open_in_memory) (a_disk a') [] = Some b
     \<and> a_supervisor b = Some sample_config"
proof -
  let ?a = "sample_agent\<lparr>a_cfg_path := path_join (config_dir sample_dirs) (lit ''config.json'')\<rparr>"
  obtain a' resp where r: "handle_request two_config_crates claim_aio
      (Pair (lit ''https://h:1'') (lit ''1'') (lit ''pc'') (replicate 32 65) []) ?a = (a', resp)"
    by (meson surj_pair)
  have io: "ai_mkdir claim_aio" "ai_write claim_aio = Written"
    by (simp_all add: claim_aio_def)
  have enc: "json_to_vec_pretty two_config_crates (config_to_json sample_config) \<noteq> None"
    by (simp add: two_config_crates_def)
  have path: "a_cfg_path ?a = path_join (config_dir sample_dirs) (lit ''config.json'')" by simp
  show ?thesis
    using pairing_survives_restart [OF two_config_json sample_claim io enc path r, of "[]" open_in_memory] r
    by blast
qed

end
