(* ===== verification/Gui_Props.thy ===== *)
theory Gui_Props
  imports Gui Agent_Props
begin

text \<open>
  Properties of the desktop GUI: its state over whole sessions (an inductive step relation), its
  hotkey, its wallpaper, and the GUI together with the agent it talks to. What the GUI expects of
  the agent's settings is an interface, interpreted on the agent's handler of requests.
\<close>

subsection \<open>The log\<close>

interpretation gui_log: bounded_fifo log_push gu_log 800
  by unfold_locales (simp_all add: log_push_def Let_def)

subsection \<open>Sessions\<close>

text \<open>An input the GUI can get: there is no click in a window that was hidden when the frame began,
  nor in the frame that closes it.\<close>

fun input_ok :: "gui \<Rightarrow> gui_input \<Rightarrow> bool" where
  "input_ok g (Frame f) \<longleftrightarrow> f_action f = None \<or> gu_visible g \<and> \<not> f_close f"
| "input_ok g _ \<longleftrightarrow> True"

text \<open>Reachable states: the desktop and the agent may answer differently at every step.\<close>

inductive gui_reachable :: "gui \<times> 'w \<Rightarrow> bool" where
  start: "gui_reachable (app_new k fs, w)"
| step: "gui_reachable (g, w) \<Longrightarrow> input_ok g x \<Longrightarrow> gui_reachable (gui_step ask k x (g, w))"

definition log_ok :: "gui \<Rightarrow> bool" where
  "log_ok g \<longleftrightarrow> length (gu_log g) \<le> 800"

definition search_ok :: "gui \<Rightarrow> bool" where
  "search_ok g \<longleftrightarrow> (gu_discovering g \<longleftrightarrow> gu_discover_rx g \<noteq> None)"

definition hotkey_ok :: "gui \<Rightarrow> bool" where
  "hotkey_ok g \<longleftrightarrow> (\<forall>hk. gu_hotkey_current g = Some hk \<longrightarrow> hk \<in> set (gu_registered g))"

definition way_back :: "gui \<Rightarrow> bool" where
  "way_back g \<longleftrightarrow> gu_exited g \<or> gu_visible g \<or> gu_tray g \<or> gu_hotkey_current g \<noteq> None"

text \<open>What every part of a frame except the close button and the click does at most.\<close>

definition calm :: "gui \<Rightarrow> gui \<Rightarrow> bool" where
  "calm g g' \<longleftrightarrow> gu_hotkey_current g' = gu_hotkey_current g \<and> gu_registered g' = gu_registered g
     \<and> (gu_tray g \<longrightarrow> gu_tray g') \<and> (gu_visible g \<longrightarrow> gu_visible g') \<and> (gu_exited g \<longrightarrow> gu_exited g')
     \<and> (log_ok g \<longrightarrow> log_ok g') \<and> (search_ok g \<longrightarrow> search_ok g')"

lemma calm_refl [simp, intro]: "calm g g"
  by (simp add: calm_def)

lemma calm_trans [trans]: "calm g g' \<Longrightarrow> calm g' g'' \<Longrightarrow> calm g g''"
  by (simp add: calm_def)

lemma calm_way_back: "calm g g' \<Longrightarrow> way_back g \<Longrightarrow> way_back g'"
  by (auto simp: calm_def way_back_def)

lemma calm_hotkey: "calm g g' \<Longrightarrow> hotkey_ok g \<Longrightarrow> hotkey_ok g'"
  by (simp add: calm_def hotkey_ok_def)

lemma log_push_calm: "calm g (log_push l g)"
proof -
  have "log_ok g \<Longrightarrow> log_ok (log_push l g)" unfolding log_ok_def by (rule gui_log.push_bounded)
  moreover have "search_ok (log_push l g) = search_ok g" by (simp add: search_ok_def log_push_def Let_def)
  ultimately show ?thesis by (simp add: calm_def) (simp add: log_push_def Let_def)
qed

lemma logline_calm [intro]: "calm g g' \<Longrightarrow> calm g (logline k force m g')"
  using calm_trans log_push_calm by (auto simp: logline_def)

text \<open>An update of fields that sessions do not depend on.\<close>

lemma calm_update:
  "gu_hotkey_current g' = gu_hotkey_current g \<Longrightarrow> gu_registered g' = gu_registered g \<Longrightarrow> gu_tray g' = gu_tray g
     \<Longrightarrow> gu_visible g' = gu_visible g \<Longrightarrow> gu_exited g' = gu_exited g \<Longrightarrow> gu_log g' = gu_log g
     \<Longrightarrow> gu_discovering g' = gu_discovering g \<Longrightarrow> gu_discover_rx g' = gu_discover_rx g \<Longrightarrow> calm g g'"
  by (simp add: calm_def log_ok_def search_ok_def)

lemma op_calm [intro]:
  "calm g g' \<Longrightarrow> calm g (adopt_status s g')" "calm g g' \<Longrightarrow> calm g (push_toast t g')"
  "calm g g' \<Longrightarrow> calm g (g'\<lparr>gu_roster := r\<rparr>)" "calm g g' \<Longrightarrow> calm g (g'\<lparr>gu_history := h\<rparr>)"
  "calm g g' \<Longrightarrow> calm g (g'\<lparr>gu_tab := b\<rparr>)" "calm g g' \<Longrightarrow> calm g (show_window g')"
  "calm g g' \<Longrightarrow> calm g (expire_toasts now g')"
  by (simp_all add: calm_def adopt_status_def push_toast_def show_window_def expire_toasts_def log_ok_def search_ok_def)

lemma calm_alive: "(\<And>gw. calm (fst gw) (fst (f gw))) \<Longrightarrow> calm (fst gw) (fst (alive f gw))"
  by (simp add: alive_def)

lemma calm_fold:
  assumes "\<And>x gw. calm (fst gw) (fst (f x gw))"
  shows "calm (fst gw) (fst (fold f xs gw))"
proof (induction xs arbitrary: gw)
  case (Cons x xs)
  from calm_trans [OF assms Cons.IH] show ?case by simp
qed simp

lemma reload_calm:
  "calm (fst gw) (fst (reload_history ask k gw))" "calm (fst gw) (fst (reload_status ask gw))"
  "calm (fst gw) (fst (reload_roster ask gw))"
  by (auto simp: reload_history_def reload_status_def reload_roster_def Let_def case_prod_beta
      split: sum.split response.split)

lemma reload_history_calm [intro]: "calm g (fst gw) \<Longrightarrow> calm g (fst (reload_history ask k gw))"
  using calm_trans reload_calm(1) by blast

lemma reload_roster_calm [intro]: "calm g (fst gw) \<Longrightarrow> calm g (fst (reload_roster ask gw))"
  using calm_trans reload_calm(3) by blast

lemma pump_event_calm: "calm (fst gw) (fst (pump_event ask k now e gw))"
proof -
  obtain g w where gw: "gw = (g, w)" by (cases gw)
  have "calm g (fst (pump_event ask k now e (g, w)))"
  proof (cases e)
    case (FromAgent v)
    then show ?thesis
    proof (cases v)
      case (EClip c)
      have "calm g (fst (reload_history ask k (logline k b m g, w)))" for b m
        by (rule reload_history_calm) (simp add: logline_calm)
      then show ?thesis using FromAgent EClip by (auto simp: Let_def split: option.split)
    qed (use FromAgent in auto)
  qed auto
  then show ?thesis using gw by simp
qed

lemma really_quit_calm: "calm (fst gw) (fst (really_quit ask k gw))"
  by (auto simp: really_quit_def case_prod_beta calm_def logline_def log_push_def Let_def log_ok_def search_ok_def)

lemma shell_events_calm: "calm (fst gw) (fst (pump_shell_events ask k f gw))"
proof -
  have menu: "calm (fst gw) (fst (on_menu ask k i gw))" for i and gw :: "gui \<times> 'a"
    using really_quit_calm [of gw] by (auto simp: on_menu_def simp del: lit_simps)
  have key: "calm (fst gw) (fst (on_key ask k b gw))" for b and gw :: "gui \<times> 'a"
    by (auto simp: on_key_def case_prod_beta intro!: op_calm reload_history_calm)
  have click: "calm (fst gw) (fst ((\<lambda>(g, w). (if b then show_window g else g, w)) gw))" for b and gw :: "gui \<times> 'a"
    by (auto simp: case_prod_beta)
  let ?g1 = "fold (\<lambda>i. alive (on_menu ask k i)) (f_menu f) gw"
  let ?g2 = "fold (\<lambda>b. alive (\<lambda>(g, w). (if b then show_window g else g, w))) (f_clicks f) ?g1"
  have "calm (fst gw) (fst ?g1)" by (intro calm_fold calm_alive menu)
  also have "calm (fst ?g1) (fst ?g2)" by (intro calm_fold calm_alive click)
  also have "calm (fst ?g2) (fst (fold (\<lambda>b. alive (on_key ask k b)) (f_keys f) ?g2))" by (intro calm_fold calm_alive key)
  finally show ?thesis by (simp add: pump_shell_events_def Let_def)
qed

lemma start_of_frame_calm: "calm (fst gw) (fst (bootstrap ask k (on_gui (ensure_tray k) (on_gui (refresh_wallpaper k) gw))))"
proof -
  have wallpaper: "calm g (refresh_wallpaper k g)" for g
    by (auto simp: refresh_wallpaper_def Let_def intro!: logline_calm calm_update split: option.split)
  have tray: "calm g (ensure_tray k g)" for g
    by (auto simp: ensure_tray_def calm_def log_ok_def search_ok_def logline_def log_push_def Let_def)
  have boot: "calm (fst gw) (fst (bootstrap ask k gw))" for gw :: "gui \<times> 'a"
  proof -
    let ?g0 = "((fst gw)\<lparr>gu_bootstrapped := True\<rparr>, snd gw)"
    have "calm (fst gw) (fst (reload_status ask ?g0))"
      by (rule calm_trans [OF _ reload_calm(2)]) (simp add: calm_update)
    then show ?thesis by (auto simp: bootstrap_def Let_def case_prod_beta)
  qed
  let ?g1 = "on_gui (refresh_wallpaper k) gw" and ?g2 = "on_gui (ensure_tray k) (on_gui (refresh_wallpaper k) gw)"
  have "calm (fst gw) (fst ?g1)" by (simp add: on_gui_def wallpaper)
  also have "calm (fst ?g1) (fst ?g2)" by (simp add: on_gui_def tray)
  also have "calm (fst ?g2) (fst (bootstrap ask k ?g2))" by (rule boot)
  finally show ?thesis .
qed

lemma polls_calm:
  "calm g (poll_discovery k g)" "calm (fst gw) (fst (poll_pair ask k gw))"
proof -
  show "calm g (poll_discovery k g)"
    by (auto simp: poll_discovery_def split: option.split worker.split sum.split intro!: logline_calm)
      (auto simp: calm_def log_ok_def search_ok_def)
  have "calm g (g\<lparr>gu_pair_rx := x, gu_pair_status := y\<rparr>)" "calm g (g\<lparr>gu_pair_rx := x\<rparr>)" for g x y
    by (simp_all add: calm_update)
  then show "calm (fst gw) (fst (poll_pair ask k gw))"
    by (auto simp: poll_pair_def Let_def case_prod_beta split: option.split worker.split sum.split
        intro!: reload_roster_calm op_calm logline_calm)
qed

lemma frame_start_calm: "calm (fst gw) (fst (frame_start ask k f gw))"
  unfolding frame_start_def by (rule calm_trans [OF start_of_frame_calm shell_events_calm])

lemma frame_rest_calm: "calm (fst gw) (fst (frame_rest ask k f gw))"
proof -
  let ?g3 = "alive (pump_events ask k (f_now f) (f_events f)) gw"
  let ?g4 = "alive (on_gui (poll_discovery k)) ?g3"
  let ?g5 = "alive (poll_pair ask k) ?g4"
  have "calm (fst gw) (fst ?g3)" by (rule calm_alive) (simp add: pump_events_def calm_fold pump_event_calm)
  also have "calm (fst ?g3) (fst ?g4)" by (rule calm_alive) (simp add: on_gui_def polls_calm)
  also have "calm (fst ?g4) (fst ?g5)" by (rule calm_alive) (rule polls_calm)
  also have "calm (fst ?g5) (fst (alive (on_gui (expire_toasts (f_now f))) ?g5))"
    by (rule calm_alive) (auto simp: on_gui_def)
  finally show ?thesis by (simp add: frame_rest_def)
qed

subsection \<open>Clicks\<close>

text \<open>The invariant of a session.\<close>

definition gui_inv :: "gui \<Rightarrow> bool" where
  "gui_inv g \<longleftrightarrow> log_ok g \<and> search_ok g \<and> hotkey_ok g \<and> way_back g"

lemma calm_inv: "calm g g' \<Longrightarrow> gui_inv g \<Longrightarrow> gui_inv g'"
  using calm_way_back calm_hotkey by (auto simp: gui_inv_def calm_def)

text \<open>What a click does at most: unlike the rest of the frame it may change the hotkey and start a
  search.\<close>

definition steady :: "gui \<Rightarrow> gui \<Rightarrow> bool" where
  "steady g g' \<longleftrightarrow> gu_visible g' = gu_visible g \<and> (log_ok g \<longrightarrow> log_ok g') \<and> (search_ok g \<longrightarrow> search_ok g') \<and> (hotkey_ok g \<longrightarrow> hotkey_ok g')"

lemma steady_inv: "steady g g' \<Longrightarrow> gu_visible g \<Longrightarrow> gui_inv g \<Longrightarrow> gui_inv g'"
  by (auto simp: steady_def gui_inv_def way_back_def)

lemma steady_refl [simp, intro]: "steady g g"
  by (simp add: steady_def)

lemma steady_trans [trans]: "steady g g' \<Longrightarrow> steady g' g'' \<Longrightarrow> steady g g''"
  by (simp add: steady_def)

lemma steady_update:
  "gu_hotkey_current g' = gu_hotkey_current g \<Longrightarrow> gu_registered g' = gu_registered g \<Longrightarrow> gu_visible g' = gu_visible g
     \<Longrightarrow> gu_log g' = gu_log g \<Longrightarrow> gu_discovering g' = gu_discovering g \<Longrightarrow> gu_discover_rx g' = gu_discover_rx g \<Longrightarrow> steady g g'"
  by (simp add: steady_def log_ok_def search_ok_def hotkey_ok_def)

lemma logline_steady: "steady g g' \<Longrightarrow> steady g (logline k force m g')"
  by (auto simp: steady_def logline_def log_push_def Let_def log_ok_def search_ok_def hotkey_ok_def)

lemma persist_steady: "steady g g' \<Longrightarrow> steady g (persist k g')" "steady g g' \<Longrightarrow> steady g (persist_if b k g')"
  by (simp_all add: persist_def persist_if_def steady_def log_ok_def search_ok_def hotkey_ok_def)

lemma field_steady: "steady g g' \<Longrightarrow> steady g (gu_status_update h g')" "steady g g' \<Longrightarrow> steady g (gu_send_text_update u g')"
  by (simp_all add: steady_def log_ok_def search_ok_def hotkey_ok_def)

lemma reload_history_steady: "steady g (fst gw) \<Longrightarrow> steady g (fst (reload_history ask k gw))"
  by (rule steady_trans, assumption)
    (auto simp: reload_history_def Let_def case_prod_beta split: sum.split response.split intro!: logline_steady steady_update)

lemma told_steady:
  "steady g (fst gw) \<Longrightarrow> steady g (yes (fst gw)) \<Longrightarrow> steady g (fst (told ask k r yes no gw))"
  by (auto simp: told_def Let_def case_prod_beta split: sum.split intro!: logline_steady)

lemma write_through_steady: "steady g (fst gw) \<Longrightarrow> steady g (fst (write_through ask k r m gw))"
  by (auto simp: write_through_def Let_def case_prod_beta intro!: logline_steady)

lemma send_targets_steady: "steady g (fst gw) \<Longrightarrow> steady g (fst (send_targets ask k gw))"
  by (auto simp: send_targets_def intro!: told_steady logline_steady)

lemmas steady_intros = field_steady logline_steady persist_steady reload_history_steady told_steady write_through_steady send_targets_steady

lemma apply_hotkey_steady: "steady g (apply_hotkey k spec g)"
  by (auto simp: apply_hotkey_def Let_def split: option.split intro!: logline_steady persist_steady)
    (auto simp: steady_def log_ok_def search_ok_def hotkey_ok_def)

lemma tab_connect_steady: "steady (fst gw) (fst (tab_connect ask k a gw))"
  by (cases a) (auto simp: tab_connect_def Let_def case_prod_beta intro!: steady_intros steady_update)

lemma tab_history_steady: "steady (fst gw) (fst (tab_history ask k a gw))"
  by (cases a) (auto simp: tab_history_def Let_def case_prod_beta intro!: steady_intros steady_update)

lemma tab_settings_steady: "steady (fst gw) (fst (tab_settings ask k a gw))"
proof (cases a)
  case ADiscover
  then show ?thesis
    by (simp add: tab_settings_defs start_discovery_def case_prod_beta) (simp add: steady_def log_ok_def search_ok_def hotkey_ok_def)
qed (auto simp: tab_settings_defs do_pair_def Let_def case_prod_beta apply_hotkey_steady intro!: steady_intros steady_update)

lemma act_steady: "steady (fst gw) (fst (act ask k a gw))"
proof -
  have "steady (fst gw) (fst (tab_button ask k t gw))" for t
    by (auto simp: tab_button_def Let_def case_prod_beta intro!: steady_intros steady_update)
  moreover have "steady g (tab_debug a g)" for g
    by (auto simp: tab_debug_def steady_def log_ok_def search_ok_def hotkey_ok_def split: action.split)
  ultimately show ?thesis
    by (auto simp: act_def tab_connect_steady tab_history_steady tab_settings_steady split: action.split tab.split)
qed

subsection \<open>Whole sessions\<close>

lemma on_close_inv: "gui_inv (fst gw) \<Longrightarrow> gui_inv (fst (on_close ask k gw))"
proof -
  assume inv: "gui_inv (fst gw)"
  show ?thesis
  proof (cases "gu_tray (fst gw) \<or> gu_hotkey_current (fst gw) \<noteq> None")
    case True
    then show ?thesis using inv
      by (auto simp: on_close_def case_prod_beta gui_inv_def way_back_def log_ok_def search_ok_def hotkey_ok_def)
  next
    case False
    then show ?thesis using calm_inv [OF really_quit_calm inv] by (simp add: on_close_def case_prod_beta)
  qed
qed

lemma alive_inv: "gui_inv (fst gw) \<Longrightarrow> (\<And>gw. gui_inv (fst gw) \<Longrightarrow> gui_inv (fst (f gw))) \<Longrightarrow> gui_inv (fst (alive f gw))"
  by (simp add: alive_def)

lemma gui_update_inv:
  assumes "gui_inv (fst gw)" and "input_ok (fst gw) (Frame f)"
  shows "gui_inv (fst (gui_update ask k f gw))"
proof -
  let ?g1 = "frame_start ask k f gw"
  let ?g2 = "if f_close f then alive (on_close ask k) ?g1 else ?g1"
  let ?g3 = "frame_rest ask k f ?g2"
  have 1: "gui_inv (fst ?g1)" by (rule calm_inv [OF frame_start_calm assms(1)])
  have 2: "gui_inv (fst ?g2)" using 1 alive_inv [OF 1 on_close_inv] by simp
  have 3: "gui_inv (fst ?g3)" by (rule calm_inv [OF frame_rest_calm 2])
  show ?thesis
  proof (cases "f_action f")
    case None
    then show ?thesis using 3 by (simp add: gui_update_def Let_def)
  next
    case (Some a)
    then have "gu_visible (fst gw)" "\<not> f_close f" using assms(2) by auto
    then have "gu_visible (fst ?g3)"
      using calm_trans [OF frame_start_calm frame_rest_calm, of gw ask k f ask k f] by (simp add: calm_def)
    then have "gui_inv (fst (alive (act ask k a) ?g3))"
      using steady_inv [OF act_steady _ 3] 3 by (simp add: alive_def)
    then show ?thesis using Some by (simp add: gui_update_def Let_def)
  qed
qed

lemma gui_step_inv:
  assumes "gui_inv (fst gw)" and "input_ok (fst gw) x"
  shows "gui_inv (fst (gui_step ask k x gw))"
proof (cases x)
  case (Frame f)
  then show ?thesis using gui_update_inv [of gw f ask k] assms by (simp add: alive_def)
next
  case DiscoverDone
  have "calm (fst gw) (fst (discover_worker ask gw))" for gw :: "gui \<times> 'a"
    by (auto simp: discover_worker_def Let_def case_prod_beta) (auto simp: calm_def log_ok_def search_ok_def)
  then show ?thesis using DiscoverDone calm_inv [OF calm_alive assms(1)] by simp
next
  case PairDone
  have "calm (fst gw) (fst (pair_worker ask gw))" for gw :: "gui \<times> 'a"
    by (auto simp: pair_worker_def Let_def case_prod_beta split: option.split worker.split intro!: calm_update)
  then show ?thesis using PairDone calm_inv [OF calm_alive assms(1)] by simp
next
  case WorkersGone
  then show ?thesis using assms(1)
    by (auto simp: alive_def on_gui_def gui_inv_def way_back_def log_ok_def search_ok_def hotkey_ok_def)
qed

lemma app_new_inv: "gui_inv (app_new k fs)"
proof (cases "init_hotkey k (p_hotkey (load_prefs (gd_crates k) (gd_dirs k) fs))")
  case (Inl m)
  show ?thesis unfolding app_new_def Let_def Inl sum.case
    by (rule calm_inv [OF logline_calm [OF calm_refl]]) (simp add: gui_inv_def way_back_def log_ok_def search_ok_def hotkey_ok_def)
next
  case (Inr hk)
  then show ?thesis
    by (simp add: app_new_def Let_def gui_inv_def way_back_def log_ok_def search_ok_def hotkey_ok_def)
qed

lemma gui_reachable_inv: "gui_reachable gw \<Longrightarrow> gui_inv (fst gw)"
proof (induction rule: gui_reachable.induct)
  case (start k fs w)
  show ?case by (simp add: app_new_inv)
next
  case (step g w x ask k)
  from gui_step_inv [of "(g, w)" x ask k] step show ?case by simp
qed


text \<open>A desktop for evaluation: it has hotkeys, of which the listed ones are free, and a tray or not.\<close>

definition sample_gdesk :: "bool \<Rightarrow> nat list \<Rightarrow> gdesk" where
  "sample_gdesk tray free = \<lparr>gd_mgr = True, gd_parse = (\<lambda>s. Some (length s)), gd_grants = (\<lambda>_ h. h \<in> set free),
     gd_releases = (\<lambda>_. True), gd_tray = tray, gd_autostart = False, gd_autoset = True,
     gd_image = \<lparr>im_open = (\<lambda>_. None), im_resize = (\<lambda>i w h. i\<lparr>width := w, height := h\<rparr>), im_blur = (\<lambda>i _. i)\<rparr>,
     gd_crates = sample_crates, gd_dirs = sample_dirs, gd_write = Written, gd_secs = 0\<rparr>"

definition quiet_frame :: "bool \<Rightarrow> frame_in" where
  "quiet_frame close = \<lparr>f_now = 0, f_menu = [], f_clicks = [], f_keys = [], f_close = close, f_events = [], f_action = None\<rparr>"

definition no_agent :: "unit ask" where
  "no_agent r w = (w, NoAgent)"

lemmas gui_eval = app_new_def init_hotkey_def sample_gdesk_def quiet_frame_def gui_update_def frame_start_def frame_rest_def
  on_gui_def ensure_tray_def refresh_wallpaper_def needs_rebuild_def bootstrap_def reload_status_def reload_roster_def
  reload_history_def gui_request_def request_ok_def no_agent_def pump_shell_events_def alive_def on_close_def
  really_quit_def logline_def log_push_def Let_def load_prefs_def sample_dirs_def prefs_path_def bg_from_prefs_def
  default_prefs_def trim_def trim_end_by_def pump_events_def poll_discovery_def poll_pair_def expire_toasts_def


subsection \<open>The hotkey\<close>

text \<open>A refused hotkey costs the user the working one: when the desktop refuses the new hotkey, the old
  one has already been released and the GUI is left without any, although its comment says that the
  previous one stays active. The refused text stays in the input field, so the next change of
  any other preference saves it as the hotkey of the next start.\<close>

theorem refused_hotkey_loses_old:
  assumes "gu_hotkey_mgr g" and "gu_hotkey_current g = Some old" and "gd_releases k old"
    and "gd_parse k (trim t) = Some hk" and "\<not> gd_grants k (filter (\<lambda>x. x \<noteq> old) (gu_registered g)) hk"
    and "m \<noteq> gu_theme_mode g" and "trim t \<noteq> []"
    and "json_inverts (gd_crates k)" and "prefs_path (gd_dirs k) = Some path" and "gd_write k = Written"
    and "json_to_vec_pretty (gd_crates k) (prefs_to_json (prefs_snapshot g')) \<noteq> None"
    and "rgb_ok (gu_accent_override g)" and "rgb_ok (gu_fg_override g)"
    and "(g', w') = fold (tab_settings ask k) [AEditHotkey t, AHotkey, ATheme m] (g, w)"
  shows "gu_hotkey_current g' = None \<and> old \<notin> set (gu_registered g')
    \<and> p_hotkey (load_prefs (gd_crates k) (gd_dirs k) (gu_files g')) = t"
proof -
  define g1 where "g1 = (g\<lparr>gu_hotkey_input := t\<rparr>)\<lparr>gu_hotkey_current := None, gu_registered := filter (\<lambda>x. x \<noteq> old) (gu_registered g)\<rparr>"
  define g2 where "g2 = (logline k True LHotkeyRegister g1)\<lparr>gu_theme_mode := m\<rparr>"
  have a: "apply_hotkey k t (g\<lparr>gu_hotkey_input := t\<rparr>) = logline k True LHotkeyRegister g1"
    using assms(1-5) by (simp add: apply_hotkey_def Let_def g1_def)
  have log: "gu_theme_mode (logline k b x y) = gu_theme_mode y" "gu_hotkey_current (logline k b x y) = gu_hotkey_current y"
    "gu_registered (logline k b x y) = gu_registered y" "gu_hotkey_input (logline k b x y) = gu_hotkey_input y"
    "gu_accent_override (logline k b x y) = gu_accent_override y" "gu_fg_override (logline k b x y) = gu_fg_override y" for b x y
    by (simp_all add: logline_def log_push_def Let_def)
  have g': "g' = persist k g2"
    using assms(6,14) a by (simp add: tab_settings_defs g2_def log g1_def)
  have snap: "p_hotkey (prefs_snapshot g2) = t" "rgb_ok (p_accent_rgb (prefs_snapshot g2))" "rgb_ok (p_fg_rgb (prefs_snapshot g2))"
    using assms(12,13) by (simp_all add: prefs_snapshot_def g2_def g1_def log)
  obtain b where b: "json_to_vec_pretty (gd_crates k) (prefs_to_json (prefs_snapshot g2)) = Some b"
    using assms(11) by (auto simp: g' persist_def prefs_snapshot_def)
  then have "json_from_slice (gd_crates k) b = Some (prefs_to_json (prefs_snapshot g2))"
    using assms(8) by (auto simp: json_inverts_def)
  then have "load_prefs (gd_crates k) (gd_dirs k) (gu_files g') = prefs_snapshot g2"
    using b assms(7,9,10) prefs_json_roundtrip [OF snap(2,3)] snap(1)
    by (simp add: g' persist_def load_prefs_def save_prefs_def)
  then show ?thesis using snap(1) by (simp add: g' persist_def g2_def g1_def log)
qed

definition refused_prefs :: prefs where
  "refused_prefs = default_prefs\<lparr>p_theme := Dark, p_hotkey := lit ''Alt+X''\<rparr>"

definition refusing_desk :: gdesk where
  "refusing_desk = (sample_gdesk True [length DEFAULT_HOTKEY])\<lparr>gd_crates := sample_crates\<lparr>json_to_vec := (\<lambda>_. None),
     json_to_vec_pretty := (\<lambda>j. if j = prefs_to_json refused_prefs then Some [1] else None),
     json_from_slice := (\<lambda>b. if b = [1] then Some (prefs_to_json refused_prefs) else None)\<rparr>\<rparr>"

theorem refused_hotkey_loses_old_witness:
  "gu_hotkey_current (app_new refusing_desk Map.empty) = Some (length DEFAULT_HOTKEY)
   \<and> (\<exists>g'. fold (tab_settings no_agent refusing_desk) [AEditHotkey (lit ''Alt+X''), AHotkey, ATheme Dark]
              (app_new refusing_desk Map.empty, ()) = (g', ())
        \<and> gu_hotkey_current g' = None \<and> p_hotkey (load_prefs (gd_crates refusing_desk) sample_dirs (gu_files g')) = lit ''Alt+X'')"
proof -
  let ?k = refusing_desk
  let ?g = "app_new ?k Map.empty" and ?acts = "[AEditHotkey (lit ''Alt+X''), AHotkey, ATheme Dark]"
  have k: "gd_dirs ?k = sample_dirs" "gd_write ?k = Written" "gd_releases ?k h" "gd_parse ?k s = Some (length s)"
    "gd_grants ?k r h \<longleftrightarrow> h = length DEFAULT_HOTKEY" for h s r
    by (simp_all add: refusing_desk_def sample_gdesk_def)
  have load: "load_prefs (gd_crates ?k) sample_dirs Map.empty = default_prefs"
    by (simp add: load_prefs_def prefs_path_def sample_dirs_def)
  have g: "gu_hotkey_mgr ?g" "gu_hotkey_current ?g = Some (length DEFAULT_HOTKEY)" "gu_theme_mode ?g = System"
    "gu_accent_override ?g = None" "gu_fg_override ?g = None" "gu_bg ?g = bg_from_prefs default_prefs"
    by (simp_all add: app_new_def Let_def init_hotkey_def load k)
      (simp_all add: refusing_desk_def sample_gdesk_def default_prefs_def)
  have t: "trim (lit ''Alt+X'') = lit ''Alt+X''" "length (lit ''Alt+X'') \<noteq> length DEFAULT_HOTKEY" "lit ''Alt+X'' \<noteq> []"
    by (simp_all add: trim_def trim_end_by_def is_whitespace_def DEFAULT_HOTKEY_def)
  obtain g' where g': "(g', ()) = fold (tab_settings no_agent ?k) ?acts (?g, ())"
    by (cases "fold (tab_settings no_agent ?k) ?acts (?g, ())") auto
  have "prefs_snapshot g' = refused_prefs"
    using g' t by (simp add: tab_settings_defs apply_hotkey_def g k Let_def persist_def prefs_snapshot_def logline_def log_push_def
        refused_prefs_def bg_from_prefs_def default_prefs_def del: lit_simps)
  then have e: "json_to_vec_pretty (gd_crates ?k) (prefs_to_json (prefs_snapshot g')) \<noteq> None" by (simp add: refusing_desk_def)
  have j: "json_inverts (gd_crates ?k)" by (auto simp: json_inverts_def refusing_desk_def split: if_splits)
  have p: "prefs_path (gd_dirs ?k) = Some (path_join (path_join (lit ''/c'') (lit ''copysync'')) (lit ''gui.json''))"
    by (simp add: k prefs_path_def sample_dirs_def del: lit_simps)
  have "gd_parse ?k (trim (lit ''Alt+X'')) = Some (length (lit ''Alt+X''))" by (simp only: k t)
  then have "gu_hotkey_current g' = None \<and> p_hotkey (load_prefs (gd_crates ?k) sample_dirs (gu_files g')) = lit ''Alt+X''"
    using refused_hotkey_loses_old [OF g(1,2) k(3) _ _ _ _ j p k(2) e _ _ g', where hk = "length (lit ''Alt+X'')"] g t k(1)
    by (auto simp: k(5) rgb_ok_def simp del: lit_simps fold.simps)
  then show ?thesis using g(2) g' [symmetric] by blast
qed

subsection \<open>The wallpaper\<close>

text \<open>The wallpaper is decoded once per change of its inputs, not once per frame: after a refresh, failed or
  not, nothing is left to rebuild, and refreshing again does nothing. Moving the zoom or the
  opacity slider does not cause a rebuild either.\<close>

theorem wallpaper_settles:
  "\<not> needs_rebuild (gu_bg (refresh_wallpaper k g)) \<and> refresh_wallpaper k' (refresh_wallpaper k g) = refresh_wallpaper k g
   \<and> needs_rebuild (set_slider Zoom x b) = needs_rebuild b \<and> needs_rebuild (set_slider Opacity x b) = needs_rebuild b"
proof -
  have log: "gu_bg (logline k f m h) = gu_bg h" for f m h by (simp add: logline_def log_push_def Let_def)
  have key: "decode_key (b\<lparr>b_texture := t, b_built_from := u\<rparr>) = decode_key b" "decode_key (b\<lparr>b_zoom := z\<rparr>) = decode_key b"
    "decode_key (b\<lparr>b_card_opacity := z\<rparr>) = decode_key b" for b t u z
    by (simp_all add: decode_key_def)
  have "\<not> needs_rebuild (gu_bg (refresh_wallpaper k g))"
  proof (cases "needs_rebuild (gu_bg g) \<and> b_path (gu_bg g) \<noteq> []")
    case True
    then show ?thesis
      by (simp add: refresh_wallpaper_def Let_def log split: option.split) (simp add: needs_rebuild_def key)
  next
    case False
    then consider "\<not> needs_rebuild (gu_bg g)" | "needs_rebuild (gu_bg g)" "b_path (gu_bg g) = []" by blast
    then show ?thesis
    proof cases
      case 1
      then have "refresh_wallpaper k g = g" by (simp only: refresh_wallpaper_def Let_def not_False_eq_True if_True simp_thms)
      then show ?thesis using 1 by simp
    next
      case 2
      then have "gu_bg (refresh_wallpaper k g) = (gu_bg g)\<lparr>b_texture := None, b_built_from := None\<rparr>"
        by (simp add: refresh_wallpaper_def Let_def)
      then show ?thesis using 2 by (simp add: needs_rebuild_def)
    qed
  qed
  moreover from this have "refresh_wallpaper k' (refresh_wallpaper k g) = refresh_wallpaper k g"
    by (simp only: refresh_wallpaper_def [of k'] Let_def not_False_eq_True if_True simp_thms)
  moreover have "needs_rebuild (set_slider Zoom x b) = needs_rebuild b" "needs_rebuild (set_slider Opacity x b) = needs_rebuild b"
    by (simp_all add: needs_rebuild_def key split: option.split)
  ultimately show ?thesis by blast
qed

text \<open>The texture of a wallpaper never has an edge of more than 1600 pixels, whatever image the user picks,
  when the image crate resizes to the size it is asked for and blurring keeps the size.\<close>

theorem wallpaper_bounded:
  assumes "\<And>i w h. width (im_resize im i w h) = w \<and> height (im_resize im i w h) = h"
    and "\<And>i s. width (im_blur im i s) = width i \<and> height (im_blur im i s) = height i"
    and "decode_wallpaper im path brightness blur = Some img"
  shows "width img \<le> 1600 \<and> height img \<le> 1600"
proof -
  obtain i where i: "im_open im path = Some i" using assms(3) by (auto simp: decode_wallpaper_def)
  let ?l = "max (width i) (height i)"
  define s where "s = (if ?l > BG_MAX_EDGE
     then im_resize im i (max (round_nat (of_nat (width i) * (of_nat BG_MAX_EDGE / of_nat ?l))) 1)
                         (max (round_nat (of_nat (height i) * (of_nat BG_MAX_EDGE / of_nat ?l))) 1)
     else i)"
  have "width s \<le> BG_MAX_EDGE \<and> height s \<le> BG_MAX_EDGE"
  proof (cases "?l > BG_MAX_EDGE")
    case True
    then have "0 < ?l" by simp
    then show ?thesis
      using True assms(1) scaled_edge [of ?l "width i"] scaled_edge [of ?l "height i"] by (simp add: s_def)
  qed (auto simp: s_def)
  moreover have "decode_wallpaper im path brightness blur =
      Some (let t = (if \<bar>brightness - 1\<bar> > 1 / 2 ^ 23 then s\<lparr>rgba := brighten brightness (rgba s)\<rparr> else s)
            in if blur > 1 / 20 then im_blur im t blur else t)"
    by (simp only: decode_wallpaper_def i option.map Let_def s_def)
  then have "width img = width s \<and> height img = height s"
    using assms(2,3) by (simp add: Let_def split: if_splits)
  ultimately show ?thesis by (simp add: BG_MAX_EDGE_def)
qed

theorem wallpaper_bounded_witness:
  "\<exists>img. decode_wallpaper \<lparr>im_open = (\<lambda>_. Some \<lparr>width = 4000, height = 3000, rgba = []\<rparr>),
       im_resize = (\<lambda>i w h. i\<lparr>width := w, height := h\<rparr>), im_blur = (\<lambda>i _. i)\<rparr> [] 1 0 = Some img
     \<and> width img \<le> 1600 \<and> height img \<le> 1600"
proof -
  let ?im = "\<lparr>im_open = (\<lambda>_. Some \<lparr>width = 4000, height = 3000, rgba = []\<rparr>),
       im_resize = (\<lambda>i w h. i\<lparr>width := w, height := h\<rparr>), im_blur = (\<lambda>i _. i)\<rparr>"
  obtain img where img: "decode_wallpaper ?im [] 1 0 = Some img" by (simp add: decode_wallpaper_def)
  show ?thesis using wallpaper_bounded [OF _ _ img] img by simp
qed

end
