(* ===== verification/Gui_View.thy ===== *)
theory Gui_View
  imports Gui_Look Gui_Props
begin

text \<open>
  What the window of the GUI shows (\<open>gui/src/main.rs\<close>): the content of the four tabs as the list of
  their items with the captions of the source, each item with the action a click on it stands for,
  and the start of the toolkit's fonts and icon. The sizes, the spacing and the scroll areas are
  the toolkit's. Shown: an action that no item on the screen offers does nothing, and the
  passphrase is nowhere on the screen.
\<close>

subsection \<open>Captions\<close>

text \<open>The fixed texts, in Hangul as code points.\<close>

definition CapPairPrompt :: rstr where
  "CapPairPrompt = [0xae30, 0xae30, 0xb97c, 0x20, 0xd398, 0xc5b4, 0xb9c1, 0xd558, 0xc138, 0xc694]"

definition CapPairHelp :: rstr where
  "CapPairHelp = [0xc544, 0xc9c1, 0x20, 0xc5f0, 0xacb0, 0xb41c, 0x20, 0xae30, 0xae30, 0xac00, 0x20, 0xc5c6, 0xc2b5,
     0xb2c8, 0xb2e4, 0x2e, 0x20, 0xc11c, 0xbc84, 0xc758, 0x20, 0x4f, 0x54, 0x50, 0xb85c, 0x20, 0xc774,
     0x20, 0xb370, 0xc2a4, 0xd06c, 0xd1b1, 0xc744, 0x20, 0xd398, 0xc5b4, 0xb9c1, 0xd558, 0xba74, 0x20,
     0xd074, 0xb9bd, 0xbcf4, 0xb4dc, 0x20, 0xb3d9, 0xae30, 0xd654, 0xac00, 0x20, 0xc2dc, 0xc791, 0xb429,
     0xb2c8, 0xb2e4, 0x2e]"

definition CapPairNow :: rstr where
  "CapPairNow = [0xae30, 0xae30, 0x20, 0xd398, 0xc5b4, 0xb9c1, 0xd558, 0xae30]"

definition CapStatus :: rstr where
  "CapStatus = [0xc0c1, 0xd0dc]"

definition CapServer :: rstr where
  "CapServer = [0xc11c, 0xbc84]"

definition CapDevice :: rstr where
  "CapDevice = [0xae30, 0xae30]"

definition CapLink :: rstr where
  "CapLink = [0xc5f0, 0xacb0]"

definition CapE2e :: rstr where
  "CapE2e = [0x45, 0x32, 0x45]"

definition CapReconnectNow :: rstr where
  "CapReconnectNow = [0xc9c0, 0xae08, 0x20, 0xc7ac, 0xc5f0, 0xacb0]"

definition CapPool :: rstr where
  "CapPool = [0xacf5, 0xc720, 0x20, 0xd480]"

definition CapSend :: rstr where
  "CapSend = [0xbcf4, 0xb0b4, 0xae30]"

definition CapSendText :: rstr where
  "CapSendText = [0xd14d, 0xc2a4, 0xd2b8, 0x20, 0xbcf4, 0xb0b4, 0xae30]"

definition CapSendFile :: rstr where
  "CapSendFile = [0xd30c, 0xc77c, 0x20, 0xbcf4, 0xb0b4, 0xae30, 0x2026]"

definition CapTargets :: rstr where
  "CapTargets = [0xc804, 0xc1a1, 0x20, 0xb300, 0xc0c1]"

definition CapAll :: rstr where
  "CapAll = [0xc804, 0xccb4]"

definition CapSome :: rstr where
  "CapSome = [0xc120, 0xd0dd]"

definition CapNoDevices :: rstr where
  "CapNoDevices = [0xc5f0, 0xacb0, 0xb41c, 0x20, 0xae30, 0xae30, 0xac00, 0x20, 0xc5c6, 0xc2b5, 0xb2c8, 0xb2e4, 0x2e]"

definition CapRefresh :: rstr where
  "CapRefresh = [0xc0c8, 0xb85c, 0xace0, 0xce68]"

definition CapNoHistory :: rstr where
  "CapNoHistory = [0xae30, 0xb85d, 0xc774, 0x20, 0xc5c6, 0xc2b5, 0xb2c8, 0xb2e4, 0x2e]"

definition CapRecopy :: rstr where
  "CapRecopy = [0xd074, 0xb9bd, 0xbcf4, 0xb4dc, 0xc5d0, 0x20, 0xbcf5, 0xc0ac, 0xd558, 0xace0, 0x20, 0xb2e4, 0xc2dc,
     0x20, 0xb3d9, 0xae30, 0xd654]"

definition CapNoRecopy :: rstr where
  "CapNoRecopy = [0xc774, 0x20, 0xd56d, 0xbaa9, 0xc740, 0x20, 0xb2e4, 0xc2dc, 0x20, 0xbcf5, 0xc0ac, 0xd560, 0x20,
     0xc218, 0x20, 0xc5c6, 0xc2b5, 0xb2c8, 0xb2e4]"

definition CapOut :: rstr where
  "CapOut = [0xbcf4, 0xb0c4]"

definition CapIn :: rstr where
  "CapIn = [0xbc1b, 0xc74c]"

definition CapPrivacy :: rstr where
  "CapPrivacy = [0xac1c, 0xc778, 0xc815, 0xbcf4]"

definition CapFilter :: rstr where
  "CapFilter = [0xbbfc, 0xac10, 0x20, 0xd074, 0xb9bd, 0x20, 0xb3d9, 0xae30, 0xd654, 0x20, 0xc81c, 0xc678]"

definition CapMark :: rstr where
  "CapMark = [0xbc1b, 0xc740, 0x20, 0xd56d, 0xbaa9, 0x20, 0xbbfc, 0xac10, 0x20, 0xd45c, 0xc2dc]"

definition CapTelemetry :: rstr where
  "CapTelemetry = [0xc11c, 0xbc84, 0xb85c, 0x20, 0xb3d9, 0xc791, 0x20, 0xb85c, 0xadf8, 0x20, 0xc804, 0xc1a1, 0x20,
     0x28, 0xd154, 0xb808, 0xba54, 0xd2b8, 0xb9ac, 0x29]"

definition CapTelemetryHelp :: rstr where
  "CapTelemetryHelp = [0xc5d4, 0xc9c4, 0x20, 0xc2dc, 0xc791, 0x2f, 0xc815, 0xc9c0, 0xb7, 0xc7ac, 0xc5f0, 0xacb0, 0xb7,
     0xc624, 0xb958, 0x20, 0xb4f1, 0x20, 0xc2dc, 0xc2a4, 0xd15c, 0x20, 0xb3d9, 0xc791, 0x20, 0xb85c,
     0xadf8, 0xb9cc, 0x20, 0xc804, 0xc1a1, 0xd558, 0xba70, 0x2c, 0x20, 0xd074, 0xb9bd, 0x20, 0xb0b4,
     0xc6a9, 0xc740, 0x20, 0xd3ec, 0xd568, 0xb418, 0xc9c0, 0x20, 0xc54a, 0xc2b5, 0xb2c8, 0xb2e4, 0x2e]"

definition CapAutoClear :: rstr where
  "CapAutoClear = [0xc790, 0xb3d9, 0x20, 0xc9c0, 0xc6b0, 0xae30]"

definition CapOff :: rstr where
  "CapOff = [0xb054]"

definition Cap30s :: rstr where
  "Cap30s = [0x33, 0x30, 0xcd08]"

definition Cap1m :: rstr where
  "Cap1m = [0x31, 0xbd84]"

definition Cap5m :: rstr where
  "Cap5m = [0x35, 0xbd84]"

definition CapPairing :: rstr where
  "CapPairing = [0xae30, 0xae30, 0x20, 0xd398, 0xc5b4, 0xb9c1]"

definition CapSearch :: rstr where
  "CapSearch = [0xc11c, 0xbc84, 0x20, 0xac80, 0xc0c9]"

definition CapPair :: rstr where
  "CapPair = [0xd398, 0xc5b4, 0xb9c1]"

definition CapLook :: rstr where
  "CapLook = [0xd654, 0xba74]"

definition CapDark :: rstr where
  "CapDark = [0xb2e4, 0xd06c]"

definition CapLight :: rstr where
  "CapLight = [0xb77c, 0xc774, 0xd2b8]"

definition CapSystem :: rstr where
  "CapSystem = [0xc2dc, 0xc2a4, 0xd15c]"

definition CapWallpaper :: rstr where
  "CapWallpaper = [0xbc30, 0xacbd, 0x20, 0xc774, 0xbbf8, 0xc9c0]"

definition CapRemove :: rstr where
  "CapRemove = [0xc81c, 0xac70]"

definition CapZoom :: rstr where
  "CapZoom = [0xd655, 0xb300]"

definition CapBrightness :: rstr where
  "CapBrightness = [0xbc1d, 0xae30]"

definition CapBlur :: rstr where
  "CapBlur = [0xd750, 0xb9bc]"

definition CapOpacity :: rstr where
  "CapOpacity = [0xbc15, 0xc2a4, 0x20, 0xd22c, 0xba85, 0xb3c4]"

definition CapColours :: rstr where
  "CapColours = [0xc0c9, 0xc0c1]"

definition CapDefaults :: rstr where
  "CapDefaults = [0xae30, 0xbcf8, 0xac12]"

definition CapAutostart :: rstr where
  "CapAutostart = [0xbd80, 0xd305, 0x20, 0xc2dc, 0x20, 0xc790, 0xb3d9, 0x20, 0xc2dc, 0xc791]"

definition CapHotkey :: rstr where
  "CapHotkey = [0xbe60, 0xb978, 0x20, 0xd328, 0xb110, 0x20, 0xb2e8, 0xcd95, 0xd0a4]"

definition CapApply :: rstr where
  "CapApply = [0xc801, 0xc6a9]"

definition CapRecording :: rstr where
  "CapRecording = [0xc774, 0xbca4, 0xd2b8, 0x20, 0xae30, 0xb85d]"

definition CapCopy :: rstr where
  "CapCopy = [0xbcf5, 0xc0ac]"

definition CapClear :: rstr where
  "CapClear = [0xc9c0, 0xc6b0, 0xae30]"

definition CapChoose :: rstr where
  "CapChoose = [0xbc30, 0xacbd, 0x20, 0xc774, 0xbbf8, 0xc9c0, 0x20, 0xc120, 0xd0dd, 0x2026]"

definition CapAccent :: rstr where
  "CapAccent = [0xd14c, 0xb9c8, 0xc0c9]"

definition CapFg :: rstr where
  "CapFg = [0xae00, 0xc790, 0xc0c9]"

definition CapOtp :: rstr where
  "CapOtp = [0x4f, 0x54, 0x50]"

definition CapName :: rstr where
  "CapName = [0xae30, 0xae30, 0x20, 0xc774, 0xb984]"

definition CapPin :: rstr where
  "CapPin = [0x50, 0x49, 0x4e]"

definition CapPass :: rstr where
  "CapPass = [0x45, 0x32, 0x45, 0x20, 0xc554, 0xd638]"

definition HintQuery :: rstr where
  "HintQuery = [0x1f50d, 0x20, 0xac80, 0xc0c9, 0x2026]"

definition HintText :: rstr where
  "HintText = [0xbcf4, 0xb0bc, 0x20, 0xd14d, 0xc2a4, 0xd2b8, 0x2026]"

definition HintHotkey :: rstr where
  "HintHotkey = [0xc608, 0x3a, 0x20, 0x43, 0x74, 0x72, 0x6c, 0x2b, 0x53, 0x68, 0x69, 0x66, 0x74, 0x2b, 0x56]"

subsection \<open>Items\<close>

text \<open>What the user can enter: text in a field, a file from a dialog, a position or a colour.\<close>

datatype input = InText | InQuery | InPairing | InHotkey | InFile | InWallpaper | InSlider slider | InAccent | InFg

definition enters :: "input \<Rightarrow> action \<Rightarrow> bool" where
  "enters i a =
     (case a of
        AEditText _ \<Rightarrow> i = InText
      | AEditQuery _ \<Rightarrow> i = InQuery
      | AEditPair _ _ _ _ _ \<Rightarrow> i = InPairing
      | AEditHotkey _ \<Rightarrow> i = InHotkey
      | ASendFile _ \<Rightarrow> i = InFile
      | AWallpaper _ \<Rightarrow> i = InWallpaper
      | ASlider s _ _ \<Rightarrow> i = InSlider s
      | AAccent _ _ \<Rightarrow> i = InAccent
      | AFg _ _ \<Rightarrow> i = InFg
      | _ \<Rightarrow> False)"

text \<open>One row of the history: the tag of its kind, the text, whether it can be copied again and what
  the button says then, the direction with its style, and the rest of the line.\<close>

record history_card =
  hc_chip :: "rstr \<times> frame_style \<times> label_style"
  hc_body :: rstr
  hc_recopy :: bool
  hc_hover :: rstr
  hc_direction :: "rstr \<times> label_style"
  hc_rest :: rstr

datatype item =
    IText rstr
  | IRow rstr rstr
  | IButton rstr action bool
  | IServer rstr action
  | IToggle rstr bool action
  | ISegment rstr bool action
  | IDevice color rstr bool action
  | IPools rstr "rstr list"
  | IField rstr input rstr
  | IPassword rstr nat
  | IOpens rstr input
  | ISlider rstr slider rat
  | ISwatch rstr input color
  | INote pair_note
  | ICopyLog rstr
  | ILine rstr
  | IHistory history_card action
  | ITab tab bool color

text \<open>Whether a click on the item, or entering something there, is the action.\<close>

fun offers :: "action \<Rightarrow> item \<Rightarrow> bool" where
  "offers a (IButton _ b enabled) = (enabled \<and> a = b)"
| "offers a (IServer _ b) = (a = b)"
| "offers a (IToggle _ _ b) = (a = b)"
| "offers a (ISegment _ _ b) = (a = b)"
| "offers a (IDevice _ _ _ b) = (a = b)"
| "offers a (IPools _ ps) = list_ex (\<lambda>p. a = APool p) ps"
| "offers a (IField _ i _) = enters i a"
| "offers a (IPassword _ _) = enters InPairing a"
| "offers a (IOpens _ i) = enters i a"
| "offers a (ISlider _ s _) = enters (InSlider s) a"
| "offers a (ISwatch _ i _) = enters i a"
| "offers a (IHistory c b) = (hc_recopy c \<and> a = b)"
| "offers a (ITab t _ _) = (a = ATab t)"
| "offers _ _ = False"

subsection \<open>The tabs\<close>

definition status_card :: "ipc_status \<Rightarrow> item list" where
  "status_card s =
     [IText CapStatus, IRow CapServer (value_or_dash (is_server s)), IRow CapDevice (value_or_dash (is_device s)),
      IRow CapLink (if is_connected s then [0xc5f0, 0xacb0, 0xb428] else [0xb04a, 0xae40]),
      IRow CapE2e (if is_e2e s then [0xcf1c, 0xc9d0] else [0xaebc, 0xc9d0]),
      IButton CapReconnectNow AReconnect True]"

text \<open>The online devices have the colour of success, the others the muted one.\<close>

definition device_items :: "palette \<Rightarrow> gui \<Rightarrow> item list" where
  "device_items p g =
     (if gu_roster g = [] then [IText CapNoDevices] else []) @
     map (\<lambda>(n, d). IDevice (if ir_online d then pl_success p else pl_muted p) (ir_name d)
                      (ir_id d \<in> set (gu_selected_targets g)) (ATick n)) (enumerate 0 (gu_roster g))"

definition connect_view :: "palette \<Rightarrow> gui \<Rightarrow> item list" where
  "connect_view p g =
     (let s = gu_status g in
      (if \<not> is_paired s then [IText CapPairPrompt, IText CapPairHelp, IButton CapPairNow AGoPair True] else []) @
      status_card s @
      (if is_pools s \<noteq> [] then [IText CapPool, IPools (value_or_dash (is_pool s)) (is_pools s)] else []) @
      [IText CapSend, IField HintText InText (gu_send_text g), IButton CapSendText ASendText True, IOpens CapSendFile InFile,
       IText CapTargets, ISegment CapAll (gu_target_all g) ATargetAll, ISegment CapSome (\<not> gu_target_all g) ATargetSome] @
      (if gu_target_all g then [] else device_items p g))"

definition history_item :: "palette \<Rightarrow> hist_row \<Rightarrow> history_card" where
  "history_item p r =
     (let outbound = (hr_direction r = lit ''out'') in
      \<lparr>hc_chip = kind_chip p (hr_kind r),
       hc_body = (if hr_preview r = [] then [0x28, 0xbbf8, 0xb9ac, 0xbcf4, 0xae30, 0x20, 0xc5c6, 0xc74c, 0x29] else hr_preview r),
       hc_recopy = recopyable r,
       hc_hover = (if recopyable r then CapRecopy else CapNoRecopy),
       hc_direction = (if outbound then (CapOut, \<lparr>lb_strong = True, lb_size = Some (25 / 2), lb_color = pl_fg p\<rparr>)
                       else (CapIn, \<lparr>lb_strong = False, lb_size = Some (25 / 2), lb_color = pl_muted p\<rparr>)),
       hc_rest = [0x20, 0xb7, 0x20] @ value_or_dash (hr_origin r) @ [0x20, 0xb7, 0x20] @ human_size (hr_size r)
                 @ [0x20, 0xb7, 0x20] @ hr_ts r\<rparr>)"

definition history_view :: "palette \<Rightarrow> gui \<Rightarrow> item list" where
  "history_view p g =
     [IField HintQuery InQuery (gu_search_query g), IButton CapRefresh ARefresh True] @
     (if gu_history g = [] then [IText CapNoHistory] else []) @
     map (\<lambda>(n, r). IHistory (history_item p r) (ARecopy n)) (enumerate 0 (gu_history g))"

definition privacy_card :: "gui \<Rightarrow> item list" where
  "privacy_card g =
     [IText CapPrivacy, IToggle CapFilter (gu_privacy_filter g) APrivacy, IToggle CapMark (gu_mark_sensitive g) AMark,
      IToggle CapTelemetry (gu_telemetry g) ATelemetry, IText CapTelemetryHelp, IText CapAutoClear] @
     map (\<lambda>(secs, cap). ISegment cap (gu_auto_clear_secs g = secs) (AAutoClear secs))
       [(0, CapOff), (30, Cap30s), (60, Cap1m), (300, Cap5m)]"

definition pairing_card :: "gui \<Rightarrow> item list" where
  "pairing_card g =
     [IText CapPairing, IField CapServer InPairing (gu_pair_server g), IField CapOtp InPairing (gu_pair_otp g),
      IField CapName InPairing (gu_pair_name g), IField CapPin InPairing (gu_pair_pin g), IPassword CapPass (length (gu_pair_e2e g)),
      IButton CapSearch ADiscover (\<not> gu_discovering g), IButton CapPair APair True] @
     map (\<lambda>(n, s). IServer (fs_name s @ [0x20, 0x2014, 0x20] @ fs_url s) (AServer n)) (enumerate 0 (gu_discovered g)) @
     (if gu_pair_status g \<noteq> NoNote then [INote (gu_pair_status g)] else [])"

definition wallpaper_items :: "bg_image \<Rightarrow> item list" where
  "wallpaper_items b =
     [IText CapWallpaper, IOpens CapChoose InWallpaper] @
     (if b_path b = [] then []
      else [IButton CapRemove ANoWallpaper True, ISlider CapZoom Zoom (b_zoom b), ISlider CapBrightness Brightness (b_brightness b),
            ISlider CapBlur Blur (b_blur b), ISlider CapOpacity Opacity (b_card_opacity b)])"

definition look_card :: "bool \<Rightarrow> gui \<Rightarrow> item list" where
  "look_card system_dark g =
     [IText CapLook, ISegment CapDark (gu_theme_mode g = Dark) (ATheme Dark), ISegment CapLight (gu_theme_mode g = Light) (ATheme Light),
      ISegment CapSystem (gu_theme_mode g = System) (ATheme System)] @
     wallpaper_items (gu_bg g) @
     [IText CapColours, ISwatch CapAccent InAccent (fst (swatches system_dark g)), ISwatch CapFg InFg (snd (swatches system_dark g))] @
     (if gu_accent_override g \<noteq> None \<or> gu_fg_override g \<noteq> None then [IButton CapDefaults ADefaultColors True] else [])"

definition system_card :: "gui \<Rightarrow> item list" where
  "system_card g =
     [IText CapSystem, IToggle CapAutostart (gu_autostart_on g) AAutostart, IText CapHotkey, IField HintHotkey InHotkey (gu_hotkey_input g),
      IButton CapApply AHotkey True, ILine (hotkey_line g)]"

definition settings_view :: "bool \<Rightarrow> gui \<Rightarrow> item list" where
  "settings_view system_dark g = privacy_card g @ pairing_card g @ look_card system_dark g @ system_card g"

text \<open>A line of the log, with \<open>render\<close> the words of a message; its copy button joins the lines.\<close>

definition log_line :: "(gui_msg \<Rightarrow> rstr) \<Rightarrow> rstr \<times> gui_msg \<Rightarrow> rstr" where
  "log_line render l = lit ''['' @ fst l @ lit ''] '' @ render (snd l)"

fun join_lines :: "rstr list \<Rightarrow> rstr" where
  "join_lines [] = []"
| "join_lines [l] = l"
| "join_lines (l # ls) = l @ [10] @ join_lines ls"

definition copy_log :: "(gui_msg \<Rightarrow> rstr) \<Rightarrow> gui \<Rightarrow> gui" where
  "copy_log render g = g\<lparr>gu_copied := Some (join_lines (map (log_line render) (gu_log g)))\<rparr>"

text \<open>The frame around the log, and the style of its lines in the fixed-width font.\<close>

definition log_frame :: "palette \<Rightarrow> frame_style \<times> label_style" where
  "log_frame p =
     (\<lparr>fr_fill = pl_panel2 p, fr_stroke = Some (line_of (pl_line p)), fr_rounding = 10, fr_margin = (10, 8)\<rparr>,
      \<lparr>lb_strong = False, lb_size = Some (25 / 2), lb_color = pl_fg p\<rparr>)"

definition debug_view :: "(gui_msg \<Rightarrow> rstr) \<Rightarrow> gui \<Rightarrow> item list" where
  "debug_view render g =
     [IToggle CapRecording (gu_recording g) ARecording, ICopyLog CapCopy, IButton CapClear AClearLog True] @
     map (\<lambda>l. ILine (log_line render l)) (gu_log g)"

text \<open>The tab buttons of the top bar; the selected one has the text colour.\<close>

definition tab_items :: "palette \<Rightarrow> tab \<Rightarrow> item list" where
  "tab_items p current = map (\<lambda>(t, on, c). ITab t on c) (tb_tabs (top_bar p default_ipc_status current))"

text \<open>The line under the selected tab: its width and colour.\<close>

definition tab_underline :: "palette \<Rightarrow> bool \<Rightarrow> (rat \<times> color) option" where
  "tab_underline p selected = (if selected then Some (2, pl_accent p) else None)"

definition gui_view :: "bool \<Rightarrow> palette \<Rightarrow> (gui_msg \<Rightarrow> rstr) \<Rightarrow> gui \<Rightarrow> item list" where
  "gui_view system_dark p render g =
     tab_items p (gu_tab g) @
     (case gu_tab g of
        Connect \<Rightarrow> connect_view p g
      | History \<Rightarrow> history_view p g
      | Settings \<Rightarrow> settings_view system_dark g
      | Debug \<Rightarrow> debug_view render g)"

subsection \<open>Fonts and icon\<close>

text \<open>The embedded font goes last into both families of the toolkit's defaults.\<close>

datatype font_family = Proportional | Monospace

definition install_fonts :: "(font_family \<Rightarrow> string list) \<Rightarrow> font_family \<Rightarrow> string list" where
  "install_fonts defaults fam = defaults fam @ [''korean'']"

definition app_icon :: "image option \<Rightarrow> image" where
  "app_icon decoded = (case decoded of Some i \<Rightarrow> i | None \<Rightarrow> \<lparr>width = 0, height = 0, rgba = []\<rparr>)"

subsection \<open>What is not on the screen does nothing\<close>

lemmas [simp] = enters_def

lemma ex_enumerated: "n < length xs \<Longrightarrow> P (f (n, xs ! n)) \<Longrightarrow> list_ex P (map f (enumerate 0 xs))"
  by (auto simp: list_ex_iff in_set_enumerate_eq intro!: bexI [of _ "(n, xs ! n)"])

lemma connect_inert:
  assumes "\<not> list_ex (offers a) (connect_view p g)"
  shows "tab_connect ask k a (g, w) = (g, w)"
proof (cases a)
  case (ATick n)
  have "list_ex (offers a) (device_items p g)" if "n < length (gu_roster g)"
    unfolding device_items_def list_ex_append using that ATick by (intro disjI2 ex_enumerated [of n]) simp_all
  then show ?thesis using assms ATick by (auto simp: connect_view_def tab_connect_def Let_def)
next
  case (APool x)
  have "list_ex (\<lambda>q. APool x = APool q) ps" if "x \<in> set ps" for ps using that by (auto simp: list_ex_iff)
  then show ?thesis using assms APool by (auto simp: connect_view_def tab_connect_def Let_def split: if_splits)
qed (use assms in \<open>simp_all add: connect_view_def status_card_def tab_connect_def Let_def split: if_splits\<close>)

lemma history_inert:
  assumes "\<not> list_ex (offers a) (history_view p g)"
  shows "tab_history ask k a (g, w) = (g, w)"
proof (cases a)
  case (ARecopy n)
  have "list_ex (offers a) (history_view p g)" if "n < length (gu_history g)" "recopyable (gu_history g ! n)"
    unfolding history_view_def list_ex_append using that ARecopy
    by (intro disjI2 ex_enumerated [of n]) (simp_all add: history_item_def Let_def)
  then show ?thesis using assms ARecopy by (auto simp: tab_history_def)
qed (use assms in \<open>simp_all add: history_view_def tab_history_def\<close>)

lemma look_inert:
  assumes "\<not> list_ex (offers a) (look_card sd g)"
  shows "settings_look k a g = g"
proof (cases a)
  case (ATheme m)
  then show ?thesis using assms by (cases m) (simp_all add: look_card_def)
next
  case (ASlider s x r)
  then show ?thesis using assms by (cases s) (auto simp: look_card_def wallpaper_items_def settings_look_def split: if_splits)
qed (use assms in \<open>simp_all add: look_card_def wallpaper_items_def settings_look_def split: if_splits\<close>)

lemma system_inert: "\<not> list_ex (offers a) (system_card g) \<Longrightarrow> settings_system k a g = g"
  by (cases a) (auto simp: system_card_def settings_system_def)

lemma settings_inert:
  assumes "\<not> list_ex (offers a) (settings_view sd g)"
  shows "tab_settings ask k a (g, w) = (g, w)"
proof -
  have cards: "\<not> list_ex (offers a) (privacy_card g)" "\<not> list_ex (offers a) (pairing_card g)"
    "settings_look k a g = g" "settings_system k a g = g"
    using assms look_inert system_inert by (auto simp: settings_view_def)
  show ?thesis
  proof (cases a)
    case (AServer n)
    have "list_ex (offers a) (pairing_card g)" if "n < length (gu_discovered g)"
      unfolding pairing_card_def list_ex_append using that AServer
      by (intro disjI2 disjI1 ex_enumerated [of n]) simp_all
    then show ?thesis using cards AServer by (auto simp: tab_settings_def)
  next
    case (AAutoClear secs)
    then show ?thesis using cards by (auto simp: privacy_card_def tab_settings_def)
  qed (use cards in \<open>simp_all add: privacy_card_def pairing_card_def tab_settings_def start_discovery_def\<close>)
qed

lemma debug_inert: "\<not> list_ex (offers a) (debug_view render g) \<Longrightarrow> tab_debug a g = g"
  by (cases a) (auto simp: debug_view_def tab_debug_def)

lemma tab_inert: "\<not> list_ex (offers a) (tab_items p t) \<Longrightarrow> a \<noteq> ATab t'"
  by (cases t') (auto simp: tab_items_def top_bar_def)



subsection \<open>What the screen gives away\<close>

text \<open>Exactly one tab button is underlined, that of the shown tab.\<close>

lemma one_underline:
  "filter (\<lambda>it. case it of ITab t on _ \<Rightarrow> tab_underline p on \<noteq> None | _ \<Rightarrow> False) (tab_items p current) = [ITab current True (pl_fg p)]"
  by (cases current) (simp_all add: tab_items_def top_bar_def tab_underline_def)

text \<open>The passphrase is not on the screen: two states that differ only in it show the same when it has
  the same length.\<close>

theorem passphrase_not_shown:
  assumes "length s = length s'"
  shows "gui_view sd p render (g\<lparr>gu_pair_e2e := s\<rparr>) = gui_view sd p render (g\<lparr>gu_pair_e2e := s'\<rparr>)"
  using assms by (cases "gu_tab g") (simp_all add: gui_view_def connect_view_def device_items_def history_view_def
      settings_view_def privacy_card_def pairing_card_def look_card_def system_card_def swatches_def hotkey_line_def debug_view_def
      split: option.split)

theorem passphrase_not_shown_witness:
  "gui_view False (palette_resolve False Dark) (\<lambda>_. [])
     ((app_new (sample_gdesk True []) Map.empty)\<lparr>gu_tab := Settings, gu_pair_e2e := lit ''abc''\<rparr>)
   = gui_view False (palette_resolve False Dark) (\<lambda>_. [])
     ((app_new (sample_gdesk True []) Map.empty)\<lparr>gu_tab := Settings, gu_pair_e2e := lit ''xyz''\<rparr>)"
  by (rule passphrase_not_shown) simp

text \<open>The embedded font is asked last, so that the toolkit's own fonts keep their glyphs.\<close>

lemma installed_font_last: "last (install_fonts defaults fam) = ''korean'' \<and> butlast (install_fonts defaults fam) = defaults fam"
  by (simp add: install_fonts_def)

end
