(* ===== verification/Agent_Serve.thy ===== *)
theory Agent_Serve
  imports Agent_Props
begin

text \<open>
  Properties of the daemon towards its clients and its host: the supervisor's restarts, the
  order of commands, the roster a subscriber sees, the history key and the command line.
\<close>

subsection \<open>Restarts\<close>

text \<open>The actor panics and the supervisor launches it again.\<close>

definition panic_round :: "aio \<Rightarrow> agent \<Rightarrow> agent" where
  "panic_round i a = launch (actor_ended i ActorPanic a)"

lemma panic_round_fields:
  assumes "a_supervisor a = Some c"
  shows "a_supervisor (panic_round i a) = Some c" "a_tx (panic_round i a) = Some (True, [])"
    "a_attempt (panic_round i a) = saturating_add (a_attempt a) 1"
    "st_reconnecting (a_status (panic_round i a))" "\<not> st_connected (a_status (panic_round i a))"
  using assms
  by (simp_all add: panic_round_def launch_def receiver_gone_def set_links_def tlog_def broadcast_def Let_def)

lemma supervisor_backoff_eq: "supervisor_backoff = backoff_delay"
  by (rule ext)+ (simp add: supervisor_backoff_def backoff_delay_def)

lemma supervisor_backoff_bound: "unat (supervisor_backoff ms n) < 30700"
proof -
  have "(case ms of Some m \<Rightarrow> unat (of_nat m mod 700 :: u64) | None \<Rightarrow> 0) < 700"
    by (simp add: unat_mod split: option.splits)
  moreover have "min (2 ^ min (unat n) 5) (30::nat) \<le> 30" by simp
  ultimately show ?thesis unfolding supervisor_backoff_eq unat_backoff_delay by linarith
qed

text \<open>C36. A crashing engine is always brought back, at a bounded rate: after any number of panics
  in a row the supervisor still owns the configuration it was given, the channel accepts
  commands again with an empty queue, the status says reconnecting, the restarts are counted
  up to the largest 32-bit number, and no wait is longer than 30.7 seconds.\<close>

theorem panics_recovered:
  assumes "a_supervisor a = Some c" and "is \<noteq> []"
  shows "a_supervisor (fold panic_round is a) = Some c
    \<and> a_tx (fold panic_round is a) = Some (True, [])
    \<and> is_reconnecting (status_snapshot (fold panic_round is a))
    \<and> unat (a_attempt (fold panic_round is a)) = min (unat (a_attempt a) + length is) (2 ^ 32 - 1)
    \<and> unat (supervisor_backoff ms (a_attempt (fold panic_round is a))) < 30700"
proof -
  have count: "a_supervisor (fold panic_round is a) = Some c
      \<and> unat (a_attempt (fold panic_round is a)) = min (unat (a_attempt a) + length is) (2 ^ 32 - 1)"
    if "a_supervisor a = Some c" for "is" a
    using that
  proof (induction "is" arbitrary: a)
    case Nil
    then show ?case using unsigned_less [where 'a = nat and w = "a_attempt a"] by simp
  next
    case (Cons i "is")
    then show ?case
      using Cons.IH [OF panic_round_fields(1) [OF Cons.prems], of i]
      by (simp add: panic_round_fields [OF Cons.prems] unat_saturating_add)
  qed
  obtain js j where js: "is = js @ [j]" using assms(2) by (metis rev_exhaust)
  have "a_supervisor (fold panic_round js a) = Some c" using count [OF assms(1)] by blast
  note last = panic_round_fields [OF this, of j]
  show ?thesis
    using count [OF assms(1), of "is"] last
    supervisor_backoff_bound
    by (simp add: js status_snapshot_def status_to_ipc_def)
qed

theorem panics_recovered_witness:
  "a_tx (fold panic_round [sample_aio, sample_aio] sample_agent) = Some (True, [])"
proof -
  have "a_supervisor sample_agent = Some sample_config" by (simp add: sample_agent_def)
  from panics_recovered [OF this, of "[sample_aio, sample_aio]"] show ?thesis by simp
qed

text \<open>An engine that stopped on its own: nothing is supervised and the channel is closed.\<close>

definition stopped :: "agent \<Rightarrow> bool" where
  "stopped a \<longleftrightarrow> a_supervisor a = None \<and> (\<exists>q. a_tx a = Some (False, q))"

fun restarts :: "agent_event \<Rightarrow> bool" where
  "restarts (AReq (Pair _ _ _ _ _)) = True"
| "restarts (AReq ReqShutdown) = True"
| "restarts _ = False"

lemma stopped_step:
  assumes "stopped a" and "\<not> restarts e"
  shows "stopped (agent_step cr (e, i) a)"
proof (cases e)
  case (AReq r)
  then show ?thesis
    using assms by (cases r) (auto simp: stopped_def send_cmd_def tlog_def)
next
  case (AEnded x)
  then show ?thesis
    using assms
    by (cases x) (auto simp: stopped_def receiver_gone_def set_links_def tlog_def broadcast_def Let_def)
next
  case (ACallback u)
  then show ?thesis
    using assms by (cases u) (auto simp: stopped_def broadcast_def tlog_def)
qed (use assms in \<open>auto simp: stopped_def launch_def emitter_cliplog_def broadcast_def take_cmd_def\<close>)

text \<open>An engine that returned is not started again by itself: whatever happens after its end,
  short of a new pairing or a shutdown, no engine is launched and every command of a client
  is refused with the message that synchronisation has stopped.\<close>

theorem returned_engine_stays_stopped:
  assumes "a_tx a = Some (alive, q)" and "\<forall>(e, j) \<in> set es. \<not> restarts e"
    and "a' = fold (agent_step cr) es (actor_ended i ActorDone a)"
  shows "a_supervisor a' = None \<and> launch a' = a' \<and> send_cmd c a' = (a', RError SyncStopped)
    \<and> \<not> is_connected (status_snapshot (actor_ended i ActorDone a))"
proof -
  have "stopped (actor_ended i ActorDone a)"
    using assms(1) by (simp add: stopped_def receiver_gone_def set_links_def tlog_def broadcast_def Let_def)
  then have "stopped (fold (agent_step cr) es (actor_ended i ActorDone a))"
    using assms(2)
  proof (induction es arbitrary: a rule: rev_induct)
    case (snoc ej es)
    then show ?case by (cases ej) (auto intro!: stopped_step)
  qed simp
  moreover have "\<not> is_connected (status_snapshot (actor_ended i ActorDone a))"
    by (simp add: set_links_def broadcast_def Let_def status_snapshot_def status_to_ipc_def)
  ultimately show ?thesis
    unfolding assms(3) by (auto simp: stopped_def launch_def send_cmd_def)
qed

theorem returned_engine_stays_stopped_witness:
  "a_supervisor (fold (agent_step sample_crates) [(ALaunch, sample_aio), (AReq ReqReconnect, sample_aio)]
     (actor_ended sample_aio ActorDone sample_agent)) = None"
proof -
  have "a_tx sample_agent = Some (True, [])" by (simp add: sample_agent_def)
  from returned_engine_stays_stopped [OF this _ refl,
      where es = "[(ALaunch, sample_aio), (AReq ReqReconnect, sample_aio)]" and i = sample_aio and cr = sample_crates]
  show ?thesis by simp
qed

subsection \<open>Commands\<close>

fun cmd_of :: "request \<Rightarrow> cmd option" where
  "cmd_of (ReqSendText t) = (if t = [] then None else Some (SendText t))"
| "cmd_of (ReqSendFile p) = Some (SendFile p)"
| "cmd_of (ReqSetPool p) = Some (SetPool p)"
| "cmd_of _ = None"

lemma request_queues:
  assumes "a_tx a = Some (True, q)" and "\<not> restarts (AReq r)"
  shows "a_tx (fst (handle_request cr i r a)) = Some (True, q @ (case cmd_of r of Some c \<Rightarrow> [c] | None \<Rightarrow> []))"
    and "cmd_of r \<noteq> None \<Longrightarrow> snd (handle_request cr i r a) = ROk"
  using assms by (cases r; auto simp: send_cmd_def tlog_def)+

text \<open>Commands of clients reach the engine exactly once and in the order they were sent: however
  they are interleaved with other requests, the queue grows by exactly the commands among
  them, each acknowledged, until a pairing or a shutdown replaces the channel.\<close>

theorem commands_queued_in_order:
  assumes "a_tx a = Some (True, q)" and "\<forall>(r, j) \<in> set rs. \<not> restarts (AReq r)"
  shows "a_tx (fold (agent_step cr) (map (\<lambda>(r, j). (AReq r, j)) rs) a)
      = Some (True, q @ List.map_filter (\<lambda>(r, j). cmd_of r) rs)"
  using assms
proof (induction rs arbitrary: a q)
  case (Cons rj rs)
  obtain r j where rj: "rj = (r, j)" by (cases rj)
  have "\<not> restarts (AReq r)" using Cons.prems(2) rj by auto
  from request_queues(1) [OF Cons.prems(1) this]
  have "a_tx (fst (handle_request cr j r a)) = Some (True, q @ (case cmd_of r of Some c \<Rightarrow> [c] | None \<Rightarrow> []))" .
  from Cons.IH [OF this] Cons.prems(2) show ?case
    by (auto simp: rj List.map_filter_def split: option.splits)
qed (simp add: List.map_filter_def)

theorem commands_queued_in_order_witness:
  "a_tx (fold (agent_step sample_crates)
      (map (\<lambda>(r, j). (AReq r, j)) [(ReqSendText (lit ''a''), sample_aio), (GetStatus, sample_aio), (ReqSendFile (lit ''f''), sample_aio)])
      sample_agent) = Some (True, [SendText (lit ''a''), SendFile (lit ''f'')])"
proof -
  have "a_tx sample_agent = Some (True, [])" by (simp add: sample_agent_def)
  from commands_queued_in_order [OF this,
      of "[(ReqSendText (lit ''a''), sample_aio), (GetStatus, sample_aio), (ReqSendFile (lit ''f''), sample_aio)]" sample_crates]
  show ?thesis by (simp add: List.map_filter_def)
qed

subsection \<open>The roster a subscriber sees\<close>

text \<open>The device list of a client: it changes only with a pushed roster.\<close>

fun see_roster :: "outbound \<Rightarrow> ipc_roster list \<Rightarrow> ipc_roster list" where
  "see_roster (Push (ERoster r)) v = r"
| "see_roster _ v = v"

text \<open>What a streaming connection writes for a sequence of bus events.\<close>

definition pushed :: "crates \<Rightarrow> aio \<Rightarrow> conn \<Rightarrow> agent \<Rightarrow> conn_event list \<Rightarrow> outbound list" where
  "pushed cr i cn a evs = concat (map (\<lambda>e. fst (snd (snd (conn_step cr i e cn a)))) evs)"

lemma pushed_bus:
  "cn_streaming cn \<Longrightarrow> pushed cr i cn a (map BusEvent es) = map Push es"
  by (induction es) (simp_all add: pushed_def)

lemma see_rosters:
  "(\<forall>v. fold see_roster (map Push l) v = v) \<or> (\<exists>r. \<forall>v. fold see_roster (map Push l) v = r)"
proof (induction l rule: rev_induct)
  case (snoc e l)
  then show ?case by (cases e) auto
qed simp

text \<open>The events of a step account for its change of the roster.\<close>

definition follows :: "agent \<Rightarrow> agent \<Rightarrow> bool" where
  "follows a a' \<longleftrightarrow> (\<exists>new. a_events a' = a_events a @ new
     \<and> fold see_roster (map Push new) (roster_to_ipc (a_roster a)) = roster_to_ipc (a_roster a'))"

lemma follows_refl: "a_events a' = a_events a \<Longrightarrow> a_roster a' = a_roster a \<Longrightarrow> follows a a'"
  by (simp add: follows_def)

lemma follows_trans: "follows a b \<Longrightarrow> follows b c \<Longrightarrow> follows a c"
proof -
  assume "follows a b" "follows b c"
  then obtain x y where "a_events b = a_events a @ x" "a_events c = a_events b @ y"
    "fold see_roster (map Push x) (roster_to_ipc (a_roster a)) = roster_to_ipc (a_roster b)"
    "fold see_roster (map Push y) (roster_to_ipc (a_roster b)) = roster_to_ipc (a_roster c)"
    unfolding follows_def by blast
  then show ?thesis unfolding follows_def by (intro exI [of _ "x @ y"]) simp
qed

lemma follows_request: "follows a (fst (handle_request cr i r a))"
proof (cases r)
  case (Pair s otp n p e)
  then show ?thesis
    by (intro follows_refl) (simp_all add: start_def tlog_def case_prod_beta Let_def split: option.splits)
qed (simp_all add: follows_refl send_cmd_def tlog_def split: option.splits prod.splits)

lemma follows_step: "follows a (agent_step cr ei a)"
proof (cases ei)
  case (Pair e i)
  show ?thesis
  proof (cases e)
    case (AReq r)
    then show ?thesis using Pair follows_request by simp
  next
    case (AEnded x)
    then show ?thesis using Pair
      by (cases x) (simp_all add: follows_def receiver_gone_def set_links_def tlog_def broadcast_def Let_def)
  next
    case (ACallback u)
    then show ?thesis using Pair
      by (cases u) (simp_all add: follows_def broadcast_def tlog_def)
  qed (use Pair in \<open>simp_all add: follows_def launch_def emitter_cliplog_def broadcast_def take_cmd_def\<close>)
qed

lemma follows_run: "follows a (fold (agent_step cr) es a)"
  by (induction es arbitrary: a) (auto intro: follows_refl follows_trans follows_step)

text \<open>A subscriber's device list converges: whatever the daemon went through since the subscriber
  was last up to date, once it has received the events in between, or was told that it lagged
  and received whichever of them the bus still had, it shows the daemon's current roster.\<close>

theorem subscriber_roster_converges:
  assumes "cn_streaming cn" and "a' = fold (agent_step cr) es a"
    and "seen_before = roster_to_ipc (a_roster a)"
    and "between = drop (length (a_events a)) (a_events a')"
    and "delivered = map BusEvent between \<or> delivered = BusLagged # map BusEvent (drop k between)"
  shows "fold see_roster (pushed cr i cn a' delivered) seen_before = roster_to_ipc (a_roster a')"
proof -
  have all: "fold see_roster (map Push between) seen_before = roster_to_ipc (a_roster a')"
    using follows_run [of a cr es] unfolding assms(2-4) follows_def by auto
  have rest: "fold see_roster (map Push (drop k between)) (roster_to_ipc (a_roster a')) = roster_to_ipc (a_roster a')"
  proof -
    have "fold see_roster (map Push between) seen_before
        = fold see_roster (map Push (drop k between)) (fold see_roster (map Push (take k between)) seen_before)"
      by (metis append_take_drop_id comp_apply fold_append map_append)
    with all see_rosters [of "drop k between"] show ?thesis by metis
  qed
  have "pushed cr i cn a' (BusLagged # evs) = [Push (EStatus (status_snapshot a')), Push (ERoster (roster_to_ipc (a_roster a')))]
      @ pushed cr i cn a' evs" for evs
    using assms(1) by (simp add: pushed_def)
  with assms(5) all rest show ?thesis by (auto simp: pushed_bus [OF assms(1)])
qed

theorem subscriber_roster_converges_witness:
  "fold see_roster
     (pushed sample_crates sample_aio \<lparr>cn_subscribed = True, cn_streaming = True\<rparr>
        (agent_step sample_crates (ACallback (URoster [\<lparr>rd_id = [1], rd_name = [2], rd_online = True\<rparr>]), sample_aio) sample_agent)
        [BusLagged])
     [] = [\<lparr>ir_id = [1], ir_name = [2], ir_online = True\<rparr>]"
proof -
  let ?e = "(ACallback (URoster [\<lparr>rd_id = [1], rd_name = [2], rd_online = True\<rparr>]), sample_aio)"
  let ?cn = "\<lparr>cn_subscribed = True, cn_streaming = True\<rparr>"
  have "cn_streaming ?cn" by simp
  moreover have "[] = roster_to_ipc (a_roster sample_agent)" by (simp add: sample_agent_def roster_to_ipc_def)
  moreover have "[BusLagged] = BusLagged # map BusEvent
      (drop 1 (drop (length (a_events sample_agent)) (a_events (fold (agent_step sample_crates) [?e] sample_agent))))"
    by (simp add: broadcast_def)
  ultimately show ?thesis
    using subscriber_roster_converges [OF _ refl _ refl, of ?cn "[]" sample_agent "[BusLagged]" sample_crates "[?e]" 1 sample_aio]
    by (simp add: broadcast_def roster_to_ipc_def)
qed

subsection \<open>The history key\<close>

text \<open>Whether the place that holds the key can be read and written.\<close>

definition key_place_works :: "keystore \<Rightarrow> bool \<Rightarrow> write_result \<Rightarrow> bool" where
  "key_place_works k readable wr \<longleftrightarrow>
     (if ks_native k \<and> ks_entry k then ks_readable k \<and> ks_writable k else readable \<and> wr = Written)"

text \<open>The history key is created once and then stays: with a working keyring, or a key file
  that can be written and read, the first start yields a 32-byte key, and every later start
  returns the same key, whatever random bytes it draws, and changes nothing.\<close>

theorem history_key_stable:
  assumes "base64_inverts cr" and "length fresh = 32" and "key_place_works k readable wr"
    and "history_key cr fresh readable wr dir k fs = (key, k', fs')"
  shows "length key = 32 \<and> history_key cr later readable wr' dir k' fs' = (key, k', fs')"
proof (cases "ks_native k \<and> ks_entry k")
  case True
  then have rw: "ks_readable k" "ks_writable k" using assms(3) by (simp_all add: key_place_works_def)
  show ?thesis
  proof (cases "stored_key cr k")
    case None
    then have "key = fresh" "k' = k\<lparr>ks_secret := Some (b64_encode cr fresh)\<rparr>" "fs' = fs"
      using True assms(4) rw by (auto simp: history_key_def)
    moreover from this have "stored_key cr k' = Some fresh"
      using assms(1,2) rw by (simp add: stored_key_def base64_inverts_def)
    ultimately show ?thesis using True assms(2) by (simp add: history_key_def)
  next
    case (Some key0)
    then have "length key0 = 32" by (auto simp: stored_key_def split: if_splits option.splits)
    then show ?thesis using True Some assms(4) by (auto simp: history_key_def)
  qed
next
  case False
  then have rd: "readable" "wr = Written" using assms(3) by (auto simp: key_place_works_def)
  define kf where "kf = path_join dir (lit ''history.key'')"
  have eq: "history_key cr f readable w dir k'' fs'' =
      (case fs'' kf of
         Some b \<Rightarrow> if length b = 32 then (b, k'', fs'')
                   else (f, k'', case w of Written \<Rightarrow> fs''(kf \<mapsto> f) | WriteFailed left \<Rightarrow> fs''(kf := left))
       | None \<Rightarrow> (f, k'', case w of Written \<Rightarrow> fs''(kf \<mapsto> f) | WriteFailed left \<Rightarrow> fs''(kf := left)))"
    if "\<not> (ks_native k'' \<and> ks_entry k'')" for f w k'' fs''
    using that rd(1) unfolding history_key_def kf_def Let_def by auto
  have "fs' kf = Some key \<and> length key = 32 \<and> k' = k"
    using assms(2,4) False rd(2) by (auto simp: eq [OF False] split: option.splits if_splits)
  then show ?thesis using eq [of k'] False by simp
qed

theorem history_key_stable_witness:
  "\<exists>k fs. history_key sample_crates (replicate 32 7) True Written (lit ''d'')
       \<lparr>ks_native = False, ks_entry = False, ks_readable = False, ks_writable = False, ks_secret = None\<rparr> Map.empty
       = (replicate 32 7, k, fs)
     \<and> history_key sample_crates (replicate 32 9) True Written (lit ''d'') k fs = (replicate 32 7, k, fs)"
proof -
  let ?k = "\<lparr>ks_native = False, ks_entry = False, ks_readable = False, ks_writable = False, ks_secret = None\<rparr>"
  obtain k fs where h: "history_key sample_crates (replicate 32 7) True Written (lit ''d'') ?k Map.empty
      = (replicate 32 7, k, fs)"
    by (simp add: history_key_def)
  have "key_place_works ?k True Written" by (simp add: key_place_works_def)
  from history_key_stable [OF sample_base64 _ this h, of "replicate 32 9" Written] h show ?thesis by auto
qed

text \<open>C37. A keyring that cannot be read for a moment costs the history: when the stored key exists but
  reading the entry fails while writing succeeds, the start replaces the stored key by a fresh
  one, and no later start can find the old key again.\<close>

theorem unreadable_keyring_loses_key:
  assumes "base64_inverts cr" and "length fresh = 32"
    and "ks_native k" and "ks_entry k" and "\<not> ks_readable k" and "ks_writable k"
    and "ks_secret k = Some (b64_encode cr old)" and "old \<noteq> fresh"
    and "history_key cr fresh readable wr dir k fs = (key, k', fs')"
  shows "fst (history_key cr later readable' wr' dir (k'\<lparr>ks_readable := True\<rparr>) fs') \<noteq> old"
proof -
  have "stored_key cr k = None" using assms(5) by (simp add: stored_key_def)
  then have "k' = k\<lparr>ks_secret := Some (b64_encode cr fresh)\<rparr>"
    using assms(3-6,9) by (auto simp: history_key_def)
  then have "stored_key cr (k'\<lparr>ks_readable := True\<rparr>) = Some fresh"
    using assms(1,2) by (simp add: stored_key_def base64_inverts_def)
  then show ?thesis
    using assms(3,4,8) \<open>k' = _\<close> by (simp add: history_key_def)
qed

theorem unreadable_keyring_loses_key_witness:
  "fst (history_key sample_crates [] True Written []
      \<lparr>ks_native = True, ks_entry = True, ks_readable = True, ks_writable = True,
       ks_secret = Some (b64_encode sample_crates (replicate 32 7))\<rparr> Map.empty) \<noteq> replicate 32 9"
proof -
  let ?k = "\<lparr>ks_native = True, ks_entry = True, ks_readable = False, ks_writable = True,
       ks_secret = Some (b64_encode sample_crates (replicate 32 9))\<rparr>"
  have h: "history_key sample_crates (replicate 32 7) True Written [] ?k Map.empty
      = (replicate 32 7, ?k\<lparr>ks_secret := Some (b64_encode sample_crates (replicate 32 7))\<rparr>, Map.empty)"
    by (simp add: history_key_def stored_key_def)
  show ?thesis
    using unreadable_keyring_loses_key [OF sample_base64 _ _ _ _ _ _ _ h, of "replicate 32 9" "[]" True Written]
    by simp
qed

subsection \<open>The command line\<close>

text \<open>What the agent relies on in the text of its JSON codec: it is UTF-8, and it neither is empty
  nor begins or ends with white space.\<close>

definition json_line :: "crates \<Rightarrow> bool" where
  "json_line cr \<longleftrightarrow> (\<forall>j b. json_to_vec cr j = Some b \<longrightarrow>
     (\<exists>s. b = as_bytes s \<and> list_all scalar s \<and> trim s = s \<and> s \<noteq> []))"

lemma trim_newline: "trim (s @ [10]) = trim s"
proof (cases "\<forall>c \<in> set s. is_whitespace c")
  case True
  then have "dropWhile is_whitespace (s @ [10]) = []" "dropWhile is_whitespace s = []"
    by (simp_all add: is_whitespace_def)
  then show ?thesis by (simp only: trim_def)
next
  case False
  then have "dropWhile is_whitespace (s @ [10]) = dropWhile is_whitespace s @ [10]"
    by (metis dropWhile_append1)
  then show ?thesis by (simp add: trim_def trim_end_by_def is_whitespace_def)
qed

text \<open>The line a client writes for a request is read back as that request.\<close>

lemma client_line_served:
  assumes "json_inverts cr" and "json_line cr" and "client_line cr r = Some l"
  shows "process_line cr i (l @ [10]) subscribed a
    = (fst (handle_request cr i r a), subscribed \<or> r = Subscribe, [Reply (snd (handle_request cr i r a))])"
proof -
  obtain b where b: "json_to_vec cr (request_to_json r) = Some b" and l: "l = from_utf8_lossy b"
    using assms(3) by (auto simp: client_line_def)
  obtain s where s: "b = as_bytes s" "list_all scalar s" "trim s = s" "s \<noteq> []"
    using assms(2) b by (auto simp: json_line_def)
  have "l = s" using l s from_utf8_lossy_as_bytes by simp
  moreover have "json_from_slice cr (as_bytes s) = Some (request_to_json r)"
    using assms(1) b s(1) by (auto simp: json_inverts_def)
  moreover have "request_of_json (request_to_json r) = Some r"
    by (rule request_json_roundtrip)
  ultimately show ?thesis
    using s(3,4) by (simp add: process_line_def trim_newline case_prod_beta)
qed

text \<open>The command line drives the daemon: the line a command writes is read by the daemon as the
  request the command stands for, is handled exactly like it, and is answered by its reply alone.\<close>

theorem cli_request_served:
  assumes "json_inverts cr" and "json_line cr"
    and "main_cli args = CliSend r" and "client_line cr r = Some l"
  shows "process_line cr i (l @ [10]) subscribed a
    = (fst (handle_request cr i r a), subscribed \<or> r = Subscribe, [Reply (snd (handle_request cr i r a))])"
  by (rule client_line_served [OF assms(1,2,4)])

definition status_line_crates :: crates where
  "status_line_crates = sample_crates\<lparr>
     json_to_vec := (\<lambda>v. if v = request_to_json GetStatus then Some (as_bytes (lit ''{}'')) else None),
     json_to_vec_pretty := (\<lambda>v. None),
     json_from_slice := (\<lambda>b. Some (request_to_json GetStatus))\<rparr>"

theorem cli_request_served_witness:
  "process_line status_line_crates sample_aio (lit ''{}'' @ [10]) False sample_agent
    = (sample_agent, False, [Reply (RStatus (status_snapshot sample_agent))])"
proof -
  have "json_inverts status_line_crates"
    by (simp add: json_inverts_def status_line_crates_def split: if_splits)
  moreover have "json_line status_line_crates"
    unfolding json_line_def status_line_crates_def
    by (auto split: if_splits intro!: exI [of _ "lit ''{}''"]
        simp: scalar_def trim_def trim_end_by_def is_whitespace_def)
  moreover have "main_cli [lit ''status''] = CliSend GetStatus"
    by (simp add: main_cli_def)
  moreover have "client_line status_line_crates GetStatus = Some (lit ''{}'')"
    using from_utf8_lossy_as_bytes [of "lit ''{}''"]
    by (simp add: client_line_def status_line_crates_def scalar_def)
  ultimately show ?thesis
    using cli_request_served [of status_line_crates "[lit ''status'']" GetStatus "lit ''{}''" sample_aio False sample_agent]
    by simp
qed

end
