(* ===== verification/Gui_Agent.thy ===== *)
theory Gui_Agent
  imports Gui_Props Agent_Serve
begin

text \<open>
  The GUI and the agent together: the requests of the GUI are served by the agent's handler. What
  the settings controls need of an agent is an interface, and the agent is shown to provide it.
\<close>

subsection \<open>The agent behind the socket\<close>

definition agent_ask :: "crates \<Rightarrow> aio \<Rightarrow> bool \<Rightarrow> agent ask" where
  "agent_ask cr i up r a =
     (if up then (fst (handle_request cr i r a), Line (Reply (snd (handle_request cr i r a)))) else (a, NoAgent))"

text \<open>This is what a connection that is not subscribed does with the line the GUI writes.\<close>

lemma agent_ask_is_connection:
  assumes "json_inverts cr" and "json_line cr" and "client_line cr r = Some l" and "r \<noteq> Subscribe"
  shows "conn_step cr i (ClientLine (l @ [10])) \<lparr>cn_subscribed = False, cn_streaming = False\<rparr> a
    = (\<lparr>cn_subscribed = False, cn_streaming = False\<rparr>, fst (agent_ask cr i True r a), [case snd (agent_ask cr i True r a) of Line m \<Rightarrow> m], True)"
  using assms by (simp add: client_line_served agent_ask_def)

lemma agent_ask_request:
  "gui_request (agent_ask cr i True) r a = (fst (handle_request cr i r a), Inr (snd (handle_request cr i r a)))"
  by (simp add: gui_request_def agent_ask_def)

lemma agent_ask_ok:
  "request_ok (agent_ask cr i True) r a = (fst (handle_request cr i r a),
     case snd (handle_request cr i r a) of RError m \<Rightarrow> Inl (ErrAgent m) | x \<Rightarrow> Inr x)"
  by (simp add: request_ok_def agent_ask_request split: response.split)

lemma agent_down: "gui_request (agent_ask cr i False) r a = (a, Inl ErrConnect)"
  "request_ok (agent_ask cr i False) r a = (a, Inl ErrConnect)"
  by (simp_all add: gui_request_def request_ok_def agent_ask_def)

subsection \<open>Interface: an agent with settings\<close>

text \<open>The controls of the settings tab show a status.\<close>

definition shows_settings :: "gui \<Rightarrow> ipc_status \<Rightarrow> bool" where
  "shows_settings g s \<longleftrightarrow> gu_privacy_filter g = is_privacy_filter s \<and> gu_mark_sensitive g = is_mark_sensitive s
     \<and> gu_telemetry g = is_telemetry s \<and> gu_auto_clear_secs g = is_auto_clear_secs s"

lemma shows_settings_frame [simp]:
  "shows_settings (logline k f m g) s = shows_settings g s" "shows_settings (persist k g) s = shows_settings g s"
  "shows_settings (persist_if b k g) s = shows_settings g s" "shows_settings (start_discovery g) s = shows_settings g s"
  "shows_settings (do_pair g) s = shows_settings g s" "shows_settings (adopt_status s' g) s'"
  by (simp_all add: shows_settings_def logline_def log_push_def Let_def persist_def persist_if_def start_discovery_def
      do_pair_def adopt_status_def)

lemma apply_hotkey_settings [simp]: "shows_settings (apply_hotkey k spec g) s = shows_settings g s"
  by (simp add: apply_hotkey_def Let_def split: option.split) (auto simp: shows_settings_def)

locale settings_server =
  fixes ask :: "'w ask"
    and view :: "'w \<Rightarrow> ipc_status"
  assumes get_status: "ask GetStatus w = (w, Line (Reply (RStatus (view w))))"
    and set_privacy: "view (fst (ask (SetPrivacyFilter b) w)) = (view w)\<lparr>is_privacy_filter := b\<rparr>"
    and set_mark: "view (fst (ask (SetMarkSensitive b) w)) = (view w)\<lparr>is_mark_sensitive := b\<rparr>"
    and set_telemetry: "view (fst (ask (SetTelemetry b) w)) = (view w)\<lparr>is_telemetry := b\<rparr>"
    and set_auto_clear: "view (fst (ask (SetAutoClear n) w)) = (view w)\<lparr>is_auto_clear_secs := n\<rparr>"
begin

lemma write_through_world: "snd (write_through ask k r m gw) = fst (ask r (snd gw))"
  by (simp add: write_through_def request_ok_def gui_request_def case_prod_beta Let_def)

lemma write_through_gui: "fst (write_through ask k r m gw) = logline k True m (fst gw)"
  by (simp add: write_through_def case_prod_beta Let_def)

lemma reload_shows: "shows_settings (fst (reload_status ask gw)) (view (snd (reload_status ask gw)))"
  by (simp add: reload_status_def gui_request_def get_status case_prod_beta)

lemma click_keeps:
  assumes "shows_settings (fst gw) (view (snd gw))"
  shows "shows_settings (fst (tab_settings ask k a gw)) (view (snd (tab_settings ask k a gw)))"
proof -
  have frame: "shows_settings (g\<lparr>gu_privacy_filter := x\<rparr>) (s\<lparr>is_privacy_filter := x\<rparr>)"
    "shows_settings (g\<lparr>gu_mark_sensitive := x\<rparr>) (s\<lparr>is_mark_sensitive := x\<rparr>)"
    "shows_settings (g\<lparr>gu_telemetry := x\<rparr>) (s\<lparr>is_telemetry := x\<rparr>)"
    "shows_settings (g\<lparr>gu_auto_clear_secs := n\<rparr>) (s\<lparr>is_auto_clear_secs := n\<rparr>)" if "shows_settings g s" for g s x n
    using that by (simp_all add: shows_settings_def)
  show ?thesis
    using assms frame
    by (cases a)
      (simp_all add: tab_settings_defs case_prod_beta write_through_world write_through_gui set_privacy set_mark set_telemetry
        set_auto_clear, simp_all add: shows_settings_def)
qed

lemma clicks_keep:
  "shows_settings (fst gw) (view (snd gw)) \<Longrightarrow>
     shows_settings (fst (fold (tab_settings ask k) acts gw)) (view (snd (fold (tab_settings ask k) acts gw)))"
  by (induction acts arbitrary: gw) (simp_all add: click_keeps)

end

interpretation agent_settings: settings_server "agent_ask cr i True" status_snapshot for cr i
  by unfold_locales (simp_all add: agent_ask_def status_snapshot_def status_to_ipc_def tlog_def)

subsection \<open>Settings\<close>


text \<open>C32. The settings tab can lie in two ways. A status the agent pushed before a click but that the GUI reads
  after it puts the control back, although the agent has taken the new setting. And when the
  agent cannot be reached, the control shows a setting that was never made.\<close>

theorem control_can_lie:
  assumes "shows_settings g (status_snapshot a)"
    and "tab_settings (agent_ask cr i True) k APrivacy (g, a) = (g1, a1)"
    and "pump_events (agent_ask cr i True) k now [FromAgent (EStatus (status_snapshot a))] (g1, a1) = (g2, a2)"
    and "tab_settings (agent_ask cr i False) k APrivacy (g, a) = (g3, a3)"
  shows "a_exclude a2 = (\<not> a_exclude a) \<and> gu_privacy_filter g2 = a_exclude a
    \<and> a3 = a \<and> gu_privacy_filter g3 = (\<not> a_exclude a3)"
proof -
  have privacy: "gu_privacy_filter g = a_exclude a"
    using assms(1) by (simp add: shows_settings_def status_snapshot_def status_to_ipc_def)
  have log: "gu_privacy_filter (logline k f m h) = gu_privacy_filter h" for f m h
    by (simp add: logline_def log_push_def Let_def)
  have "a_exclude a1 = (\<not> a_exclude a)"
    using assms(2) privacy by (auto simp: tab_settings_defs write_through_def agent_ask_ok)
  moreover have "a2 = a1" "gu_privacy_filter g2 = a_exclude a"
    using assms(3) by (auto simp: pump_events_def adopt_status_def status_snapshot_def status_to_ipc_def)
  moreover have "a3 = a" "gu_privacy_filter g3 = (\<not> a_exclude a)"
    using assms(4) privacy by (auto simp: tab_settings_defs write_through_def agent_down log)
  ultimately show ?thesis by simp
qed

theorem control_can_lie_witness:
  "\<exists>g g1 a1 g2 a2. tab_settings (agent_ask sample_crates sample_aio True) (sample_gdesk True []) APrivacy (g, sample_agent) = (g1, a1)
     \<and> pump_events (agent_ask sample_crates sample_aio True) (sample_gdesk True []) 0
         [FromAgent (EStatus (status_snapshot sample_agent))] (g1, a1) = (g2, a2)
     \<and> \<not> a_exclude a2 \<and> gu_privacy_filter g2"
proof -
  let ?k = "sample_gdesk True []" and ?up = "agent_ask sample_crates sample_aio True"
  let ?g = "adopt_status (status_snapshot sample_agent) (app_new (sample_gdesk True []) Map.empty)"
  obtain g1 a1 where 1: "tab_settings ?up ?k APrivacy (?g, sample_agent) = (g1, a1)" by (meson surj_pair)
  obtain g2 a2 where 2: "pump_events ?up ?k 0 [FromAgent (EStatus (status_snapshot sample_agent))] (g1, a1) = (g2, a2)"
    by (meson surj_pair)
  obtain g3 a3 where 3: "tab_settings (agent_ask sample_crates sample_aio False) ?k APrivacy (?g, sample_agent) = (g3, a3)"
    by (meson surj_pair)
  have "a_exclude sample_agent" by (simp add: sample_agent_def)
  then show ?thesis using control_can_lie [OF _ 1 2 3] 1 2 by (intro exI conjI) auto
qed

subsection \<open>Targets\<close>

text \<open>The targets the GUI asks for.\<close>

definition gui_targets :: "gui \<Rightarrow> targets" where
  "gui_targets g = (if gu_target_all g \<or> gu_selected_targets g = [] then All else Devices (gu_selected_targets g))"



subsection \<open>Sending and pairing\<close>

text \<open>Text typed into the GUI is not lost and not sent twice: when the agent accepts it, exactly that text
  is added to the engine's queue and the input is emptied; when the agent is not reachable or has
  no engine, nothing is queued and the text stays in the input.\<close>

theorem typed_text_sent_once:
  assumes "trim (gu_send_text g) \<noteq> []"
    and "tab_connect (agent_ask cr i up) k ASendText (g, a) = (g', a')"
  shows "(case a_tx a of
            Some (True, q) \<Rightarrow> if up then a' = a\<lparr>a_tx := Some (True, q @ [SendText (gu_send_text g)])\<rparr> \<and> gu_send_text g' = []
                             else a' = a \<and> gu_send_text g' = gu_send_text g
          | _ \<Rightarrow> a' = a \<and> gu_send_text g' = gu_send_text g)"
proof -
  have log: "gu_send_text (logline k f m h) = gu_send_text h" for f m h
    by (simp add: logline_def log_push_def Let_def)
  have "gu_send_text g \<noteq> []" using assms(1) by (auto simp: trim_def trim_end_by_def)
  then show ?thesis
    using assms
    by (cases up) (auto simp: tab_connect_def told_def agent_ask_ok agent_down send_cmd_def log split: option.splits prod.splits if_splits bool.splits)
qed

theorem typed_text_sent_once_witness:
  "\<exists>g' a'. tab_connect (agent_ask sample_crates sample_aio True) (sample_gdesk True []) ASendText
       ((app_new (sample_gdesk True []) Map.empty)\<lparr>gu_send_text := [104]\<rparr>, sample_agent) = (g', a')
     \<and> a_tx a' = Some (True, [SendText [104]]) \<and> gu_send_text g' = []"
proof -
  let ?g = "(app_new (sample_gdesk True []) Map.empty)\<lparr>gu_send_text := [104]\<rparr>"
  obtain g' a' where r: "tab_connect (agent_ask sample_crates sample_aio True) (sample_gdesk True []) ASendText (?g, sample_agent) = (g', a')"
    by (meson surj_pair)
  have "trim (gu_send_text ?g) \<noteq> []" by (simp add: trim_def trim_end_by_def is_whitespace_def)
  from typed_text_sent_once [OF this r] show ?thesis using r by (auto simp: sample_agent_def)
qed

text \<open>Pairing from the GUI ends in a definite answer: the request carries the trimmed fields, a second click
  while it is pending changes nothing, and once the worker has run, the next frame shows either
  the agent's new status with its settings and roster, or the agent's error, and the button works
  again.\<close>

theorem pairing_completes:
  assumes "gu_pair_rx g = None" and "do_pair g = g1"
    and "pair_worker (agent_ask cr i True) (g1, a) = (g2, a2)"
    and "poll_pair (agent_ask cr i True) k (g2, a2) = (g3, a3)"
    and "r = Pair (trim (gu_pair_server g)) (trim (gu_pair_otp g)) (trim (gu_pair_name g)) (trim (gu_pair_pin g)) (gu_pair_e2e g)"
  shows "do_pair g1 = g1 \<and> gu_pair_rx g3 = None \<and> a3 = fst (handle_request cr i r a)
    \<and> (case snd (handle_request cr i r a) of
          RPaired s \<Rightarrow> gu_status g3 = s \<and> shows_settings g3 s \<and> gu_pair_status g3 = PairOk
                      \<and> gu_roster g3 = roster_to_ipc (a_roster a3)
        | RError m \<Rightarrow> gu_status g3 = gu_status g \<and> gu_pair_status g3 = PairFail (ErrAgent m)
        | _ \<Rightarrow> False)"
proof -
  have g1: "g1 = g\<lparr>gu_pair_status := Pairing, gu_pair_rx := Some (r, Running)\<rparr>"
    using assms(1,2,5) by (simp add: do_pair_def)
  have log: "gu_pair_rx (logline k f m h) = gu_pair_rx h" "gu_status (logline k f m h) = gu_status h"
    "gu_pair_status (logline k f m h) = gu_pair_status h" for f m h
    by (simp_all add: logline_def log_push_def Let_def)
  have "(\<exists>s. snd (handle_request cr i r a) = RPaired s) \<or> (\<exists>m. snd (handle_request cr i r a) = RError m)"
    unfolding assms(5) by (auto simp: Let_def split: option.split prod.split)
  then show ?thesis
  proof (elim disjE exE)
    fix s assume s: "snd (handle_request cr i r a) = RPaired s"
    have 2: "g2 = g1\<lparr>gu_pair_rx := Some (r, Sent (Inr s))\<rparr>" "a2 = fst (handle_request cr i r a)"
      using assms(3) s by (auto simp: g1 pair_worker_def agent_ask_request)
    then have 3: "(g3, a3) = reload_roster (agent_ask cr i True)
        (adopt_status s (logline k True LPaired (g2\<lparr>gu_pair_rx := None, gu_pair_status := PairOk\<rparr>)), a2)"
      using assms(4) by (simp add: poll_pair_def)
    then show ?thesis using s 2
      by (auto simp: g1 do_pair_def reload_roster_def agent_ask_request adopt_status_def log shows_settings_def)
  next
    fix m assume m: "snd (handle_request cr i r a) = RError m"
    have 2: "g2 = g1\<lparr>gu_pair_rx := Some (r, Sent (Inl (ErrAgent m)))\<rparr>" "a2 = fst (handle_request cr i r a)"
      using assms(3) m by (auto simp: g1 pair_worker_def agent_ask_request)
    then have "g3 = logline k True (LPairFailed (ErrAgent m)) (g2\<lparr>gu_pair_rx := None, gu_pair_status := PairFail (ErrAgent m)\<rparr>)" "a3 = a2"
      using assms(4) by (simp_all add: poll_pair_def)
    then show ?thesis using m 2 by (simp add: g1 do_pair_def log)
  qed
qed

theorem pairing_completes_witness:
  "\<exists>g3 a3. poll_pair (agent_ask sample_crates sample_aio True) (sample_gdesk True [])
       (pair_worker (agent_ask sample_crates sample_aio True) (do_pair (app_new (sample_gdesk True []) Map.empty), sample_agent)) = (g3, a3)
     \<and> gu_pair_rx g3 = None"
proof -
  let ?k = "sample_gdesk True []" and ?up = "agent_ask sample_crates sample_aio True"
  let ?g = "app_new ?k Map.empty"
  obtain g2 a2 where 2: "pair_worker ?up (do_pair ?g, sample_agent) = (g2, a2)" by (meson surj_pair)
  obtain g3 a3 where 3: "poll_pair ?up ?k (g2, a2) = (g3, a3)" by (meson surj_pair)
  have "gu_pair_rx ?g = None" by (simp add: gui_eval)
  from pairing_completes [OF this refl 2 3 refl] show ?thesis using 2 3 by auto
qed

end
