(* ===== verification/Ipc_Wire.thy ===== *)
theory Ipc_Wire
  imports Agent_Serve
begin

text \<open>
  What the agent writes to its clients (\<open>ipc/src/lib.rs\<close>): replies and events with the texts they
  carry, the JSON that serde writes and reads for them, \<open>Outbound::to_line\<close>, and the reading side
  of a client: \<open>read_line\<close> on a stream of bytes and the parse of each line.

  The daemon's replies and events name their messages by constructors; \<open>render_outbound\<close> turns them into the
  strings on the wire, by functions that are a parameter (many of the strings quote an error of a
  library).
\<close>

subsection \<open>The messages with their texts\<close>

datatype w_response =
    WStatus ipc_status
  | WHistory "hist_row list"
  | WRoster "ipc_roster list"
  | WFound "found_server list"
  | WPaired ipc_status
  | WOk
  | WError rstr

datatype w_event =
    WEStatus ipc_status
  | WEClip clip_info
  | WERoster "ipc_roster list"
  | WEError rstr
  | WEReconnect rstr
  | WENotify rstr rstr
  | WECliplog rstr

datatype w_outbound = WReply w_response | WEvent w_event

record texts =
  tx_agent :: "agent_msg \<Rightarrow> rstr"
  tx_engine :: "msg \<Rightarrow> rstr"
  tx_reconnect :: "u32 \<Rightarrow> nat \<Rightarrow> rstr"
  tx_cliplog :: "clip_log \<Rightarrow> rstr"

fun render_response :: "texts \<Rightarrow> response \<Rightarrow> w_response" where
  "render_response tx (RStatus s) = WStatus s"
| "render_response tx (RHistory l) = WHistory l"
| "render_response tx (RRoster l) = WRoster l"
| "render_response tx (RFound l) = WFound l"
| "render_response tx (RPaired s) = WPaired s"
| "render_response tx ROk = WOk"
| "render_response tx (RError m) = WError (tx_agent tx m)"

fun render_event :: "texts \<Rightarrow> event \<Rightarrow> w_event" where
  "render_event tx (EStatus s) = WEStatus s"
| "render_event tx (EClip c) = WEClip c"
| "render_event tx (ERoster l) = WERoster l"
| "render_event tx (EError (Inl m)) = WEError (tx_engine tx m)"
| "render_event tx (EError (Inr m)) = WEError (tx_agent tx m)"
| "render_event tx (EReconnect n d) = WEReconnect (tx_reconnect tx n d)"
| "render_event tx (ENotify t m) = WENotify t (tx_engine tx m)"
| "render_event tx (ECliplog l) = WECliplog (tx_cliplog tx l)"

fun render_outbound :: "texts \<Rightarrow> outbound \<Rightarrow> w_outbound" where
  "render_outbound tx (Reply r) = WReply (render_response tx r)"
| "render_outbound tx (Push e) = WEvent (render_event tx e)"

subsection \<open>Structs as JSON\<close>

definition opt_to_json :: "('a \<Rightarrow> json) \<Rightarrow> 'a option \<Rightarrow> json" where
  "opt_to_json f x = (case x of Some y \<Rightarrow> f y | None \<Rightarrow> JNull)"

definition as_vec :: "(json \<Rightarrow> 'a option) \<Rightarrow> json \<Rightarrow> 'a list option" where
  "as_vec f v = (case v of JArr xs \<Rightarrow> those (map f xs) | _ \<Rightarrow> None)"

definition status_to_json :: "ipc_status \<Rightarrow> json" where
  "status_to_json s = JObj
     [(''paired'', JBool (is_paired s)), (''connected'', JBool (is_connected s)),
      (''reconnecting'', JBool (is_reconnecting s)), (''server'', JStr (is_server s)),
      (''device'', JStr (is_device s)), (''e2e'', JBool (is_e2e s)), (''pool'', JStr (is_pool s)),
      (''pools'', JArr (map JStr (is_pools s))), (''privacy_filter'', JBool (is_privacy_filter s)),
      (''mark_sensitive'', JBool (is_mark_sensitive s)),
      (''auto_clear_secs'', JInt (uint (is_auto_clear_secs s))), (''telemetry'', JBool (is_telemetry s))]"

definition status_of_json :: "json \<Rightarrow> ipc_status option" where
  "status_of_json v = do {
     m \<leftarrow> struct_fields [''paired'', ''connected'', ''reconnecting'', ''server'', ''device'', ''e2e'', ''pool'',
            ''pools'', ''privacy_filter'', ''mark_sensitive'', ''auto_clear_secs'', ''telemetry''] v;
     paired \<leftarrow> deflt as_bool False m ''paired'';
     conn \<leftarrow> req as_bool m ''connected'';
     reconn \<leftarrow> req as_bool m ''reconnecting'';
     server \<leftarrow> req as_str m ''server'';
     device \<leftarrow> req as_str m ''device'';
     e2e \<leftarrow> req as_bool m ''e2e'';
     pool \<leftarrow> req as_str m ''pool'';
     pools \<leftarrow> req as_str_vec m ''pools'';
     filt \<leftarrow> deflt as_bool False m ''privacy_filter'';
     mark \<leftarrow> deflt as_bool False m ''mark_sensitive'';
     secs \<leftarrow> deflt as_u64 0 m ''auto_clear_secs'';
     tel \<leftarrow> deflt as_bool True m ''telemetry'';
     Some \<lparr>is_paired = paired, is_connected = conn, is_reconnecting = reconn, is_server = server,
       is_device = device, is_e2e = e2e, is_pool = pool, is_pools = pools, is_privacy_filter = filt,
       is_mark_sensitive = mark, is_auto_clear_secs = secs, is_telemetry = tel\<rparr> }"

definition histrow_to_json :: "hist_row \<Rightarrow> json" where
  "histrow_to_json r = JObj
     [(''ts'', JStr (hr_ts r)), (''kind'', JStr (hr_kind r)), (''direction'', JStr (hr_direction r)),
      (''origin'', JStr (hr_origin r)), (''preview'', JStr (hr_preview r)), (''size'', JInt (hr_size r))]"

definition histrow_of_json :: "json \<Rightarrow> hist_row option" where
  "histrow_of_json v = do {
     m \<leftarrow> struct_fields [''ts'', ''kind'', ''direction'', ''origin'', ''preview'', ''size''] v;
     ts \<leftarrow> req as_str m ''ts'';
     k \<leftarrow> req as_str m ''kind'';
     dir \<leftarrow> req as_str m ''direction'';
     orig \<leftarrow> req as_str m ''origin'';
     prev \<leftarrow> req as_str m ''preview'';
     sz \<leftarrow> req as_i64 m ''size'';
     Some \<lparr>hr_ts = ts, hr_kind = k, hr_direction = dir, hr_origin = orig, hr_preview = prev, hr_size = sz\<rparr> }"

definition clipinfo_to_json :: "clip_info \<Rightarrow> json" where
  "clipinfo_to_json c = JObj
     [(''direction'', JStr (ci_direction c)), (''kind'', JStr (ci_kind c)),
      (''text'', opt_to_json JStr (ci_text c)), (''name'', opt_to_json JStr (ci_name c)),
      (''sensitive'', opt_to_json JStr (ci_sensitive c)), (''size'', opt_to_json JInt (ci_size c)),
      (''origin'', opt_to_json JStr (ci_origin c)), (''path'', opt_to_json JStr (ci_path c)),
      (''on_demand'', opt_to_json JBool (ci_on_demand c))]"

definition clipinfo_of_json :: "json \<Rightarrow> clip_info option" where
  "clipinfo_of_json v = do {
     m \<leftarrow> struct_fields [''direction'', ''kind'', ''text'', ''name'', ''sensitive'', ''size'', ''origin'', ''path'',
            ''on_demand''] v;
     dir \<leftarrow> req as_str m ''direction'';
     k \<leftarrow> req as_str m ''kind'';
     txt \<leftarrow> opt_field as_str m ''text'';
     nm \<leftarrow> opt_field as_str m ''name'';
     sens \<leftarrow> opt_field as_str m ''sensitive'';
     sz \<leftarrow> opt_field as_i64 m ''size'';
     orig \<leftarrow> opt_field as_str m ''origin'';
     pth \<leftarrow> opt_field as_str m ''path'';
     od \<leftarrow> opt_field as_bool m ''on_demand'';
     Some \<lparr>ci_direction = dir, ci_kind = k, ci_text = txt, ci_name = nm, ci_sensitive = sens, ci_size = sz,
       ci_origin = orig, ci_path = pth, ci_on_demand = od\<rparr> }"

definition rosterdev_to_json :: "ipc_roster \<Rightarrow> json" where
  "rosterdev_to_json d = JObj [(''id'', JStr (ir_id d)), (''name'', JStr (ir_name d)), (''online'', JBool (ir_online d))]"

definition rosterdev_of_json :: "json \<Rightarrow> ipc_roster option" where
  "rosterdev_of_json v = do {
     m \<leftarrow> struct_fields [''id'', ''name'', ''online''] v;
     i \<leftarrow> req as_str m ''id'';
     n \<leftarrow> req as_str m ''name'';
     o' \<leftarrow> req as_bool m ''online'';
     Some \<lparr>ir_id = i, ir_name = n, ir_online = o'\<rparr> }"

definition found_to_json :: "found_server \<Rightarrow> json" where
  "found_to_json f = JObj [(''name'', JStr (fs_name f)), (''url'', JStr (fs_url f))]"

definition found_of_json :: "json \<Rightarrow> found_server option" where
  "found_of_json v = do {
     m \<leftarrow> struct_fields [''name'', ''url''] v;
     n \<leftarrow> req as_str m ''name'';
     u \<leftarrow> req as_str m ''url'';
     Some \<lparr>fs_name = n, fs_url = u\<rparr> }"

subsection \<open>Enums as JSON\<close>

text \<open>An adjacently tagged value under the given names of tag and content.\<close>

definition adjacent_as :: "string \<Rightarrow> string \<Rightarrow> json \<Rightarrow> (rstr \<times> json option) option" where
  "adjacent_as tag content v =
     (case v of
        JObj m \<Rightarrow> map_option (\<lambda>t. (t, map_of m content)) (req as_str m tag)
      | JArr [t, d] \<Rightarrow> map_option (\<lambda>s. (s, Some d)) (as_str t)
      | _ \<Rightarrow> None)"

definition newtype_variant :: "(json \<Rightarrow> 'b option) \<Rightarrow> ('b \<Rightarrow> 'a) \<Rightarrow> json option \<Rightarrow> 'a option" where
  "newtype_variant f c d = map_option c (Option.bind d f)"

definition with_content :: "string \<Rightarrow> json \<Rightarrow> json" where
  "with_content t v = JObj [(''t'', JStr (lit t)), (''d'', v)]"

fun response_to_json :: "w_response \<Rightarrow> json" where
  "response_to_json (WStatus s) = with_content ''status'' (status_to_json s)"
| "response_to_json (WHistory l) = with_content ''history'' (JArr (map histrow_to_json l))"
| "response_to_json (WRoster l) = with_content ''roster'' (JArr (map rosterdev_to_json l))"
| "response_to_json (WFound l) = with_content ''found'' (JArr (map found_to_json l))"
| "response_to_json (WPaired s) = with_content ''paired'' (status_to_json s)"
| "response_to_json WOk = tag_only ''ok''"
| "response_to_json (WError m) = tagged ''error'' [(''message'', JStr m)]"

definition response_of_json :: "json \<Rightarrow> w_response option" where
  "response_of_json v =
     (case adjacent v of
        None \<Rightarrow> None
      | Some (t, d) \<Rightarrow>
          if t = lit ''status'' then newtype_variant status_of_json WStatus d
          else if t = lit ''history'' then newtype_variant (as_vec histrow_of_json) WHistory d
          else if t = lit ''roster'' then newtype_variant (as_vec rosterdev_of_json) WRoster d
          else if t = lit ''found'' then newtype_variant (as_vec found_of_json) WFound d
          else if t = lit ''paired'' then newtype_variant status_of_json WPaired d
          else if t = lit ''ok'' then unit_variant WOk d
          else if t = lit ''error'' then
            struct_variant [''message''] (\<lambda>m. map_option WError (req as_str m ''message'')) d
          else None)"

fun event_to_json :: "w_event \<Rightarrow> json" where
  "event_to_json (WEStatus s) = with_content ''status'' (status_to_json s)"
| "event_to_json (WEClip c) = with_content ''clip'' (clipinfo_to_json c)"
| "event_to_json (WERoster l) = with_content ''roster'' (JArr (map rosterdev_to_json l))"
| "event_to_json (WEError m) = tagged ''error'' [(''message'', JStr m)]"
| "event_to_json (WEReconnect s) = tagged ''reconnect'' [(''info'', JStr s)]"
| "event_to_json (WENotify t b) = tagged ''notify'' [(''title'', JStr t), (''body'', JStr b)]"
| "event_to_json (WECliplog m) = tagged ''cliplog'' [(''msg'', JStr m)]"

definition event_of_json :: "json \<Rightarrow> w_event option" where
  "event_of_json v =
     (case adjacent v of
        None \<Rightarrow> None
      | Some (t, d) \<Rightarrow>
          if t = lit ''status'' then newtype_variant status_of_json WEStatus d
          else if t = lit ''clip'' then newtype_variant clipinfo_of_json WEClip d
          else if t = lit ''roster'' then newtype_variant (as_vec rosterdev_of_json) WERoster d
          else if t = lit ''error'' then
            struct_variant [''message''] (\<lambda>m. map_option WEError (req as_str m ''message'')) d
          else if t = lit ''reconnect'' then
            struct_variant [''info''] (\<lambda>m. map_option WEReconnect (req as_str m ''info'')) d
          else if t = lit ''notify'' then
            struct_variant [''title'', ''body''] (\<lambda>m. do {
              a \<leftarrow> req as_str m ''title'';
              b \<leftarrow> req as_str m ''body'';
              Some (WENotify a b) }) d
          else if t = lit ''cliplog'' then
            struct_variant [''msg''] (\<lambda>m. map_option WECliplog (req as_str m ''msg'')) d
          else None)"

fun outbound_to_json :: "w_outbound \<Rightarrow> json" where
  "outbound_to_json (WReply r) = JObj [(''kind'', JStr (lit ''reply'')), (''msg'', response_to_json r)]"
| "outbound_to_json (WEvent e) = JObj [(''kind'', JStr (lit ''event'')), (''msg'', event_to_json e)]"

definition outbound_of_json :: "json \<Rightarrow> w_outbound option" where
  "outbound_of_json v =
     (case adjacent_as ''kind'' ''msg'' v of
        None \<Rightarrow> None
      | Some (t, d) \<Rightarrow>
          if t = lit ''reply'' then newtype_variant response_of_json WReply d
          else if t = lit ''event'' then newtype_variant event_of_json WEvent d
          else None)"

subsection \<open>Lines\<close>

text \<open>\<open>Outbound::to_line\<close>: a value that cannot be serialised is written as an empty object.\<close>

definition to_line :: "crates \<Rightarrow> w_outbound \<Rightarrow> rstr" where
  "to_line cr x =
     (case json_to_vec cr (outbound_to_json x) of
        Some b \<Rightarrow> from_utf8_lossy b
      | None \<Rightarrow> lit ''{}'') @ [10]"

text \<open>\<open>BufRead::read_line\<close> on the bytes still to come: the line with its newline, and the rest.\<close>

definition read_line :: "bytes \<Rightarrow> bytes \<times> bytes" where
  "read_line b =
     (case dropWhile (\<lambda>x. x \<noteq> 10) b of
        [] \<Rightarrow> (b, [])
      | x # r \<Rightarrow> (takeWhile (\<lambda>x. x \<noteq> 10) b @ [x], r))"

definition parse_outbound :: "crates \<Rightarrow> rstr \<Rightarrow> w_outbound option" where
  "parse_outbound cr s = Option.bind (json_from_slice cr (as_bytes (trim s))) outbound_of_json"

lemma read_line_shorter: "b \<noteq> [] \<Longrightarrow> length (snd (read_line b)) < length b"
proof -
  assume "b \<noteq> []"
  then show ?thesis
    using length_dropWhile_le [of "\<lambda>x. x \<noteq> 10" b]
    by (auto simp: read_line_def split: list.split)
qed

text \<open>The loop of a client on its connection until the end of the stream, one parse for each line; a
  line that is not UTF-8 ends it.\<close>

function read_outbounds :: "crates \<Rightarrow> bytes \<Rightarrow> w_outbound option list" where
  "read_outbounds cr b =
     (if b = [] then []
      else (case from_utf8 (fst (read_line b)) of
              None \<Rightarrow> []
            | Some s \<Rightarrow> parse_outbound cr s # read_outbounds cr (snd (read_line b))))"
  by pat_completeness auto
termination
  by (relation "measure (\<lambda>(_, b). length b)") (simp_all add: read_line_shorter)

declare read_outbounds.simps [simp del]

text \<open>\<open>request\<close>: the first line, if there is one.\<close>

definition first_outbound :: "crates \<Rightarrow> bytes \<Rightarrow> w_outbound option" where
  "first_outbound cr b =
     (if b = [] then None else Option.bind (from_utf8 (fst (read_line b))) (parse_outbound cr))"

text \<open>\<open>client_watch\<close>: every line is printed as it is.\<close>

function watch_lines :: "bytes \<Rightarrow> rstr list" where
  "watch_lines b =
     (if b = [] then []
      else (case from_utf8 (fst (read_line b)) of
              None \<Rightarrow> []
            | Some s \<Rightarrow> s # watch_lines (snd (read_line b))))"
  by pat_completeness auto
termination
  by (relation "measure length") (simp_all add: read_line_shorter)

declare watch_lines.simps [simp del]

text \<open>The bytes of a connection on which the daemon wrote these messages.\<close>

definition sent_bytes :: "crates \<Rightarrow> texts \<Rightarrow> outbound list \<Rightarrow> bytes" where
  "sent_bytes cr tx os = concat (map (\<lambda>x. as_bytes (to_line cr (render_outbound tx x))) os)"

subsection \<open>Round trips\<close>

lemma as_vec_map:
  assumes "\<And>x. x \<in> set l \<Longrightarrow> f (g x) = Some x"
  shows "as_vec f (JArr (map g l)) = Some l"
proof -
  have "those (map f (map g l)) = Some l" using assms by (induction l) simp_all
  then show ?thesis by (simp add: as_vec_def)
qed

lemma opt_field_json [simp]:
  "opt_field as_str ((k, opt_to_json JStr x) # m) k = Some x"
  "opt_field as_bool ((k, opt_to_json JBool y) # m) k = Some y"
  by (cases x; simp add: opt_field_def opt_to_json_def) (cases y; simp add: opt_field_def opt_to_json_def)

lemma opt_field_size [simp]:
  "pred_option i64_range y \<Longrightarrow> opt_field as_i64 ((k, opt_to_json JInt y) # m) k = Some y"
  by (cases y) (auto simp: opt_field_def opt_to_json_def)

lemma field_other [simp]:
  "k \<noteq> k' \<Longrightarrow> opt_field f ((k', v) # m) k = opt_field f m k"
  "k \<noteq> k' \<Longrightarrow> req f' ((k', v) # m) k = req f' m k"
  "req f' ((k, v) # m) k = f' v"
  "k \<noteq> k' \<Longrightarrow> deflt f' x ((k', v) # m) k = deflt f' x m k"
  "deflt f' x ((k, v) # m) k = f' v"
  by (simp_all add: opt_field_def req_def deflt_def)

lemma struct_fields_obj [simp]: "struct_fields names (JObj m) = Some m"
  by (simp add: struct_fields_def)

lemma status_json_roundtrip [simp]: "status_of_json (status_to_json s) = Some s"
  by (simp add: status_of_json_def status_to_json_def)

lemma histrow_json_roundtrip: "i64_range (hr_size r) \<Longrightarrow> histrow_of_json (histrow_to_json r) = Some r"
  by (simp add: histrow_of_json_def histrow_to_json_def)

lemma clipinfo_json_roundtrip: "pred_option i64_range (ci_size c) \<Longrightarrow> clipinfo_of_json (clipinfo_to_json c) = Some c"
  by (simp add: clipinfo_of_json_def clipinfo_to_json_def)

lemma rosterdev_json_roundtrip: "rosterdev_of_json (rosterdev_to_json d) = Some d"
  by (simp add: rosterdev_of_json_def rosterdev_to_json_def)

lemma found_json_roundtrip: "found_of_json (found_to_json f) = Some f"
  by (simp add: found_of_json_def found_to_json_def)

lemma adjacent_content [simp]:
  "adjacent (with_content t v) = Some (lit t, Some v)"
  "adjacent_as tag content (JObj [(tag, JStr t'), (content, v)]) = Some (t', if content = tag then Some (JStr t') else Some v)"
  "newtype_variant f c (Some v) = map_option c (f v)"
  by (simp_all add: adjacent_def with_content_def adjacent_as_def newtype_variant_def)

text \<open>The sizes of the rows and clips are 64-bit integers.\<close>

fun wire_fits :: "w_outbound \<Rightarrow> bool" where
  "wire_fits (WReply (WHistory l)) \<longleftrightarrow> (\<forall>r\<in>set l. i64_range (hr_size r))"
| "wire_fits (WEvent (WEClip c)) \<longleftrightarrow> pred_option i64_range (ci_size c)"
| "wire_fits _ \<longleftrightarrow> True"

lemma response_json_roundtrip: "wire_fits (WReply r) \<Longrightarrow> response_of_json (response_to_json r) = Some r"
  by (cases r)
     (simp_all add: response_of_json_def lit_eq_iff as_vec_map histrow_json_roundtrip rosterdev_json_roundtrip
        found_json_roundtrip del: lit_simps)

lemma event_json_roundtrip: "wire_fits (WEvent e) \<Longrightarrow> event_of_json (event_to_json e) = Some e"
  by (cases e)
     (simp_all add: event_of_json_def lit_eq_iff as_vec_map clipinfo_json_roundtrip rosterdev_json_roundtrip del: lit_simps)

lemma outbound_json_roundtrip: "wire_fits x \<Longrightarrow> outbound_of_json (outbound_to_json x) = Some x"
  by (cases x)
     (simp_all add: outbound_of_json_def lit_eq_iff response_json_roundtrip event_json_roundtrip del: lit_simps)

subsection \<open>The stream of lines\<close>

lemma as_bytes_append: "as_bytes (s @ t) = as_bytes s @ as_bytes t"
  by (simp add: as_bytes_def)

lemma as_bytes_newline: "as_bytes [10] = [10]"
  by (simp add: as_bytes_def utf8_char_def)

lemma read_line_append: "10 \<notin> set b \<Longrightarrow> read_line (b @ 10 # r) = (b @ [10], r)"
proof -
  assume "10 \<notin> set b"
  then have "takeWhile (\<lambda>x. x \<noteq> 10) (b @ 10 # r) = b" "dropWhile (\<lambda>x. x \<noteq> 10) (b @ 10 # r) = 10 # r"
    by (induction b) auto
  then show ?thesis by (simp add: read_line_def)
qed

text \<open>A compact JSON text is on one line: a newline inside a string is escaped.\<close>

definition json_compact :: "crates \<Rightarrow> bool" where
  "json_compact cr \<longleftrightarrow> (\<forall>j b. json_to_vec cr j = Some b \<longrightarrow> 10 \<notin> set b)"

text \<open>The text of the empty object, which stands for a value that was not serialised.\<close>

definition json_empty_object :: "crates \<Rightarrow> bool" where
  "json_empty_object cr \<longleftrightarrow> json_from_slice cr (as_bytes (lit ''{}'')) = Some (JObj [])"

definition read_back :: "crates \<Rightarrow> texts \<Rightarrow> outbound \<Rightarrow> w_outbound option" where
  "read_back cr tx x =
     (if json_to_vec cr (outbound_to_json (render_outbound tx x)) = None then None else Some (render_outbound tx x))"

lemma to_line_parsed:
  assumes "json_inverts cr" "json_line cr" "json_compact cr" "json_empty_object cr" "wire_fits (render_outbound tx x)"
  shows "\<exists>b s. as_bytes (to_line cr (render_outbound tx x)) = b @ [10] \<and> 10 \<notin> set b \<and> from_utf8 (b @ [10]) = Some s
    \<and> parse_outbound cr s = read_back cr tx x"
proof -
  have "\<exists>t. to_line cr (render_outbound tx x) = t @ [10] \<and> list_all scalar t \<and> 10 \<notin> set (as_bytes t)
      \<and> parse_outbound cr (t @ [10]) = read_back cr tx x"
  proof (cases "json_to_vec cr (outbound_to_json (render_outbound tx x))")
    case None
    have "trim (lit ''{}'') = lit ''{}''" by (simp add: trim_def trim_end_by_def is_whitespace_def)
    moreover have "outbound_of_json (JObj []) = None"
      by (simp add: outbound_of_json_def adjacent_as_def req_def)
    ultimately have "parse_outbound cr (lit ''{}'' @ [10]) = None"
      using assms(4) by (simp add: parse_outbound_def trim_newline json_empty_object_def del: lit_simps)
    moreover have "list_all scalar (lit ''{}'')" "10 \<notin> set (as_bytes (lit ''{}''))"
      by (simp_all add: scalar_def as_bytes_def utf8_char_def)
    ultimately show ?thesis using None by (auto simp: to_line_def read_back_def simp del: lit_simps)
  next
    case (Some b)
    obtain t where t: "b = as_bytes t" "list_all scalar t" "trim t = t" "t \<noteq> []"
      using assms(2) Some by (auto simp: json_line_def)
    have "json_from_slice cr (as_bytes t) = Some (outbound_to_json (render_outbound tx x))"
      using assms(1) Some t(1) by (auto simp: json_inverts_def)
    then show ?thesis
      using assms(3,5) Some t
      by (auto simp: to_line_def from_utf8_lossy_as_bytes parse_outbound_def trim_newline outbound_json_roundtrip
          json_compact_def read_back_def)
  qed
  then obtain t where t: "to_line cr (render_outbound tx x) = t @ [10]" "list_all scalar t" "10 \<notin> set (as_bytes t)"
    "parse_outbound cr (t @ [10]) = read_back cr tx x" by blast
  have "from_utf8 (as_bytes (t @ [10])) = Some (t @ [10])"
    using t(2) by (intro from_utf8_as_bytes) (simp add: scalar_def)
  with t show ?thesis
    by (intro exI [of _ "as_bytes t"] exI [of _ "t @ [10]"]) (simp add: as_bytes_append as_bytes_newline)
qed

lemma sent_bytes_Cons:
  assumes "json_inverts cr" "json_line cr" "json_compact cr" "json_empty_object cr" "wire_fits (render_outbound tx x)"
  obtains s where "sent_bytes cr tx (x # os) \<noteq> []"
    "from_utf8 (fst (read_line (sent_bytes cr tx (x # os)))) = Some s"
    "snd (read_line (sent_bytes cr tx (x # os))) = sent_bytes cr tx os"
    "parse_outbound cr s = read_back cr tx x"
proof -
  obtain b s where b: "as_bytes (to_line cr (render_outbound tx x)) = b @ [10]" "10 \<notin> set b"
    "from_utf8 (b @ [10]) = Some s" "parse_outbound cr s = read_back cr tx x"
    using to_line_parsed [OF assms] by blast
  then have "sent_bytes cr tx (x # os) = b @ 10 # sent_bytes cr tx os" by (simp add: sent_bytes_def)
  with b that [of s] show ?thesis by (simp add: read_line_append)
qed

lemma read_sent:
  assumes "json_inverts cr" "json_line cr" "json_compact cr" "json_empty_object cr"
    and "\<forall>x\<in>set os. wire_fits (render_outbound tx x)"
  shows "read_outbounds cr (sent_bytes cr tx os) = map (read_back cr tx) os"
  using assms(5)
proof (induction os)
  case (Cons x os)
  then have "wire_fits (render_outbound tx x)" by simp
  from sent_bytes_Cons [OF assms(1-4) this, of os] obtain s where
    "sent_bytes cr tx (x # os) \<noteq> []" "from_utf8 (fst (read_line (sent_bytes cr tx (x # os)))) = Some s"
    "snd (read_line (sent_bytes cr tx (x # os))) = sent_bytes cr tx os" "parse_outbound cr s = read_back cr tx x" .
  with Cons show ?case by (simp add: read_outbounds.simps [of cr "sent_bytes cr tx (x # os)"])
qed (simp add: sent_bytes_def read_outbounds.simps)

text \<open>C17. Every line the daemon writes is understood: a client that reads the byte stream of a
  connection to its end recovers exactly the replies and events the daemon wrote, in their
  order, whatever texts they carry; a one-shot client gets the first of them; a value that
  could not be serialised costs its own line and no other.\<close>

theorem outbound_stream_roundtrip:
  assumes "json_inverts cr" and "json_line cr" and "json_compact cr" and "json_empty_object cr"
    and "\<forall>x\<in>set os. wire_fits (render_outbound tx x)"
  shows "read_outbounds cr (sent_bytes cr tx os) = map (read_back cr tx) os
    \<and> (\<forall>x xs. os = x # xs \<longrightarrow> first_outbound cr (sent_bytes cr tx os) = read_back cr tx x)"
proof (intro conjI allI impI)
  show "read_outbounds cr (sent_bytes cr tx os) = map (read_back cr tx) os"
    by (rule read_sent [OF assms])
  fix x xs assume os: "os = x # xs"
  with assms(5) have "wire_fits (render_outbound tx x)" by simp
  from sent_bytes_Cons [OF assms(1-4) this, of xs] show "first_outbound cr (sent_bytes cr tx os) = read_back cr tx x"
    unfolding os first_outbound_def by (metis bind.bind_lunit)
qed

definition sample_texts :: texts where
  "sample_texts = \<lparr>tx_agent = (\<lambda>_. lit ''agent''), tx_engine = (\<lambda>_. lit ''engine''),
     tx_reconnect = (\<lambda>_ _. lit ''again''), tx_cliplog = (\<lambda>_. lit ''log'')\<rparr>"

text \<open>A codec for the two values of the example below and for the empty object.\<close>

definition stream_crates :: crates where
  "stream_crates = sample_crates\<lparr>
     json_to_vec := (\<lambda>v. if v = outbound_to_json (WReply WOk) then Some (as_bytes (lit ''ok''))
                         else if v = outbound_to_json (WEvent (WEError (lit ''engine''))) then Some (as_bytes (lit ''err''))
                         else None),
     json_to_vec_pretty := (\<lambda>v. None),
     json_from_slice := (\<lambda>b. if b = as_bytes (lit ''ok'') then Some (outbound_to_json (WReply WOk))
                             else if b = as_bytes (lit ''err'') then Some (outbound_to_json (WEvent (WEError (lit ''engine''))))
                             else if b = as_bytes (lit ''{}'') then Some (JObj []) else None)\<rparr>"

theorem outbound_stream_roundtrip_witness:
  "read_outbounds stream_crates (sent_bytes stream_crates sample_texts [Reply ROk, Push (EError (Inl BadPin)), Reply (RRoster [])])
    = [Some (WReply WOk), Some (WEvent (WEError (lit ''engine''))), None]"
proof -
  have ne: "as_bytes (lit ''ok'') \<noteq> as_bytes (lit ''err'')" "as_bytes (lit ''ok'') \<noteq> as_bytes (lit ''{}'')"
    "as_bytes (lit ''err'') \<noteq> as_bytes (lit ''{}'')"
    by (simp_all add: as_bytes_def utf8_char_def)
  have "json_inverts stream_crates"
    using ne by (auto simp: json_inverts_def stream_crates_def simp del: lit_simps split: if_splits)
  moreover have "json_line stream_crates"
  proof -
    have "list_all scalar (lit ''ok'') \<and> trim (lit ''ok'') = lit ''ok'' \<and> lit ''ok'' \<noteq> []"
      "list_all scalar (lit ''err'') \<and> trim (lit ''err'') = lit ''err'' \<and> lit ''err'' \<noteq> []"
      by (simp_all add: scalar_def trim_def trim_end_by_def is_whitespace_def)
    then show ?thesis
      by (auto simp: json_line_def stream_crates_def simp del: lit_simps split: if_splits)
  qed
  moreover have "json_compact stream_crates"
    by (simp add: json_compact_def stream_crates_def as_bytes_def utf8_char_def split: if_splits)
  moreover have "json_empty_object stream_crates"
    using ne by (simp add: json_empty_object_def stream_crates_def del: lit_simps)
  ultimately show ?thesis
    using outbound_stream_roundtrip [of stream_crates "[Reply ROk, Push (EError (Inl BadPin)), Reply (RRoster [])]" sample_texts]
    by (simp add: read_back_def stream_crates_def sample_texts_def tag_only_def with_content_def tagged_def)
qed

end
