(* ===== verification/Serve.thy ===== *)
theory Serve
  imports Ipc_Wire "HOL-Library.Sublist"
begin

text \<open>
  The daemon's socket server (\<open>agent/src/main.rs\<close>): the accept loop and any number of client
  connections, each a task of its own, over one broadcast bus.

  A connection is the state of \<open>handle_conn\<close>: the bytes that arrived and were not read, the bytes
  the pending \<open>read_line\<close> has taken, its position on the bus, and everything it wrote. The bus is
  the list of all events broadcast so far; it keeps the last 256 of them, and a receiver that
  is further behind is told so and moved to the oldest one kept. Steps of different connections
  and of the engine interleave in any order.

  What a cancelled \<open>read_line\<close> leaves in its buffer belongs to the async runtime and is the
  parameter \<open>kept\<close>; its documentation says that nothing is.
\<close>

subsection \<open>Connections\<close>

definition BUS_CAPACITY :: nat where
  "BUS_CAPACITY = 256"

record sconn =
  sc_conn :: conn
  sc_buf :: bytes
  sc_eof :: bool
  sc_line :: bytes
  sc_pos :: nat
  sc_out :: "outbound list"

definition new_sconn :: sconn where
  "new_sconn = \<lparr>sc_conn = \<lparr>cn_subscribed = False, cn_streaming = False\<rparr>, sc_buf = [], sc_eof = False,
     sc_line = [], sc_pos = 0, sc_out = []\<rparr>"

text \<open>A line was read: a line that is not UTF-8 ends the connection; a fresh subscription starts at
  the end of the bus.\<close>

definition serve_line :: "crates \<Rightarrow> aio \<Rightarrow> bytes \<Rightarrow> sconn \<Rightarrow> agent \<Rightarrow> sconn option \<times> agent" where
  "serve_line cr i l sc a =
     (case from_utf8 l of
        None \<Rightarrow> (None, a)
      | Some s \<Rightarrow>
          (let (cn, a', out, go) = conn_step cr i (ClientLine s) (sc_conn sc) a;
               pos = (if cn_streaming cn \<and> \<not> cn_streaming (sc_conn sc) then length (a_events a') else sc_pos sc)
           in (Some (sc\<lparr>sc_conn := cn, sc_line := [], sc_pos := pos, sc_out := sc_out sc @ out\<rparr>), a')))"

text \<open>The read branch is polled: it takes what is there up to a newline; with no newline it keeps
  waiting with what it took, until the peer has closed.\<close>

definition poll_read :: "crates \<Rightarrow> aio \<Rightarrow> sconn \<Rightarrow> agent \<Rightarrow> sconn option \<times> agent" where
  "poll_read cr i sc a =
     (if 10 \<in> set (sc_buf sc) then
        (let (l, r) = read_line (sc_buf sc)
         in serve_line cr i (sc_line sc @ l) (sc\<lparr>sc_buf := r\<rparr>) a)
      else
        (let taken = sc_line sc @ sc_buf sc in
         if \<not> sc_eof sc then (Some (sc\<lparr>sc_line := taken, sc_buf := []\<rparr>), a)
         else if taken = [] then (None, a)
         else serve_line cr i taken (sc\<lparr>sc_buf := []\<rparr>) a))"

text \<open>The bus branch completes: the pending read is dropped with what it had taken.\<close>

definition poll_bus :: "crates \<Rightarrow> (bytes \<Rightarrow> bytes) \<Rightarrow> aio \<Rightarrow> sconn \<Rightarrow> agent \<Rightarrow> sconn" where
  "poll_bus cr kept i sc a =
     (let n = length (a_events a); p = sc_pos sc in
      if \<not> cn_streaming (sc_conn sc) \<or> n \<le> p then sc
      else
        (let lagged = BUS_CAPACITY < n - p;
             (cn, _, out, go) = conn_step cr i (if lagged then BusLagged else BusEvent (a_events a ! p)) (sc_conn sc) a
         in sc\<lparr>sc_conn := cn, sc_line := kept (sc_line sc), sc_pos := (if lagged then n - BUS_CAPACITY else Suc p),
               sc_out := sc_out sc @ out\<rparr>))"

subsection \<open>The server\<close>

record server =
  sv_agent :: agent
  sv_conns :: "nat \<Rightarrow> sconn option"

text \<open>Steps: a client connects or the accept fails, bytes of a client arrive, a client closes its
  side, a connection is lost, one of the two branches of a connection is polled, the engine or
  its supervisor does something.\<close>

datatype serve_event =
    SvAccept nat
  | SvAcceptFailed
  | SvArrive nat bytes
  | SvClose nat
  | SvLost nat
  | SvRead nat
  | SvBus nat
  | SvEngine agent_event

definition put_conn :: "nat \<Rightarrow> sconn option \<times> agent \<Rightarrow> server \<Rightarrow> server" where
  "put_conn c x s = s\<lparr>sv_conns := (sv_conns s)(c := fst x), sv_agent := snd x\<rparr>"

fun serve_step :: "crates \<Rightarrow> (bytes \<Rightarrow> bytes) \<Rightarrow> serve_event \<times> aio \<Rightarrow> server \<Rightarrow> server" where
  "serve_step cr kept (SvAccept c, i) s =
     (case sv_conns s c of None \<Rightarrow> put_conn c (Some new_sconn, sv_agent s) s | Some _ \<Rightarrow> s)"
| "serve_step cr kept (SvAcceptFailed, i) s = s"
| "serve_step cr kept (SvArrive c b, i) s =
     (case sv_conns s c of None \<Rightarrow> s | Some sc \<Rightarrow> put_conn c (Some (sc\<lparr>sc_buf := sc_buf sc @ b\<rparr>), sv_agent s) s)"
| "serve_step cr kept (SvClose c, i) s =
     (case sv_conns s c of None \<Rightarrow> s | Some sc \<Rightarrow> put_conn c (Some (sc\<lparr>sc_eof := True\<rparr>), sv_agent s) s)"
| "serve_step cr kept (SvLost c, i) s = put_conn c (None, sv_agent s) s"
| "serve_step cr kept (SvRead c, i) s =
     (case sv_conns s c of None \<Rightarrow> s | Some sc \<Rightarrow> put_conn c (poll_read cr i sc (sv_agent s)) s)"
| "serve_step cr kept (SvBus c, i) s =
     (case sv_conns s c of None \<Rightarrow> s
      | Some sc \<Rightarrow> put_conn c (Some (poll_bus cr kept i sc (sv_agent s)), sv_agent s) s)"
| "serve_step cr kept (SvEngine e, i) s = s\<lparr>sv_agent := agent_step cr (e, i) (sv_agent s)\<rparr>"

text \<open>The connection a step is about.\<close>

fun about :: "serve_event \<Rightarrow> nat option" where
  "about (SvAccept c) = Some c"
| "about SvAcceptFailed = None"
| "about (SvArrive c b) = Some c"
| "about (SvClose c) = Some c"
| "about (SvLost c) = Some c"
| "about (SvRead c) = Some c"
| "about (SvBus c) = Some c"
| "about (SvEngine e) = None"

subsection \<open>Steps of other connections\<close>

lemma put_conn_simps [simp]:
  "sv_conns (put_conn c x s) d = (if d = c then fst x else sv_conns s d)" "sv_agent (put_conn c x s) = snd x"
  by (simp_all add: put_conn_def)

text \<open>Connections are isolated: a step about another connection, or of the engine, leaves a
  connection as it was.\<close>

lemma step_isolated:
  assumes "about e \<noteq> Some c"
  shows "sv_conns (serve_step cr kept (e, i) s) c = sv_conns s c"
  using assms by (cases e) (auto split: option.split)

lemma process_events: "\<exists>new. a_events (fst (process_line cr i l sub a)) = a_events a @ new"
  using follows_request [of a cr i]
  by (auto simp: process_line_def follows_def case_prod_beta Let_def split: option.split)

lemma serve_line_events: "\<exists>new. a_events (snd (serve_line cr i l sc a)) = a_events a @ new"
  using process_events [of cr i _ "cn_subscribed (sc_conn sc)" a]
  by (auto simp: serve_line_def case_prod_beta Let_def split: option.split)

lemma poll_read_events: "\<exists>new. a_events (snd (poll_read cr i sc a)) = a_events a @ new"
  using serve_line_events [of cr i] by (simp add: poll_read_def case_prod_beta Let_def)

text \<open>The bus only grows.\<close>

lemma bus_grows_step: "\<exists>new. a_events (sv_agent (serve_step cr kept ei s)) = a_events (sv_agent s) @ new"
proof (cases ei)
  case (Pair e i)
  show ?thesis
  proof (cases e)
    case (SvEngine x)
    then show ?thesis using Pair follows_step [of "sv_agent s" cr "(x, i)"] by (auto simp: follows_def)
  qed (use Pair poll_read_events in \<open>auto split: option.split\<close>)
qed

lemma bus_grows: "\<exists>new. a_events (sv_agent (fold (serve_step cr kept) es s)) = a_events (sv_agent s) @ new"
proof (induction es arbitrary: s)
  case (Cons e es)
  from Cons [of "serve_step cr kept e s"] bus_grows_step [of cr kept e s] show ?case by auto
qed simp

subsection \<open>What a subscriber receives\<close>

definition pushes :: "outbound list \<Rightarrow> event list" where
  "pushes os = concat (map (\<lambda>x. case x of Push e \<Rightarrow> [e] | Reply _ \<Rightarrow> []) os)"

lemma pushes_simps [simp]:
  "pushes [] = []" "pushes (a @ b) = pushes a @ pushes b" "pushes [Push e] = [e]" "pushes [Reply r] = []"
  by (simp_all add: pushes_def)

lemma process_line_replies: "pushes (snd (snd (process_line cr i l sub a))) = []"
  by (simp add: process_line_def case_prod_beta Let_def split: option.split)

text \<open>A connection that streams has pushed, besides \<open>got\<close>, the events of the bus from \<open>p\<close> to its
  position.\<close>

definition reads_bus :: "nat \<Rightarrow> event list \<Rightarrow> sconn \<Rightarrow> event list \<Rightarrow> bool" where
  "reads_bus p got sc evs \<longleftrightarrow> cn_streaming (sc_conn sc) \<and> p \<le> sc_pos sc \<and> sc_pos sc \<le> length evs
     \<and> pushes (sc_out sc) = got @ take (sc_pos sc - p) (drop p evs)"

lemma reads_bus_grow: "reads_bus p got sc evs \<Longrightarrow> reads_bus p got sc (evs @ new)"
  by (auto simp: reads_bus_def)

lemma reads_bus_frame:
  "reads_bus p got (sc\<lparr>sc_buf := b\<rparr>) evs = reads_bus p got sc evs"
  "reads_bus p got (sc\<lparr>sc_eof := x\<rparr>) evs = reads_bus p got sc evs"
  "reads_bus p got (sc\<lparr>sc_line := l\<rparr>) evs = reads_bus p got sc evs"
  by (simp_all add: reads_bus_def)

lemma serve_line_reads_bus:
  assumes "reads_bus p got sc evs" and "fst (serve_line cr i l sc a) = Some sc'"
  shows "reads_bus p got sc' evs"
  using assms process_line_replies [of cr i]
  by (auto simp: serve_line_def reads_bus_def case_prod_beta Let_def split: option.splits)

lemma poll_read_reads_bus:
  assumes "reads_bus p got sc evs" and "fst (poll_read cr i sc a) = Some sc'"
  shows "reads_bus p got sc' evs"
  using assms
  by (auto simp: poll_read_def case_prod_beta Let_def reads_bus_frame split: if_splits
      elim!: serve_line_reads_bus [rotated])

lemma poll_bus_reads_bus:
  assumes "reads_bus p got sc (a_events a)" and "length (a_events a) - sc_pos sc \<le> BUS_CAPACITY"
  shows "reads_bus p got (poll_bus cr kept i sc a) (a_events a)"
    "sc_pos (poll_bus cr kept i sc a) = min (Suc (sc_pos sc)) (length (a_events a))"
proof -
  have "take (Suc (sc_pos sc) - p) (drop p (a_events a)) = take (sc_pos sc - p) (drop p (a_events a)) @ [a_events a ! sc_pos sc]"
    if "sc_pos sc < length (a_events a)" "p \<le> sc_pos sc"
    using that take_Suc_conv_app_nth [of "sc_pos sc - p" "drop p (a_events a)"] by (simp add: Suc_diff_le)
  with assms show "reads_bus p got (poll_bus cr kept i sc a) (a_events a)"
    "sc_pos (poll_bus cr kept i sc a) = min (Suc (sc_pos sc)) (length (a_events a))"
    by (auto simp: poll_bus_def reads_bus_def Let_def)
qed

text \<open>A run in which a connection stays open and is never too far behind when it receives.\<close>

definition backlog :: "nat \<Rightarrow> server \<Rightarrow> nat" where
  "backlog c s = (case sv_conns s c of Some sc \<Rightarrow> length (a_events (sv_agent s)) - sc_pos sc | None \<Rightarrow> 0)"

fun keeps_up :: "crates \<Rightarrow> (bytes \<Rightarrow> bytes) \<Rightarrow> nat \<Rightarrow> (serve_event \<times> aio) list \<Rightarrow> server \<Rightarrow> bool" where
  "keeps_up cr kept c [] s \<longleftrightarrow> sv_conns s c \<noteq> None"
| "keeps_up cr kept c (e # es) s \<longleftrightarrow> sv_conns s c \<noteq> None \<and> (fst e = SvBus c \<longrightarrow> backlog c s \<le> BUS_CAPACITY)
     \<and> keeps_up cr kept c es (serve_step cr kept e s)"

lemma step_reads_bus:
  assumes "sv_conns s c = Some sc" and "reads_bus p got sc (a_events (sv_agent s))"
    and "e = SvBus c \<Longrightarrow> backlog c s \<le> BUS_CAPACITY"
    and "sv_conns (serve_step cr kept (e, i) s) c = Some sc'"
  shows "reads_bus p got sc' (a_events (sv_agent (serve_step cr kept (e, i) s)))"
proof -
  obtain new where new: "a_events (sv_agent (serve_step cr kept (e, i) s)) = a_events (sv_agent s) @ new"
    using bus_grows_step by blast
  have "reads_bus p got sc' (a_events (sv_agent s))"
  proof (cases "about e = Some c")
    case True
    with assms show ?thesis
      by (cases e) (auto simp: reads_bus_frame backlog_def intro: poll_read_reads_bus poll_bus_reads_bus(1))
  next
    case False
    with assms step_isolated [of e c cr kept i s] show ?thesis by simp
  qed
  with new show ?thesis by (simp add: reads_bus_grow)
qed

lemma run_reads_bus:
  assumes "sv_conns s c = Some sc" and "reads_bus p got sc (a_events (sv_agent s))" and "keeps_up cr kept c es s"
  shows "\<exists>sc'. sv_conns (fold (serve_step cr kept) es s) c = Some sc'
    \<and> reads_bus p got sc' (a_events (sv_agent (fold (serve_step cr kept) es s)))"
  using assms
proof (induction es arbitrary: s sc)
  case (Cons e es)
  obtain ev i where e: "e = (ev, i)" by fastforce
  have "sv_conns (serve_step cr kept e s) c \<noteq> None" using Cons.prems(3) by (cases es) simp_all
  then obtain sc1 where sc1: "sv_conns (serve_step cr kept e s) c = Some sc1" by auto
  have "reads_bus p got sc1 (a_events (sv_agent (serve_step cr kept e s)))"
    using step_reads_bus [OF Cons.prems(1,2), of ev cr kept i sc1] Cons.prems(3) sc1 e by simp
  from Cons.IH [OF sc1 this] Cons.prems(3) show ?case by simp
qed auto

text \<open>Polling the bus branch as often as events are outstanding catches up.\<close>

lemma drain_bus:
  assumes "sv_conns s c = Some sc" and "reads_bus p got sc (a_events (sv_agent s))"
    and "backlog c s \<le> BUS_CAPACITY" and "k = backlog c s"
  shows "\<exists>sc'. sv_conns (fold (serve_step cr kept) (replicate k (SvBus c, i)) s) c = Some sc'
    \<and> sc_pos sc' = length (a_events (sv_agent s)) \<and> reads_bus p got sc' (a_events (sv_agent s))
    \<and> sv_agent (fold (serve_step cr kept) (replicate k (SvBus c, i)) s) = sv_agent s"
  using assms
proof (induction k arbitrary: s sc)
  case 0
  then show ?case by (auto simp: backlog_def reads_bus_def)
next
  case (Suc k)
  define sc1 where "sc1 = poll_bus cr kept i sc (sv_agent s)"
  define s1 where "s1 = serve_step cr kept (SvBus c, i) s"
  have s1: "sv_conns s1 c = Some sc1" "sv_agent s1 = sv_agent s"
    using Suc.prems(1) by (simp_all add: s1_def sc1_def)
  have le: "length (a_events (sv_agent s)) - sc_pos sc \<le> BUS_CAPACITY" and
    b: "Suc k = length (a_events (sv_agent s)) - sc_pos sc"
    using Suc.prems by (simp_all add: backlog_def)
  note poll = poll_bus_reads_bus [OF Suc.prems(2) le, of cr kept i]
  have "k = backlog c s1" "backlog c s1 \<le> BUS_CAPACITY"
    using poll(2) b le s1 by (simp_all add: backlog_def sc1_def)
  with Suc.IH [of s1 sc1] s1 poll(1) show ?case
    by (simp add: s1_def [symmetric] sc1_def [symmetric] del: serve_step.simps)
qed

lemma fresh_subscription:
  assumes "sv_conns s c = Some sc" and "\<not> cn_streaming (sc_conn sc)"
    and "sv_conns (serve_step cr kept (SvRead c, i) s) c = Some sc'" and "cn_streaming (sc_conn sc')"
  shows "sc_pos sc' = length (a_events (sv_agent (serve_step cr kept (SvRead c, i) s)))"
proof -
  have line: "sc_pos r = length (a_events a')"
    if "serve_line cr i l (sc\<lparr>sc_buf := b\<rparr>) a = (Some r, a')" "cn_streaming (sc_conn r)" for l b a r a'
    using that assms(2) by (auto simp: serve_line_def Let_def case_prod_beta split: option.splits if_splits)
  obtain r a' where r: "poll_read cr i sc (sv_agent s) = (r, a')" by fastforce
  then have "r = Some sc'" using assms(1,3) by simp
  then have "sc_pos sc' = length (a_events a')"
    using r assms(2,4) line by (auto simp: poll_read_def Let_def case_prod_beta split: if_splits)
  then show ?thesis using assms(1) r by simp
qed

text \<open>C16. A subscriber gets every event once and in order: after the read that subscribed a connection,
  whatever the other clients, the engine and the subscriber's own requests do, the events
  pushed on it are a prefix of the events broadcast since then, and when the connection has been
  polled once for each outstanding event they are exactly those, provided the connection
  stays open and is never more than 256 events behind.\<close>

theorem subscriber_gets_every_event:
  assumes "sv_conns s0 c = Some sc0" and "\<not> cn_streaming (sc_conn sc0)" and "s = serve_step cr kept (SvRead c, j) s0"
    and "sv_conns s c = Some sc" and "cn_streaming (sc_conn sc)"
    and "keeps_up cr kept c es s" and "s' = fold (serve_step cr kept) es s"
    and "backlog c s' \<le> BUS_CAPACITY"
    and "s'' = fold (serve_step cr kept) (replicate (backlog c s') (SvBus c, i)) s'"
  shows "\<exists>sc' sc'' since. sv_conns s' c = Some sc' \<and> sv_conns s'' c = Some sc''
    \<and> a_events (sv_agent s') = a_events (sv_agent s) @ since
    \<and> prefix (pushes (sc_out sc')) (pushes (sc_out sc) @ since)
    \<and> pushes (sc_out sc'') = pushes (sc_out sc) @ since"
proof -
  let ?p = "length (a_events (sv_agent s))" and ?got = "pushes (sc_out sc)"
  have "sc_pos sc = ?p"
    using fresh_subscription [OF assms(1,2)] assms(4,5) unfolding assms(3) by blast
  then have "reads_bus ?p ?got sc (a_events (sv_agent s))"
    using assms(5) by (simp add: reads_bus_def)
  from run_reads_bus [OF assms(4) this assms(6)] obtain sc' where
    sc': "sv_conns s' c = Some sc'" "reads_bus ?p ?got sc' (a_events (sv_agent s'))"
    unfolding assms(7) by blast
  obtain since where since: "a_events (sv_agent s') = a_events (sv_agent s) @ since"
    using bus_grows [of cr kept es s] unfolding assms(7) by blast
  from drain_bus [OF sc' assms(8) refl, of cr kept i] obtain sc'' where
    sc'': "sv_conns s'' c = Some sc''" "sc_pos sc'' = length (a_events (sv_agent s'))"
      "reads_bus ?p ?got sc'' (a_events (sv_agent s'))"
    unfolding assms(9) by blast
  have "prefix (pushes (sc_out sc')) (?got @ since)"
    using sc'(2) since by (auto simp: reads_bus_def take_is_prefix)
  moreover have "pushes (sc_out sc'') = ?got @ since"
    using sc''(2,3) since by (simp add: reads_bus_def)
  ultimately show ?thesis using sc'(1) sc''(1) since by blast
qed

text \<open>A codec under which the line \<open>{}\<close> is the subscription.\<close>

definition subscribing_crates :: crates where
  "subscribing_crates = sample_crates\<lparr>json_from_slice := (\<lambda>b. if b = [123, 125] then Some (request_to_json Subscribe) else None)\<rparr>"

theorem subscriber_gets_every_event_witness:
  "\<exists>sc''. sv_conns (fold (serve_step subscribing_crates (\<lambda>_. []))
       [(SvRead 0, sample_aio), (SvAccept 1, sample_aio), (SvEngine (ACallback (URoster [])), sample_aio),
        (SvEngine (ACallback (UError BadPin)), sample_aio), (SvBus 0, sample_aio), (SvBus 0, sample_aio)]
       \<lparr>sv_agent = sample_agent, sv_conns = [0 \<mapsto> new_sconn\<lparr>sc_buf := [123, 125, 10]\<rparr>]\<rparr>) 0
      = Some sc''
    \<and> pushes (sc_out sc'') = [EStatus (status_snapshot sample_agent), ERoster [], EError (Inl BadPin)]"
proof -
  let ?cr = subscribing_crates and ?fresh = "new_sconn\<lparr>sc_buf := [123, 125, 10]\<rparr>"
  let ?init = "\<lparr>sv_agent = sample_agent, sv_conns = [0 \<mapsto> ?fresh]\<rparr>"
  let ?sc = "new_sconn\<lparr>sc_conn := \<lparr>cn_subscribed = True, cn_streaming = True\<rparr>,
    sc_out := [Reply ROk, Push (EStatus (status_snapshot sample_agent))]\<rparr>"
  let ?s = "\<lparr>sv_agent = sample_agent, sv_conns = [0 \<mapsto> ?sc]\<rparr>"
  let ?es = "[(SvAccept 1, sample_aio), (SvEngine (ACallback (URoster [])), sample_aio), (SvEngine (ACallback (UError BadPin)), sample_aio)]"
  have ev: "a_events sample_agent = []" by (simp add: sample_agent_def)
  have utf: "from_utf8 [123, 125, 10] = Some [123, 125, 10]"
    by (simp add: from_utf8_def from_utf8_lossy_def as_bytes_def utf8_char_def)
  have trim: "trim [123, 125, 10] = [123, 125]" by (simp add: trim_def trim_end_by_def is_whitespace_def)
  have "request_of_json (request_to_json Subscribe) = Some Subscribe" by (rule request_json_roundtrip)
  then have proc: "process_line ?cr sample_aio [123, 125, 10] False sample_agent = (sample_agent, True, [Reply ROk])"
    by (simp add: process_line_def trim subscribing_crates_def as_bytes_def utf8_char_def del: request_to_json.simps)
  have read: "serve_step ?cr (\<lambda>_. []) (SvRead 0, sample_aio) ?init = ?s"
    by (simp add: poll_read_def read_line_def serve_line_def utf proc new_sconn_def put_conn_def ev)
  have up: "keeps_up ?cr (\<lambda>_. []) 0 ?es ?s" by (simp add: new_sconn_def)
  have since: "a_events (sv_agent (fold (serve_step ?cr (\<lambda>_. [])) ?es ?s)) = [ERoster [], EError (Inl BadPin)]"
    by (simp add: broadcast_def tlog_def ev roster_to_ipc_def)
  have two: "backlog 0 (fold (serve_step ?cr (\<lambda>_. [])) ?es ?s) = 2"
    by (simp add: backlog_def new_sconn_def broadcast_def tlog_def ev)
  have start: "sv_conns ?init 0 = Some ?fresh" "\<not> cn_streaming (sc_conn ?fresh)" "sv_conns ?s 0 = Some ?sc" "cn_streaming (sc_conn ?sc)"
    "pushes (sc_out ?sc) = [EStatus (status_snapshot sample_agent)]" "a_events (sv_agent ?s) = []"
    by (simp_all add: new_sconn_def pushes_def ev)
  have room: "backlog 0 (fold (serve_step ?cr (\<lambda>_. [])) ?es ?s) \<le> BUS_CAPACITY" unfolding two by (simp add: BUS_CAPACITY_def)
  from subscriber_gets_every_event [OF start(1,2) read [symmetric] start(3,4) up refl room refl, of sample_aio]
  obtain sc'' where "sv_conns (fold (serve_step ?cr (\<lambda>_. [])) (replicate 2 (SvBus 0, sample_aio)) (fold (serve_step ?cr (\<lambda>_. [])) ?es ?s)) 0 = Some sc''"
    "pushes (sc_out sc'') = [EStatus (status_snapshot sample_agent)] @ [ERoster [], EError (Inl BadPin)]"
    unfolding two since start(5,6) by auto
  then show ?thesis by (simp only: fold.simps o_apply id_apply read replicate.simps numeral_2_eq_2 append.simps) blast
qed

subsection \<open>Requests in pieces\<close>

text \<open>The bytes a client sent during a run.\<close>

fun arrived :: "nat \<Rightarrow> (serve_event \<times> aio) list \<Rightarrow> bytes" where
  "arrived c [] = []"
| "arrived c ((SvArrive d b, i) # es) = (if d = c then b @ arrived c es else arrived c es)"
| "arrived c (_ # es) = arrived c es"

lemma serve_line_held: "serve_line cr j l (sc\<lparr>sc_line := x\<rparr>) a = serve_line cr j l sc a"
  by (cases "from_utf8 l") (simp_all add: serve_line_def case_prod_beta Let_def del: conn_step.simps)

lemma sc_buf_empty: "sc_buf sc = [] \<Longrightarrow> sc\<lparr>sc_buf := []\<rparr> = sc"
  by (cases sc) simp

text \<open>A connection waiting for a line: it holds some bytes without a newline.\<close>

definition waits :: "sconn \<Rightarrow> bytes \<Rightarrow> sconn \<Rightarrow> bool" where
  "waits sc l sc' \<longleftrightarrow> (\<exists>x y. sc' = sc\<lparr>sc_line := x, sc_buf := y\<rparr> \<and> x @ y = l)"

lemma waiting_run:
  assumes "sv_conns s c = Some sc'" and "waits sc l sc'" and "\<not> cn_streaming (sc_conn sc)" and "\<not> sc_eof sc"
    and "\<forall>(e, i)\<in>set es. e \<noteq> SvLost c \<and> e \<noteq> SvClose c" and "10 \<notin> set (l @ arrived c es)"
  shows "\<exists>sc''. sv_conns (fold (serve_step cr kept) es s) c = Some sc'' \<and> waits sc (l @ arrived c es) sc''"
  using assms
proof (induction es arbitrary: s sc' l)
  case (Cons ei es)
  obtain e i where ei: "ei = (e, i)" by fastforce
  obtain x y where xy: "sc' = sc\<lparr>sc_line := x, sc_buf := y\<rparr>" "x @ y = l" using Cons.prems(2) by (auto simp: waits_def)
  have nl: "10 \<notin> set x" "10 \<notin> set y" using Cons.prems(6) xy(2) by auto
  have "\<exists>sc1. sv_conns (serve_step cr kept ei s) c = Some sc1 \<and> waits sc (l @ arrived c [ei]) sc1"
  proof (cases "about e = Some c")
    case True
    then show ?thesis
      using Cons.prems(1,3-5) xy nl unfolding ei waits_def
      by (cases e) (auto simp: poll_read_def poll_bus_def Let_def intro: exI [of _ x])
  next
    case False
    then have "arrived c [ei] = []" unfolding ei by (cases e) auto
    with False Cons.prems(1,2) show ?thesis by (simp add: ei step_isolated)
  qed
  then obtain sc1 where sc1: "sv_conns (serve_step cr kept ei s) c = Some sc1" "waits sc (l @ arrived c [ei]) sc1"
    by blast
  have split: "arrived c (ei # es) = arrived c [ei] @ arrived c es" unfolding ei by (cases e) auto
  from Cons.IH [OF sc1 Cons.prems(3,4)] Cons.prems(5,6) show ?case by (simp add: split)
qed (auto simp: waits_def)

text \<open>A request may arrive in any pieces: on a connection that is not subscribed, however the
  bytes of a line are cut up, whenever the daemon polls for them and whatever other clients and
  the engine do in between, the line that is served once its newline is there is the whole line.\<close>

theorem request_reassembled:
  assumes "sv_conns s c = Some sc" and "\<not> cn_streaming (sc_conn sc)" and "\<not> sc_eof sc"
    and "sc_line sc = []" and "sc_buf sc = []"
    and "\<forall>(e, i)\<in>set es. e \<noteq> SvLost c \<and> e \<noteq> SvClose c" and "10 \<notin> set (arrived c es)"
    and "s' = fold (serve_step cr kept) es s"
  shows "fold (serve_step cr kept) [(SvArrive c [10], i), (SvRead c, j)] s'
    = put_conn c (serve_line cr j (arrived c es @ [10]) sc (sv_agent s')) s'"
proof -
  have "waits sc [] sc" unfolding waits_def using assms(4,5) by (intro exI [of _ "[]"]) simp
  from waiting_run [OF assms(1) this assms(2,3,6), of cr kept] assms(7,8) obtain x y where
    c: "sv_conns s' c = Some (sc\<lparr>sc_line := x, sc_buf := y\<rparr>)" and xy: "x @ y = arrived c es"
    by (auto simp: waits_def)
  have y: "10 \<notin> set y" using assms(7) xy by (metis Un_iff set_append)
  have "sc\<lparr>sc_line := x, sc_buf := []\<rparr> = sc\<lparr>sc_line := x\<rparr>" using assms(5) by (cases sc) simp
  then have "serve_line cr j l (sc\<lparr>sc_line := x, sc_buf := []\<rparr>) a = serve_line cr j l sc a" for l a
    by (simp only: serve_line_held)
  moreover have "arrived c es @ [10] = x @ y @ [10]" using xy by simp
  ultimately show ?thesis
    using c read_line_append [OF y, of "[]"] by (simp add: poll_read_def put_conn_def)
qed

theorem request_reassembled_witness:
  "fold (serve_step sample_crates (\<lambda>_. []))
     [(SvArrive 0 [123], sample_aio), (SvRead 0, sample_aio), (SvEngine (ACallback (URoster [])), sample_aio),
      (SvArrive 0 [125], sample_aio), (SvArrive 0 [10], sample_aio), (SvRead 0, sample_aio)]
     \<lparr>sv_agent = sample_agent, sv_conns = [0 \<mapsto> new_sconn]\<rparr>
   = put_conn 0 (serve_line sample_crates sample_aio [123, 125, 10] new_sconn (broadcast (ERoster []) (sample_agent\<lparr>a_roster := []\<rparr>)))
       (fold (serve_step sample_crates (\<lambda>_. []))
         [(SvArrive 0 [123], sample_aio), (SvRead 0, sample_aio), (SvEngine (ACallback (URoster [])), sample_aio),
          (SvArrive 0 [125], sample_aio)]
         \<lparr>sv_agent = sample_agent, sv_conns = [0 \<mapsto> new_sconn]\<rparr>)"
proof -
  let ?s = "\<lparr>sv_agent = sample_agent, sv_conns = [0 \<mapsto> new_sconn]\<rparr>"
  let ?es = "[(SvArrive 0 [123], sample_aio), (SvRead 0, sample_aio), (SvEngine (ACallback (URoster [])), sample_aio),
    (SvArrive 0 [125], sample_aio)]"
  have "sv_conns ?s 0 = Some new_sconn" "\<not> cn_streaming (sc_conn new_sconn)" "\<not> sc_eof new_sconn"
    "sc_line new_sconn = []" "sc_buf new_sconn = []"
    by (simp_all add: new_sconn_def)
  moreover have "sv_agent (fold (serve_step sample_crates (\<lambda>_. [])) ?es ?s) = broadcast (ERoster []) (sample_agent\<lparr>a_roster := []\<rparr>)"
    by (simp add: poll_read_def new_sconn_def roster_to_ipc_def)
  moreover have "arrived 0 ?es = [123, 125]" by simp
  ultimately show ?thesis
    using request_reassembled [of ?s 0 new_sconn ?es _ sample_crates "\<lambda>_. []", OF _ _ _ _ _ _ _ refl, of sample_aio sample_aio]
    by (simp del: serve_step.simps)
qed

text \<open>C28. On a subscribed connection this fails: when an event is pushed between two pieces of a
  line, the piece that was already read is gone, because the pending read is dropped with it,
  and what is served as a request is the rest of the line alone.\<close>

theorem split_request_lost:
  assumes "sv_conns s c = Some sc" and "cn_streaming (sc_conn sc)" and "\<not> sc_eof sc"
    and "sc_line sc = []" and "sc_buf sc = []" and "sc_pos sc < length (a_events (sv_agent s))"
    and "10 \<notin> set x" and "10 \<notin> set y" and "\<forall>l. kept l = []"
    and "s' = fold (serve_step cr kept)
      [(SvArrive c x, i), (SvRead c, i), (SvBus c, i), (SvArrive c (y @ [10]), i), (SvRead c, i)] s"
  shows "s' = put_conn c (serve_line cr i (y @ [10]) (poll_bus cr kept i sc (sv_agent s)) (sv_agent s)) s"
proof -
  let ?a = "sv_agent s"
  have frame: "poll_bus cr kept i (sc\<lparr>sc_line := l\<rparr>) ?a = poll_bus cr kept i sc ?a" for l
    using assms(2,6,9) by (simp add: poll_bus_def Let_def)
  have held: "sc_line (poll_bus cr kept i sc ?a) = []" "sc_buf (poll_bus cr kept i sc ?a) = []"
    using assms(2,5,6,9) by (simp_all add: poll_bus_def Let_def)
  have "poll_read cr i (sc\<lparr>sc_buf := x\<rparr>) ?a = (Some (sc\<lparr>sc_line := x\<rparr>), ?a)"
    using assms(3,4,5,7) by (cases sc) (simp add: poll_read_def)
  moreover have "poll_read cr i ((poll_bus cr kept i sc ?a)\<lparr>sc_buf := y @ [10]\<rparr>) ?a
      = serve_line cr i (y @ [10]) (poll_bus cr kept i sc ?a) ?a"
    using read_line_append [OF assms(8), of "[]"] held
    by (simp add: poll_read_def sc_buf_empty)
  ultimately show ?thesis
    unfolding assms(10) using assms(1,5) held(2) by (simp add: frame put_conn_def)
qed

text \<open>A codec under which the whole line \<open>{}\<close> is the status request.\<close>

definition braces_crates :: crates where
  "braces_crates = sample_crates\<lparr>json_from_slice := (\<lambda>b. if b = [123, 125] then Some (request_to_json GetStatus) else None)\<rparr>"

theorem split_request_lost_witness:
  "\<exists>sc'. sv_conns (fold (serve_step braces_crates (\<lambda>_. []))
       [(SvArrive 0 [123], sample_aio), (SvRead 0, sample_aio), (SvBus 0, sample_aio), (SvArrive 0 [125, 10], sample_aio),
        (SvRead 0, sample_aio)]
       \<lparr>sv_agent = sample_agent\<lparr>a_events := [ERoster []]\<rparr>,
        sv_conns = [0 \<mapsto> new_sconn\<lparr>sc_conn := \<lparr>cn_subscribed = True, cn_streaming = True\<rparr>\<rparr>]\<rparr>) 0 = Some sc'
    \<and> sc_out sc' = [Push (ERoster []), Reply (RError BadRequest)]"
proof -
  let ?sc = "new_sconn\<lparr>sc_conn := \<lparr>cn_subscribed = True, cn_streaming = True\<rparr>\<rparr>"
  let ?a = "sample_agent\<lparr>a_events := [ERoster []]\<rparr>"
  let ?s = "\<lparr>sv_agent = ?a, sv_conns = [0 \<mapsto> ?sc]\<rparr>"
  have utf: "from_utf8 [125, 10] = Some [125, 10]"
    by (simp add: from_utf8_def from_utf8_lossy_def as_bytes_def utf8_char_def)
  have trim: "trim [125, 10] = [125]" by (simp add: trim_def trim_end_by_def is_whitespace_def)
  have bus: "poll_bus braces_crates (\<lambda>_. []) sample_aio ?sc ?a = ?sc\<lparr>sc_pos := 1, sc_out := [Push (ERoster [])]\<rparr>"
    by (simp add: poll_bus_def new_sconn_def BUS_CAPACITY_def)
  have "fst (serve_line braces_crates sample_aio [125, 10] (?sc\<lparr>sc_pos := 1, sc_out := [Push (ERoster [])]\<rparr>) ?a)
      = Some (?sc\<lparr>sc_pos := 1, sc_out := [Push (ERoster []), Reply (RError BadRequest)]\<rparr>)"
    by (simp add: serve_line_def utf process_line_def trim braces_crates_def as_bytes_def utf8_char_def new_sconn_def)
  then show ?thesis
    using split_request_lost [of ?s 0 ?sc "[123]" "[125]" "\<lambda>_. []" _ braces_crates sample_aio, OF _ _ _ _ _ _ _ _ _ refl] bus
    by (simp add: new_sconn_def del: serve_step.simps fold.simps)
qed

subsection \<open>The whole daemon process\<close>

text \<open>\<open>run_serve\<close>: the start is logged, the engine is built, which fails with the history database, and
  the socket is bound, which fails when another agent has it; then the server runs.\<close>

datatype serve_error = BuildFailed | BindFailed

definition run_serve :: "crates \<Rightarrow> rstr \<Rightarrow> platform_dirs \<Rightarrow> history option \<Rightarrow> files \<Rightarrow> bool \<Rightarrow> serve_error + server" where
  "run_serve cr stamp d hist fs bound =
     (let buf = tlog_push \<lparr>tl_level = lit ''info'', tl_ts = stamp, tl_msg = TServeStarting\<rparr> [] in
      case build_engine cr stamp d hist fs buf of
        None \<Rightarrow> Inl BuildFailed
      | Some a \<Rightarrow> if bound then Inr \<lparr>sv_agent = a, sv_conns = (\<lambda>_. None)\<rparr> else Inl BindFailed)"

text \<open>A connection is never ahead of the bus, streams only when its client subscribed, and holds at
  most one unfinished line.\<close>

definition conn_ok :: "nat \<Rightarrow> sconn \<Rightarrow> bool" where
  "conn_ok n sc \<longleftrightarrow> sc_pos sc \<le> n \<and> (cn_streaming (sc_conn sc) \<longrightarrow> cn_subscribed (sc_conn sc)) \<and> 10 \<notin> set (sc_line sc)"

definition server_inv :: "server \<Rightarrow> bool" where
  "server_inv s \<longleftrightarrow> agent_inv (sv_agent s)
     \<and> (\<forall>c sc. sv_conns s c = Some sc \<longrightarrow> conn_ok (length (a_events (sv_agent s))) sc)"

lemma conn_ok_mono: "conn_ok n sc \<Longrightarrow> n \<le> m \<Longrightarrow> conn_ok m sc"
  by (simp add: conn_ok_def)

lemma serve_line_inv:
  assumes "agent_inv a" and "conn_ok (length (a_events a)) sc" and "serve_line cr i l sc a = (r, a')"
  shows "agent_inv a' \<and> pred_option (conn_ok (length (a_events a'))) r"
proof -
  have inv: "agent_inv (fst (process_line cr i t sub a))" for t sub
    using inv_request [OF assms(1), of cr i]
    by (simp add: process_line_def Let_def case_prod_beta assms(1) split: option.split)
  have sub: "cn_subscribed (sc_conn sc) \<Longrightarrow> fst (snd (process_line cr i t (cn_subscribed (sc_conn sc)) a))" for t
    by (simp add: process_line_def Let_def case_prod_beta split: option.split)
  have len: "length (a_events a) \<le> length (a_events a')"
    using serve_line_events [of cr i l sc a] assms(3) by auto
  show ?thesis
  proof (cases "from_utf8 l")
    case None
    then show ?thesis using assms by (auto simp: serve_line_def)
  next
    case (Some t)
    with assms inv [of t "cn_subscribed (sc_conn sc)"] sub [of t] len show ?thesis
      by (auto simp: serve_line_def conn_ok_def Let_def case_prod_beta split: if_splits)
  qed
qed

lemma poll_read_inv:
  assumes "agent_inv a" and "conn_ok (length (a_events a)) sc" and "poll_read cr i sc a = (r, a')"
  shows "agent_inv a' \<and> pred_option (conn_ok (length (a_events a'))) r"
proof -
  have "conn_ok (length (a_events a)) (sc\<lparr>sc_buf := b\<rparr>)" for b using assms(2) by (simp add: conn_ok_def)
  note serve = serve_line_inv [OF assms(1) this]
  show ?thesis
    using assms serve
    by (auto simp: poll_read_def case_prod_beta Let_def conn_ok_def split: if_splits)
qed

lemma poll_bus_inv:
  assumes "conn_ok (length (a_events a)) sc" and "\<forall>l. set (kept l) \<subseteq> set l"
  shows "conn_ok (length (a_events a)) (poll_bus cr kept i sc a)"
  using assms by (auto simp: poll_bus_def conn_ok_def Let_def case_prod_beta split: if_splits)

lemma server_inv_put:
  assumes "server_inv s" and "agent_inv a'" and "pred_option (conn_ok (length (a_events a'))) r"
    and "length (a_events (sv_agent s)) \<le> length (a_events a')"
  shows "server_inv (put_conn c (r, a') s)"
  using assms conn_ok_mono by (fastforce simp: server_inv_def)

lemma inv_serve_step:
  assumes "\<forall>l. set (kept l) \<subseteq> set l" and "server_inv s"
  shows "server_inv (serve_step cr kept ei s)"
proof (cases ei)
  case (Pair e i)
  let ?n = "length (a_events (sv_agent s))"
  have a: "agent_inv (sv_agent s)" and c: "\<And>c sc. sv_conns s c = Some sc \<Longrightarrow> conn_ok ?n sc"
    using assms(2) by (auto simp: server_inv_def)
  note put = server_inv_put [OF assms(2)]
  have grown: "length (a_events (sv_agent (serve_step cr kept ei s))) \<ge> ?n"
    using bus_grows_step [of cr kept ei s] by auto
  show ?thesis
  proof (cases e)
    case (SvRead n)
    show ?thesis
    proof (cases "sv_conns s n")
      case (Some sc)
      obtain r a' where r: "poll_read cr i sc (sv_agent s) = (r, a')" by fastforce
      have "length (a_events a') \<ge> ?n" using grown by (simp add: Pair SvRead Some r)
      with put [of a' r n] poll_read_inv [OF a c [OF Some] r] show ?thesis by (simp add: Pair SvRead Some r)
    qed (use assms(2) in \<open>simp add: Pair SvRead\<close>)
  next
    case (SvBus n)
    then show ?thesis using put [OF a] poll_bus_inv [OF c assms(1)] assms(2) by (auto simp: Pair split: option.split)
  next
    case (SvEngine x)
    then show ?thesis using grown inv_agent_step [OF a] conn_ok_mono [OF c] by (auto simp: Pair server_inv_def)
  qed (use put [OF a] c assms(2) in \<open>auto simp: Pair conn_ok_def new_sconn_def split: option.split\<close>)
qed

interpretation srv: invariant_machine "serve_step cr (\<lambda>_. [])" server_inv for cr
  by unfold_locales (rule inv_serve_step, simp_all)

text \<open>C15. The daemon process keeps its invariants whatever any number of clients send it, complete
  requests or arbitrary bytes, and however their connections, the engine and the supervisor
  interleave: the telemetry buffer holds at most 500 lines, commands are accepted only under a
  supervisor, a supervised daemon reports itself as paired, and no connection is ahead of the
  bus, streams to a client that did not subscribe, or holds back a complete line. (A cancelled
  read keeps nothing, as its documentation says.)\<close>

theorem server_run_invariant:
  assumes "run_serve cr stamp d hist fs bound = Inr s0" and "s = fold (serve_step cr (\<lambda>_. [])) es s0"
  shows "length (a_buf (sv_agent s)) \<le> 500 \<and> (accepting (sv_agent s) \<longrightarrow> a_supervisor (sv_agent s) \<noteq> None)
    \<and> (a_supervisor (sv_agent s) \<noteq> None \<longrightarrow> is_paired (status_snapshot (sv_agent s)))
    \<and> (\<forall>c sc. sv_conns s c = Some sc \<longrightarrow> conn_ok (length (a_events (sv_agent s))) sc)"
proof -
  have "server_inv s0"
    using assms(1) inv_build_engine
    by (auto simp: run_serve_def server_inv_def Let_def tlog_push_def TELEMETRY_BUF_CAP_def split: option.splits if_splits)
  then have "server_inv s" unfolding assms(2) by (rule srv.run_inv)
  then show ?thesis by (auto simp: server_inv_def agent_inv_def status_snapshot_def status_to_ipc_def)
qed

theorem server_run_invariant_witness:
  "\<exists>s. run_serve sample_crates [] sample_dirs (Some open_in_memory) Map.empty True = Inr s
    \<and> conn_ok 0 new_sconn
    \<and> length (a_buf (sv_agent (fold (serve_step sample_crates (\<lambda>_. [])) [(SvAccept 0, sample_aio), (SvArrive 0 [123], sample_aio)] s))) \<le> 500"
proof -
  obtain s where s: "run_serve sample_crates [] sample_dirs (Some open_in_memory) Map.empty True = Inr s"
    by (simp add: run_serve_def build_engine_def Let_def)
  have "conn_ok 0 new_sconn" by (simp add: conn_ok_def new_sconn_def)
  with server_run_invariant [OF s refl, of "[(SvAccept 0, sample_aio), (SvArrive 0 [123], sample_aio)]"] s show ?thesis
    by (auto simp del: fold.simps serve_step.simps)
qed

end
