(* ===== verification/Interop.thy ===== *)
theory Interop
  imports Engine_In
begin

text \<open>
  The headless driver (\<open>core/examples/interop.rs\<close>) that exercises the protocol against a server:
  pairing, sending a text or a file and waiting for the acknowledgement, and receiving clips.

  The network and the disk are arguments: what the server shows and answers, and the items of the
  socket that arrive before the deadline. An outcome is what was printed, the frames and blobs
  sent, the files, and the error the program ends with, if any.
\<close>

subsection \<open>Acknowledgements\<close>

definition T_ACK :: rstr where
  "T_ACK = lit ''ack''"

record ack =
  ack_id :: rstr
  ack_status :: rstr
  ack_queued_for :: "rstr list"
  ack_message :: rstr

definition ack_of_json :: "json \<Rightarrow> ack option" where
  "ack_of_json v = do {
     m \<leftarrow> struct_fields [''id'', ''status'', ''queuedFor'', ''message''] v;
     i \<leftarrow> req as_str m ''id'';
     s \<leftarrow> req as_str m ''status'';
     q \<leftarrow> deflt as_str_vec [] m ''queuedFor'';
     e \<leftarrow> deflt as_str [] m ''message'';
     Some \<lparr>ack_id = i, ack_status = s, ack_queued_for = q, ack_message = e\<rparr> }"

subsection \<open>Outcomes\<close>

datatype iop_error =
    IopMissing nat | IopUnknown rstr | IopNumber | IopConfig | IopPin | IopPair | IopSave
  | IopConnect conn_error | IopSeal | IopPanic | IopEncode | IopSend | IopFile | IopBlob blob_error
  | IopRecv | IopJson | IopBase64 | IopOpen | IopUtf8 | IopTimeout

record iop_io =
  ip_files :: files
  ip_mkdir :: bool
  ip_write :: write_result
  ip_get :: "rstr \<Rightarrow> http_response"
  ip_post :: "bytes \<Rightarrow> rstr \<Rightarrow> json \<Rightarrow> http_response"
  ip_cert :: bytes
  ip_dial :: bool
  ip_hello_sent :: bool
  ip_first :: ws_item
  ip_sent :: bool
  ip_items :: "ws_item list"
  ip_put :: "rstr \<Rightarrow> rstr \<Rightarrow> bytes \<Rightarrow> http_response"
  ip_pull :: "rstr \<Rightarrow> rstr \<Rightarrow> http_response"
  ip_transport :: rstr
  ip_id :: rstr
  ip_ts :: rstr
  ip_nonce :: bytes
  ip_nonce_html :: bytes

record iop_outcome =
  oc_printed :: "rstr list"
  oc_frames :: "bytes list"
  oc_files :: files
  oc_error :: "iop_error option"

definition outcome :: "iop_io \<Rightarrow> rstr list \<Rightarrow> bytes list \<Rightarrow> iop_error option \<Rightarrow> iop_outcome" where
  "outcome io printed frames e = \<lparr>oc_printed = printed, oc_frames = frames, oc_files = ip_files io, oc_error = e\<rparr>"

fun and_then :: "'e + 'a \<Rightarrow> ('a \<Rightarrow> 'e + 'b) \<Rightarrow> 'e + 'b" where
  "and_then (Inl e) f = Inl e"
| "and_then (Inr x) f = f x"

definition or_fail :: "'e \<Rightarrow> 'a option \<Rightarrow> 'e + 'a" where
  "or_fail e x = (case x of None \<Rightarrow> Inl e | Some y \<Rightarrow> Inr y)"

fun of_res :: "iop_error \<Rightarrow> 'a res \<Rightarrow> iop_error + 'a" where
  "of_res e (Ok x) = Inr x"
| "of_res e Err = Inl e"
| "of_res e Panic = Inl IopPanic"

definition show_bool :: "bool \<Rightarrow> rstr" where
  "show_bool b = (if b then lit ''true'' else lit ''false'')"

subsection \<open>Waiting for the acknowledgement\<close>

lemma ws_recv_shorter: "ws_recv cr items = Some (r, rest) \<Longrightarrow> length rest < length items"
  by (induction cr items rule: ws_recv.induct)
    (auto split: if_splits option.splits)

text \<open>The items are those that arrive within ten seconds; when they run out, the wait times out.\<close>

function wait_ack :: "crates \<Rightarrow> rstr \<Rightarrow> ws_item list \<Rightarrow> iop_error + rstr" where
  "wait_ack cr ident items =
     (case ws_recv cr items of
        None \<Rightarrow> Inl IopTimeout
      | Some (RecvEof, _) \<Rightarrow> Inl IopTimeout
      | Some (RecvErr, _) \<Rightarrow> Inl IopRecv
      | Some (RecvFrame t d, rest) \<Rightarrow>
          if t = T_ACK then
            (case ack_of_json d of
               None \<Rightarrow> Inl IopJson
             | Some a \<Rightarrow> if ack_id a = ident then Inr (lit ''ack:'' @ ack_status a) else wait_ack cr ident rest)
          else wait_ack cr ident rest)"
  by pat_completeness auto
termination
  by (relation "measure (\<lambda>(_, _, items). length items)") (auto dest: ws_recv_shorter)

declare wait_ack.simps [simp del]

subsection \<open>Sending\<close>

definition iop_connect :: "crates \<Rightarrow> iop_io \<Rightarrow> config \<Rightarrow> bytes \<Rightarrow> iop_error + hello_ok" where
  "iop_connect cr io c pin =
     (case ws_connect cr pin (c_device_id c) (c_device_name c) (c_token c) (ip_cert io) (ip_dial io) (ip_hello_sent io)
             (ip_first io) of
        Inl e \<Rightarrow> Inl (IopConnect e)
      | Inr h \<Rightarrow> Inr h)"

definition iop_session :: "crates \<Rightarrow> iop_io \<Rightarrow> rstr \<Rightarrow> iop_error + (config \<times> bytes)" where
  "iop_session cr io path =
     and_then (or_fail IopConfig (config_load cr (ip_files io) path)) (\<lambda>c.
     and_then (or_fail IopPin (pin_bytes cr c)) (\<lambda>pin. Inr (c, pin)))"

text \<open>The clip of \<open>send_text\<close>, over a connection that was accepted.\<close>

definition text_event :: "crates \<Rightarrow> iop_io \<Rightarrow> rstr \<Rightarrow> rstr \<Rightarrow> rstr option \<Rightarrow> iop_error + clip_event" where
  "text_event cr io path txt html =
     and_then (iop_session cr io path) (\<lambda>(c, pin).
     and_then (iop_connect cr io c pin) (\<lambda>_.
     of_res IopSeal (new_text cr (ip_id io) (ip_ts io) (ip_nonce io) (ip_nonce_html io) 1 txt html (e2e_key cr c) All)))"

definition iop_mime_of :: "rstr \<Rightarrow> rstr" where
  "iop_mime_of path =
     (let ext = to_ascii_lowercase (case path_extension path of Some e \<Rightarrow> e | None \<Rightarrow> [])
      in if ext = lit ''png'' then lit ''image/png''
         else if ext = lit ''jpg'' \<or> ext = lit ''jpeg'' then lit ''image/jpeg''
         else if ext = lit ''gif'' then lit ''image/gif''
         else if ext = lit ''webp'' then lit ''image/webp''
         else if ext = lit ''pdf'' then lit ''application/pdf''
         else if ext = lit ''txt'' then lit ''text/plain''
         else lit ''application/octet-stream'')"

definition iop_file_name :: "rstr \<Rightarrow> rstr" where
  "iop_file_name path = (case path_file_name path of Some s \<Rightarrow> s | None \<Rightarrow> lit ''file'')"

text \<open>The clip of \<open>send_file\<close> after its upload, with the payload that was uploaded and the length of
  the content; the file itself is among the files.\<close>

definition file_event :: "crates \<Rightarrow> iop_io \<Rightarrow> rstr \<Rightarrow> rstr \<Rightarrow> iop_error + (clip_event \<times> bytes \<times> nat)" where
  "file_event cr io path file =
     and_then (iop_session cr io path) (\<lambda>(c, pin).
     and_then (or_fail IopFile (ip_files io file)) (\<lambda>content.
     and_then (case e2e_key cr c of
                 Some (k, _) \<Rightarrow> of_res IopSeal (seal cr (ip_nonce io) k content)
               | None \<Rightarrow> Inr content) (\<lambda>payload.
     and_then (case put_blob cr (ip_put io) (ip_transport io) (c_server_url c) (c_token c) payload of
                 Inl e \<Rightarrow> Inl (IopBlob e) | Inr b \<Rightarrow> Inr b) (\<lambda>bid.
     and_then (iop_connect cr io c pin) (\<lambda>_.
     Inr (default_clip\<lparr>ev_id := ip_id io, ev_seq := 1, ev_ts := ip_ts io, ev_mime := [iop_mime_of file],
            ev_name := iop_file_name file, blob_id_of := bid, ev_size := int (length content),
            ev_sha256 := sha_hex cr payload, ev_targets := All,
            ev_enc := map_option (\<lambda>(_, kid). \<lparr>alg = ALG, enc_key_id = kid, enc_nonce = []\<rparr>) (e2e_key cr c)\<rparr>,
          payload, length content))))))"

text \<open>The clip goes out, is reported, and the acknowledgement is awaited.\<close>

definition send_event :: "crates \<Rightarrow> iop_io \<Rightarrow> clip_event \<Rightarrow> rstr \<Rightarrow> iop_outcome" where
  "send_event cr io ev report =
     (case encode cr T_CLIP (clip_to_json ev) of
        None \<Rightarrow> outcome io [] [] (Some IopEncode)
      | Some b \<Rightarrow>
          if \<not> ip_sent io then outcome io [] [] (Some IopSend)
          else (case wait_ack cr (ev_id ev) (ip_items io) of
                  Inl e \<Rightarrow> outcome io [report] [b] (Some e)
                | Inr a \<Rightarrow> outcome io [report, a] [b] None))"

definition iop_send_text :: "crates \<Rightarrow> iop_io \<Rightarrow> rstr \<Rightarrow> rstr \<Rightarrow> rstr option \<Rightarrow> iop_outcome" where
  "iop_send_text cr io path txt html =
     (case text_event cr io path txt html of
        Inl e \<Rightarrow> outcome io [] [] (Some e)
      | Inr ev \<Rightarrow> send_event cr io ev (lit ''sent id='' @ ev_id ev @ lit '' enc='' @ show_bool (ev_enc ev \<noteq> None)))"

definition iop_send_file :: "crates \<Rightarrow> iop_io \<Rightarrow> rstr \<Rightarrow> rstr \<Rightarrow> iop_outcome" where
  "iop_send_file cr io path file =
     (case file_event cr io path file of
        Inl e \<Rightarrow> outcome io [] [] (Some e)
      | Inr (ev, _, n) \<Rightarrow>
          send_event cr io ev (lit ''sent file id='' @ ev_id ev @ lit '' name='' @ ev_name ev @ lit '' bytes='' @ show_nat n
            @ lit '' enc='' @ show_bool (ev_enc ev \<noteq> None)))"

subsection \<open>Receiving\<close>

definition decrypt_text :: "crates \<Rightarrow> clip_event \<Rightarrow> (bytes \<times> rstr) option \<Rightarrow> iop_error + rstr" where
  "decrypt_text cr ev key =
     (if ev_enc ev = None then Inr (inline_text ev)
      else (case key of
              Some (k, _) \<Rightarrow>
                and_then (or_fail IopBase64 (b64_decode cr (inline_text ev))) (\<lambda>raw.
                and_then (of_res IopOpen (e2e_open cr k raw)) (\<lambda>p. or_fail IopUtf8 (from_utf8 p)))
            | None \<Rightarrow> Inr (lit ''<encrypted: no passphrase>'')))"

definition decrypt_bytes :: "crates \<Rightarrow> clip_event \<Rightarrow> bytes \<Rightarrow> (bytes \<times> rstr) option \<Rightarrow> iop_error + bytes" where
  "decrypt_bytes cr ev content key =
     (if ev_enc ev = None then Inr content
      else (case key of
              Some (k, _) \<Rightarrow> of_res IopOpen (e2e_open cr k content)
            | None \<Rightarrow> Inr content))"

definition html_line :: "crates \<Rightarrow> clip_event \<Rightarrow> (bytes \<times> rstr) option \<Rightarrow> iop_error + rstr list" where
  "html_line cr ev key =
     (if ev_html ev = [] then Inr []
      else and_then
        (case (ev_enc ev, key) of
           (Some _, Some (k, _)) \<Rightarrow>
             and_then (or_fail IopBase64 (b64_decode cr (ev_html ev))) (\<lambda>raw.
             and_then (of_res IopOpen (e2e_open cr k raw)) (\<lambda>p. or_fail IopUtf8 (from_utf8 p)))
         | (Some _, None) \<Rightarrow> Inr (lit ''<encrypted>'')
         | (None, _) \<Rightarrow> Inr (ev_html ev)) (\<lambda>h. Inr [lit ''  html: '' @ h]))"

text \<open>What one clip prints, and the error it ends the loop with; a text is printed before its markup
  is looked at.\<close>

definition show_clip :: "crates \<Rightarrow> iop_io \<Rightarrow> config \<Rightarrow> clip_event \<Rightarrow> rstr list \<times> iop_error option" where
  "show_clip cr io c ev =
     (let key = e2e_key cr c in
      if is_blob ev then
        (case get_blob cr (ip_pull io) (ip_transport io) (c_server_url c) (c_token c) (blob_id_of ev) of
           Inl e \<Rightarrow> ([], Some (IopBlob e))
         | Inr content \<Rightarrow>
             (case decrypt_bytes cr ev content key of
                Inl e \<Rightarrow> ([], Some e)
              | Inr plain \<Rightarrow>
                  ([lit ''CLIP '' @ kind ev @ lit '' name='' @ ev_name ev @ lit '' bytes='' @ show_nat (length plain)
                    @ lit '' sha_in='' @ sha_hex cr plain], None)))
      else
        (case decrypt_text cr ev key of
           Inl e \<Rightarrow> ([], Some e)
         | Inr t \<Rightarrow>
             (case html_line cr ev key of
                Inl e \<Rightarrow> ([lit ''CLIP text '' @ t], Some e)
              | Inr h \<Rightarrow> ((lit ''CLIP text '' @ t) # h, None))))"

function recv_loop :: "crates \<Rightarrow> iop_io \<Rightarrow> config \<Rightarrow> ws_item list \<Rightarrow> rstr list \<times> iop_error option" where
  "recv_loop cr io c items =
     (case ws_recv cr items of
        None \<Rightarrow> ([], None)
      | Some (RecvEof, _) \<Rightarrow> ([], None)
      | Some (RecvErr, _) \<Rightarrow> ([], Some IopRecv)
      | Some (RecvFrame t d, rest) \<Rightarrow>
          if t \<noteq> T_CLIP then recv_loop cr io c rest
          else (case clip_of_json d of
                  None \<Rightarrow> ([], Some IopJson)
                | Some ev \<Rightarrow>
                    (case show_clip cr io c ev of
                       (l, Some e) \<Rightarrow> (l, Some e)
                     | (l, None) \<Rightarrow> (let (l', e) = recv_loop cr io c rest in (l @ l', e)))))"
  by pat_completeness auto
termination
  by (relation "measure (\<lambda>(_, _, _, items). length items)") (auto dest: ws_recv_shorter)

declare recv_loop.simps [simp del]

definition iop_recv :: "crates \<Rightarrow> iop_io \<Rightarrow> rstr \<Rightarrow> iop_outcome" where
  "iop_recv cr io path =
     (case and_then (iop_session cr io path) (\<lambda>(c, pin). and_then (iop_connect cr io c pin) (\<lambda>_. Inr c)) of
        Inl e \<Rightarrow> outcome io [] [] (Some e)
      | Inr c \<Rightarrow> (let (l, e) = recv_loop cr io c (ip_items io) in outcome io l [] e))"

subsection \<open>Commands\<close>

text \<open>\<open>str::parse\<close> for a 64-bit number: an optional plus sign, then at least one decimal digit.\<close>

definition parse_u64 :: "rstr \<Rightarrow> u64 option" where
  "parse_u64 s =
     (let digits = (case s of c # r \<Rightarrow> if c = 43 then r else s | [] \<Rightarrow> []);
          n = foldl (\<lambda>n c. 10 * n + (c - 48)) 0 digits
      in if digits = [] \<or> \<not> list_all (\<lambda>c. 48 \<le> c \<and> c \<le> 57) digits \<or> n \<ge> 2 ^ 64 then None else Some (of_nat n))"

definition arg :: "rstr list \<Rightarrow> nat \<Rightarrow> iop_error + rstr" where
  "arg args n = (if n < length args then Inr (args ! n) else Inl (IopMissing n))"

definition or_empty :: "rstr list \<Rightarrow> nat \<Rightarrow> rstr" where
  "or_empty args n = (if n < length args then args ! n else [])"

definition iop_pair :: "crates \<Rightarrow> iop_io \<Rightarrow> rstr \<Rightarrow> rstr \<Rightarrow> rstr \<Rightarrow> rstr \<Rightarrow> rstr \<Rightarrow> rstr \<Rightarrow> iop_outcome" where
  "iop_pair cr io server otp name out pass pin =
     (case claim cr (ip_get io) (ip_post io) server pin otp name pass of
        None \<Rightarrow> outcome io [] [] (Some IopPair)
      | Some c \<Rightarrow>
          (let (fs, ok) = config_save cr (ip_mkdir io) (ip_write io) (ip_files io) out c
           in if \<not> ok then (outcome io [] [] (Some IopSave))\<lparr>oc_files := fs\<rparr>
              else (outcome io [lit ''paired device_id='' @ c_device_id c @ lit '' server_id='' @ c_server_id c
                      @ lit '' e2e='' @ show_bool (c_e2e_pass c \<noteq> [])] [] None)\<lparr>oc_files := fs\<rparr>))"

definition interop_main :: "crates \<Rightarrow> iop_io \<Rightarrow> rstr list \<Rightarrow> iop_outcome" where
  "interop_main cr io args =
     (let failed = (\<lambda>e. outcome io [] [] (Some e));
          run = (\<lambda>x. case x of Inl e \<Rightarrow> failed e | Inr r \<Rightarrow> r);
          cmd = or_empty args 0
      in if cmd = lit ''e2ekey'' then
           run (and_then (arg args 1) (\<lambda>pass. and_then (arg args 2) (\<lambda>sid.
             Inr (outcome io [key_id cr (derive_key cr pass sid)] [] None))))
         else if cmd = lit ''pair'' then
           run (and_then (arg args 1) (\<lambda>server. and_then (arg args 2) (\<lambda>otp. and_then (arg args 3) (\<lambda>name.
             and_then (arg args 4) (\<lambda>out. Inr (iop_pair cr io server otp name out (or_empty args 5) (or_empty args 6)))))))
         else if cmd = lit ''send'' then
           run (and_then (arg args 1) (\<lambda>path. and_then (arg args 2) (\<lambda>txt.
             Inr (iop_send_text cr io path txt (if 3 < length args then Some (args ! 3) else None)))))
         else if cmd = lit ''sendfile'' then
           run (and_then (arg args 1) (\<lambda>path. and_then (arg args 2) (\<lambda>file. Inr (iop_send_file cr io path file))))
         else if cmd = lit ''recv'' then
           run (and_then (arg args 2) (\<lambda>secs. and_then (or_fail IopNumber (parse_u64 secs)) (\<lambda>_.
             and_then (arg args 1) (\<lambda>path. Inr (iop_recv cr io path)))))
         else failed (IopUnknown cmd))"

subsection \<open>What arrives is what was sent\<close>

lemma and_then_Inr: "and_then x f = Inr y \<longleftrightarrow> (\<exists>z. x = Inr z \<and> f z = Inr y)"
  by (cases x) simp_all

lemma or_fail_Inr: "or_fail e x = Inr y \<longleftrightarrow> x = Some y"
  by (simp add: or_fail_def split: option.split)

lemma of_res_Inr: "of_res e r = Inr y \<longleftrightarrow> r = Ok y"
  by (cases r) simp_all

lemmas fallible = and_then_Inr or_fail_Inr of_res_Inr

text \<open>Opening what was sealed and encoded.\<close>

lemma opened:
  assumes "aead_inverts cr" "base64_inverts cr" "length nonce = 12" "list_all scalar t"
    and "seal cr nonce k (as_bytes t) = Ok raw"
  shows "and_then (or_fail IopBase64 (b64_decode cr (b64_encode cr raw))) (\<lambda>raw.
      and_then (of_res IopOpen (e2e_open cr k raw)) (\<lambda>p. or_fail IopUtf8 (from_utf8 p))) = Inr t"
  using open_seal [OF assms(1,3,5)] assms(2,4)
  by (simp add: fallible base64_inverts_def from_utf8_as_bytes)

definition printed_text :: "rstr \<Rightarrow> rstr option \<Rightarrow> rstr list" where
  "printed_text t html =
     (lit ''CLIP text '' @ t) # (case nonempty html of Some h \<Rightarrow> [lit ''  html: '' @ h] | None \<Rightarrow> [])"

text \<open>Base64 text is not empty unless the bytes are.\<close>

definition base64_nonempty :: "crates \<Rightarrow> bool" where
  "base64_nonempty cr \<longleftrightarrow> (\<forall>b. b \<noteq> [] \<longrightarrow> b64_encode cr b \<noteq> [])"

lemma text_shown:
  assumes "aead_inverts cr" "base64_inverts cr" "base64_nonempty cr" "length n = 12" "length n' = 12"
    and "list_all scalar t" "pred_option (list_all scalar) html"
    and "new_text cr ident ts n n' sq t html (e2e_key cr c) tg = Ok ev"
  shows "show_clip cr io c (ev\<lparr>origin_device := d\<rparr>) = (printed_text t html, None)"
proof (cases "e2e_key cr c")
  case None
  then have ev: "blob_id_of ev = []" "inline_text ev = t" "ev_enc ev = None"
    "ev_html ev = (case nonempty html of Some h \<Rightarrow> h | None \<Rightarrow> [])"
    using assms(8) by (auto simp: new_text_def Let_def default_clip_def)
  have "nonempty html = Some h \<Longrightarrow> h \<noteq> []" for h by (auto simp: nonempty_def split: option.splits list.splits)
  then show ?thesis
    by (auto simp: show_clip_def is_blob_def ev decrypt_text_def html_line_def printed_text_def None split: option.split)
next
  case (Some kk)
  obtain k kid where key: "e2e_key cr c = Some (k, kid)" using Some by (cases kk) simp
  obtain raw eh where raw: "seal cr n k (as_bytes t) = Ok raw"
    and eh: "(case nonempty html of Some h \<Rightarrow> bind_res (seal cr n' k (as_bytes h)) (\<lambda>rh. Ok (b64_encode cr rh)) | None \<Rightarrow> Ok []) = Ok eh"
    and ev: "blob_id_of ev = []" "inline_text ev = b64_encode cr raw" "ev_html ev = eh" "ev_enc ev \<noteq> None"
    using assms(8) key by (auto simp: new_text_def Let_def bind_res_Ok_iff default_clip_def)
  have t: "decrypt_text cr (ev\<lparr>origin_device := d\<rparr>) (e2e_key cr c) = Inr t"
    using opened [OF assms(1,2,4,6) raw] ev by (auto simp: decrypt_text_def key)
  have h: "html_line cr (ev\<lparr>origin_device := d\<rparr>) (e2e_key cr c)
      = Inr (case nonempty html of Some h \<Rightarrow> [lit ''  html: '' @ h] | None \<Rightarrow> [])"
  proof (cases "nonempty html")
    case None
    then show ?thesis using eh ev by (simp add: html_line_def)
  next
    case (Some h)
    then obtain rh where rh: "seal cr n' k (as_bytes h) = Ok rh" "eh = b64_encode cr rh"
      using eh by (auto simp: bind_res_Ok_iff)
    have "html = Some h" using Some by (auto simp: nonempty_def split: option.splits list.splits)
    then have "list_all scalar h" using assms(7) by simp
    moreover have "rh \<noteq> []" using rh(1) assms(5) by (auto simp: seal_Ok)
    then have "eh \<noteq> []" using rh(2) assms(3) by (simp add: base64_nonempty_def)
    moreover obtain m where "ev_enc ev = Some m" using ev(4) by auto
    ultimately show ?thesis
      using opened [OF assms(1,2,5) _ rh(1)] ev(3) rh(2) Some by (simp add: html_line_def key)
  qed
  show ?thesis using t h ev(1) by (simp add: show_clip_def is_blob_def printed_text_def)
qed

lemma recv_one_clip:
  assumes "json_inverts cr" "i64_range (ev_size ev)" "encode cr T_CLIP (clip_to_json ev) = Some b" "b \<noteq> []"
    and "show_clip cr io c ev = (l, None)"
  shows "recv_loop cr io c [WsMsg (MData b)] = (l, None)"
proof -
  have "recv_loop cr io c [] = ([], None)" by (simp add: recv_loop.simps)
  then show ?thesis
    using decode_encode [OF assms(1,3)] clip_json_roundtrip [OF assms(2)] assms(4,5)
    by (simp add: recv_loop.simps [of cr io c "[WsMsg (MData b)]"])
qed

lemma new_text_size: "new_text cr ident ts n n' sq t html key tg = Ok ev \<Longrightarrow> ev_size ev = int (str_len t)"
  by (auto simp: new_text_def Let_def bind_res_Ok_iff split: option.splits)

text \<open>The driver proves the path it was written for: a text sent by one device, encrypted when a
  passphrase is set, stamped by the server with its origin and relayed to a device with the
  same passphrase, is printed there exactly as it was given, with its markup.\<close>

theorem interop_text_crosses:
  assumes "json_inverts cr" and "aead_inverts cr" and "base64_inverts cr" and "base64_nonempty cr"
    and "length (ip_nonce io) = 12" and "length (ip_nonce_html io) = 12"
    and "list_all scalar t" and "pred_option (list_all scalar) html" and "str_len t < 2 ^ 63"
    and "text_event cr io path t html = Inr ev" and "iop_session cr io path = Inr (c, pin)"
    and "encode cr T_CLIP (clip_to_json (ev\<lparr>origin_device := d\<rparr>)) = Some b" and "b \<noteq> []"
    and "iop_session cr io' path' = Inr (c', pin')" and "iop_connect cr io' c' pin' = Inr h"
    and "e2e_key cr c' = e2e_key cr c" and "ip_items io' = [WsMsg (MData b)]"
  shows "iop_recv cr io' path' = outcome io' (printed_text t html) [] None"
proof -
  have ev: "new_text cr (ip_id io) (ip_ts io) (ip_nonce io) (ip_nonce_html io) 1 t html (e2e_key cr c') All = Ok ev"
    using assms(10,11,16) by (auto simp: text_event_def fallible)
  note shown = text_shown [OF assms(2-8) ev, of io' d]
  have "i64_range (ev_size (ev\<lparr>origin_device := d\<rparr>))"
    using new_text_size [OF ev] assms(9) by (simp add: i64_range_def)
  from recv_one_clip [OF assms(1) this assms(12,13) shown]
  show ?thesis using assms(14,15,17) by (simp add: iop_recv_def)
qed

text \<open>Two devices of a group with a passphrase, and a codec for the one frame between them.\<close>

definition group_config :: config where
  "group_config = sample_config\<lparr>c_e2e_pass := lit ''hunter2''\<rparr>"

definition crossing_io :: "ws_item list \<Rightarrow> iop_io" where
  "crossing_io items = \<lparr>ip_files = [lit ''c'' \<mapsto> [1]], ip_mkdir = True, ip_write = Written, ip_get = (\<lambda>_. None),
     ip_post = (\<lambda>_ _ _. None), ip_cert = replicate 32 65, ip_dial = True, ip_hello_sent = True,
     ip_first = WsMsg (MData [2]), ip_sent = True, ip_items = items, ip_put = (\<lambda>_ _ _. Some (200, [])),
     ip_pull = (\<lambda>_ _. None), ip_transport = [], ip_id = lit ''x'', ip_ts = [], ip_nonce = replicate 12 9,
     ip_nonce_html = replicate 12 8\<rparr>"

definition hello_frame :: json where
  "hello_frame = JObj [(''t'', JStr T_HELLO_OK), (''d'', JObj [(''serverId'', JStr (lit ''srv'')), (''serverName'', JStr (lit ''S''))])]"

definition crossing_event :: clip_event where
  "crossing_event = default_clip\<lparr>ev_id := lit ''x'', ev_seq := 1, ev_mime := [lit ''text/plain''], ev_size := 2,
     inline_text := map unat (replicate 12 9 @ [104, 104, 105 :: 8 word]), ev_sha256 := sha_hex sample_crates (replicate 12 9 @ [104, 104, 105]),
     ev_enc := Some \<lparr>alg = ALG, enc_key_id = key_id sample_crates (derive_key sample_crates (lit ''hunter2'') (lit ''srv'')),
       enc_nonce = []\<rparr>\<rparr>"

definition crossing_frame :: "rstr \<Rightarrow> json" where
  "crossing_frame d = JObj [(''t'', JStr T_CLIP), (''d'', clip_to_json (crossing_event\<lparr>origin_device := d\<rparr>))]"

definition crossing_crates :: crates where
  "crossing_crates = sample_crates\<lparr>
     json_to_vec := (\<lambda>v. if v = config_to_json group_config then Some [1] else if v = hello_frame then Some [2]
                         else if v = crossing_frame (lit ''d1'') then Some [3]
                         else if v = JObj [(''t'', JStr T_HELLO), (''d'', hello_to_json (hello_msg (lit ''d1'') (lit ''pc'') (lit ''tok'')))]
                              then Some [4] else None),
     json_to_vec_pretty := (\<lambda>_. None),
     json_from_slice := (\<lambda>b. if b = [1] then Some (config_to_json group_config) else if b = [2] then Some hello_frame
                             else if b = [3] then Some (crossing_frame (lit ''d1''))
                             else if b = [4] then Some (JObj [(''t'', JStr T_HELLO), (''d'', hello_to_json (hello_msg (lit ''d1'') (lit ''pc'') (lit ''tok'')))])
                             else None)\<rparr>"

lemma crossing_fields [simp]:
  "sha256 crossing_crates = sha256 sample_crates" "hex_encode crossing_crates = hex_encode sample_crates"
  "b64_encode crossing_crates = map unat" "b64_decode crossing_crates = (\<lambda>s. Some (map of_nat s))"
  "gcm_encrypt crossing_crates = gcm_encrypt sample_crates" "argon2id crossing_crates = argon2id sample_crates"
  "gcm_decrypt crossing_crates = gcm_decrypt sample_crates" "spki_of_cert crossing_crates = Some"
  by (simp_all add: crossing_crates_def sample_crates_def)

lemma crossing_laws:
  "json_inverts crossing_crates" "aead_inverts crossing_crates" "base64_inverts crossing_crates" "base64_nonempty crossing_crates"
proof -
  show "json_inverts crossing_crates"
    by (auto simp: json_inverts_def crossing_crates_def split: if_splits)
  show "aead_inverts crossing_crates" using sample_aead by (simp add: aead_inverts_def)
  have "b64_encode sample_crates = map unat" "b64_decode sample_crates = (\<lambda>s. Some (map of_nat s))"
    by (simp_all add: sample_crates_def)
  then show "base64_inverts crossing_crates" using sample_base64 by (simp add: base64_inverts_def)
  show "base64_nonempty crossing_crates" by (simp add: base64_nonempty_def)
qed

lemma crossing_session:
  "iop_session crossing_crates (crossing_io items) (lit ''c'') = Inr (group_config, replicate 32 65)"
proof -
  have "config_load crossing_crates [lit ''c'' \<mapsto> [1]] (lit ''c'') = Some group_config"
    by (simp add: config_load_def crossing_crates_def config_json_roundtrip)
  moreover have "trim (replicate 32 65) = replicate 32 65"
    by (simp add: trim_def trim_end_by_def is_whitespace_def)
  then have "pin_bytes crossing_crates group_config = Some (replicate 32 65)"
    by (simp add: pin_bytes_def decode_pin_def group_config_def sample_config_def)
  ultimately show ?thesis by (simp add: iop_session_def crossing_io_def or_fail_def del: lit_simps)
qed

lemma crossing_connect:
  "\<exists>h. iop_connect crossing_crates (crossing_io items) group_config (replicate 32 65) = Inr h"
proof -
  have "verify_server_cert crossing_crates (replicate 32 65) (replicate 32 65) = Inr ()"
    by (simp add: verify_server_cert_def) (simp add: sample_crates_def)
  moreover have "encode crossing_crates T_HELLO (hello_to_json (hello_msg (lit ''d1'') (lit ''pc'') (lit ''tok''))) = Some [4]"
    by (simp add: encode_def crossing_crates_def config_to_json_def hello_frame_def crossing_frame_def tag_defs lit_eq_iff del: lit_simps)
  moreover have "decode crossing_crates [2] = Some (T_HELLO_OK, JObj [(''serverId'', JStr (lit ''srv'')), (''serverName'', JStr (lit ''S''))])"
    by (simp add: decode_def crossing_crates_def hello_frame_def struct_fields_def req_def deflt_def del: lit_simps)
  moreover have "\<exists>h. hello_ok_of_json (JObj [(''serverId'', JStr (lit ''srv'')), (''serverName'', JStr (lit ''S''))]) = Some h"
    by (simp add: hello_ok_of_json_def struct_fields_def req_def deflt_def)
  ultimately show ?thesis
    by (auto simp: iop_connect_def ws_connect_def crossing_io_def group_config_def sample_config_def simp del: lit_simps)
qed

lemma crossing_text:
  "text_event crossing_crates (crossing_io items) (lit ''c'') [104, 105] None = Inr crossing_event"
proof -
  let ?k = "derive_key sample_crates (lit ''hunter2'') (lit ''srv'')"
  have dk: "derive_key crossing_crates = derive_key sample_crates" "key_id crossing_crates = key_id sample_crates"
    by (intro ext; simp add: derive_key_def key_id_def)+
  have key: "e2e_key crossing_crates group_config = Some (?k, key_id sample_crates ?k)"
    by (simp add: e2e_key_def group_config_def sample_config_def dk Let_def del: lit_simps) (simp add: lit_simps)
  have "length ?k = 32" by (rule length_derive_key [OF sample_argon])
  moreover have "take 1 ?k = [104]"
    by (simp add: derive_key_def sample_crates_def as_bytes_def utf8_char_def)
  ultimately have "seal crossing_crates (replicate 12 9) ?k (as_bytes [104, 105]) = Ok (replicate 12 9 @ [104, 104, 105])"
    by (simp add: seal_def) (simp add: sample_crates_def as_bytes_def utf8_char_def)
  then have "new_text crossing_crates (lit ''x'') [] (replicate 12 9) (replicate 12 8) 1 [104, 105] None
      (e2e_key crossing_crates group_config) All = Ok crossing_event"
    by (simp add: new_text_def nonempty_def key crossing_event_def default_clip_def str_len_def utf8_width_def sha_hex_def
        del: lit_simps)
  moreover obtain h where "iop_connect crossing_crates (crossing_io items) group_config (replicate 32 65) = Inr h"
    using crossing_connect by blast
  ultimately show ?thesis
    by (simp add: text_event_def crossing_session del: lit_simps) (simp add: crossing_io_def)
qed

theorem interop_text_crosses_witness:
  "iop_recv crossing_crates (crossing_io [WsMsg (MData [3])]) (lit ''c'')
    = outcome (crossing_io [WsMsg (MData [3])]) [lit ''CLIP text '' @ [104, 105]] [] None"
proof -
  let ?io = "crossing_io []" and ?io' = "crossing_io [WsMsg (MData [3])]"
  obtain h where h: "iop_connect crossing_crates ?io' group_config (replicate 32 65) = Inr h" using crossing_connect by blast
  have enc: "encode crossing_crates T_CLIP (clip_to_json (crossing_event\<lparr>origin_device := lit ''d1''\<rparr>)) = Some [3]"
    by (simp add: encode_def crossing_crates_def crossing_frame_def config_to_json_def hello_frame_def tag_defs lit_eq_iff del: lit_simps)
  have io: "length (ip_nonce ?io) = 12" "length (ip_nonce_html ?io) = 12" "ip_items ?io' = [WsMsg (MData [3])]"
    by (simp_all add: crossing_io_def)
  have t: "list_all scalar [104, 105]" "str_len [104, 105] < 2 ^ 63" by (simp_all add: scalar_def str_len_def utf8_width_def)
  have "iop_recv crossing_crates ?io' (lit ''c'') = outcome ?io' (printed_text [104, 105] None) [] None"
    by (rule interop_text_crosses [OF crossing_laws io(1,2) t(1) _ t(2) crossing_text crossing_session enc _ crossing_session h refl io(3)])
      simp_all
  then show ?thesis by (simp add: printed_text_def nonempty_def del: lit_simps)
qed

subsection \<open>Files\<close>

lemma file_event_Inr:
  assumes "file_event cr io path file = Inr (ev, payload, n)" and "iop_session cr io path = Inr (c, pin)"
  obtains content where "ip_files io file = Some content" "n = length content" "blob_id_of ev = blob_id cr payload"
    "ev_name ev = iop_file_name file" "ev_mime ev = [iop_mime_of file]" "ev_size ev = int (length content)"
    "ev_enc ev = map_option (\<lambda>(_, kid). \<lparr>alg = ALG, enc_key_id = kid, enc_nonce = []\<rparr>) (e2e_key cr c)"
    "(case e2e_key cr c of Some (k, _) \<Rightarrow> seal cr (ip_nonce io) k content | None \<Rightarrow> Ok content) = Ok payload"
proof -
  have put: "(case x of Inl e \<Rightarrow> Inl (IopBlob e) | Inr b \<Rightarrow> Inr b) = Inr bid \<longleftrightarrow> x = Inr bid" for x bid
    by (cases x) simp_all
  from assms obtain content bid where c: "ip_files io file = Some content"
    "(case e2e_key cr c of Some (k, _) \<Rightarrow> of_res IopSeal (seal cr (ip_nonce io) k content) | None \<Rightarrow> Inr content) = Inr payload"
    "put_blob cr (ip_put io) (ip_transport io) (c_server_url c) (c_token c) payload = Inr bid"
    "n = length content" "blob_id_of ev = bid" "ev_name ev = iop_file_name file" "ev_mime ev = [iop_mime_of file]"
    "ev_size ev = int (length content)"
    "ev_enc ev = map_option (\<lambda>(_, kid). \<lparr>alg = ALG, enc_key_id = kid, enc_nonce = []\<rparr>) (e2e_key cr c)"
    unfolding file_event_def by (fastforce simp: fallible put)
  moreover have "(case e2e_key cr c of Some (k, _) \<Rightarrow> seal cr (ip_nonce io) k content | None \<Rightarrow> Ok content) = Ok payload"
    using c(2) by (auto simp: of_res_Inr split: option.splits)
  ultimately show ?thesis using that [of content] put_blob_Inr [OF c(3)] by simp
qed

definition printed_file :: "crates \<Rightarrow> rstr \<Rightarrow> bytes \<Rightarrow> rstr" where
  "printed_file cr file content =
     lit ''CLIP '' @ (if starts_with (iop_mime_of file) (lit ''image/'') then lit ''image'' else lit ''file'')
     @ lit '' name='' @ iop_file_name file @ lit '' bytes='' @ show_nat (length content) @ lit '' sha_in='' @ sha_hex cr content"

text \<open>A file crosses too: what one device uploads, sealed when a passphrase is set, and another
  device with the same passphrase pulls by the id in the clip, opens to the file's own content,
  with its name, its kind, its length and its hash.\<close>

lemma interop_file_crosses:
  assumes "json_inverts cr" and "aead_inverts cr" and "length (ip_nonce io) = 12"
    and "file_event cr io path file = Inr (ev, payload, n)" and "iop_session cr io path = Inr (c, pin)"
    and "ip_files io file = Some content" and "length content < 2 ^ 63"
    and "encode cr T_CLIP (clip_to_json (ev\<lparr>origin_device := d\<rparr>)) = Some b" and "b \<noteq> []"
    and "iop_session cr io' path' = Inr (c', pin')" and "iop_connect cr io' c' pin' = Inr h"
    and "e2e_key cr c' = e2e_key cr c" and "ip_items io' = [WsMsg (MData b)]"
    and "ip_pull io' (blob_url (c_server_url c') (blob_id cr payload)) (c_token c') = Some (200, payload)"
  shows "iop_recv cr io' path' = outcome io' [printed_file cr file content] [] None"
proof -
  obtain content' where ev: "ip_files io file = Some content'" "blob_id_of ev = blob_id cr payload"
    "ev_name ev = iop_file_name file" "ev_mime ev = [iop_mime_of file]" "ev_size ev = int (length content')"
    "ev_enc ev = map_option (\<lambda>(_, kid). \<lparr>alg = ALG, enc_key_id = kid, enc_nonce = []\<rparr>) (e2e_key cr c')"
    "(case e2e_key cr c' of Some (k, _) \<Rightarrow> seal cr (ip_nonce io) k content' | None \<Rightarrow> Ok content') = Ok payload"
    using file_event_Inr [OF assms(4,5)] assms(12) by metis
  have same: "content' = content" using ev(1) assms(6) by simp
  have opens: "decrypt_bytes cr (ev\<lparr>origin_device := d\<rparr>) payload (e2e_key cr c') = Inr content"
  proof (cases "e2e_key cr c'")
    case None
    then show ?thesis using ev(6,7) same by (simp add: decrypt_bytes_def)
  next
    case (Some kk)
    then show ?thesis
      using ev(6,7) same open_seal [OF assms(2,3), of "fst kk" content payload]
      by (cases kk) (simp add: decrypt_bytes_def)
  qed
  have get: "get_blob cr (ip_pull io') (ip_transport io') (c_server_url c') (c_token c') (blob_id cr payload) = Inr payload"
    using assms(14) by (simp add: get_blob_def is_success_def)
  have "is_blob (ev\<lparr>origin_device := d\<rparr>)" using ev(2) by (simp add: is_blob_def blob_id_def)
  then have "show_clip cr io' c' (ev\<lparr>origin_device := d\<rparr>) = ([printed_file cr file content], None)"
    using opens get ev(2-4)
    by (simp add: show_clip_def printed_file_def kind_def first_is_image_def del: lit_simps)
  moreover have "i64_range (ev_size (ev\<lparr>origin_device := d\<rparr>))" using ev(5) same assms(7) by (simp add: i64_range_def)
  ultimately have "recv_loop cr io' c' [WsMsg (MData b)] = ([printed_file cr file content], None)"
    using recv_one_clip [OF assms(1) _ assms(8,9)] by blast
  then show ?thesis using assms(10,11,13) by (simp add: iop_recv_def)
qed

subsection \<open>The driver as a reference\<close>

text \<open>The engine reads clips the way the driver does: for a clip in the clear or under the
  receiver's own key, a text the driver prints is the text the engine applies, and the bytes
  of a blob the driver measures are the bytes the engine stores, on the same failures.\<close>

theorem engine_agrees_with_driver:
  assumes "\<And>m. ev_enc ev = Some m \<Longrightarrow> \<exists>k. key = Some (k, enc_key_id m)"
  shows "(decrypt_text cr ev key = Inr t \<longrightarrow> incoming_text cr key ev = Ok (Inr t))
    \<and> (decrypt_bytes cr ev content key = Inr p \<longleftrightarrow> incoming_blob cr key ev content = Ok (Inr p))"
proof (cases "ev_enc ev")
  case None
  then show ?thesis by (auto simp: decrypt_text_def incoming_text_def decrypt_bytes_def incoming_blob_def)
next
  case (Some m)
  then obtain k where key: "key = Some (k, enc_key_id m)" using assms by blast
  have "from_utf8 q = Some t \<Longrightarrow> from_utf8_lossy q = t" for q
    by (simp add: from_utf8_def Let_def split: if_splits)
  then show ?thesis
    using Some key
    by (auto simp: decrypt_text_def incoming_text_def decrypt_bytes_def incoming_blob_def fallible split: res.splits)
qed

theorem engine_agrees_with_driver_witness:
  "incoming_text crossing_crates (e2e_key crossing_crates group_config) (default_clip\<lparr>inline_text := [104]\<rparr>) = Ok (Inr [104])"
  using engine_agrees_with_driver [of "default_clip\<lparr>inline_text := [104]\<rparr>" "e2e_key crossing_crates group_config" crossing_crates "[104]" "[]" "[]"]
  by (simp add: default_clip_def decrypt_text_def)

subsection \<open>The acknowledgement\<close>

text \<open>Frames that do not end the wait: any frame but an acknowledgement of this clip, keep-alives
  included, as long as it parses.\<close>

fun passed_over :: "crates \<Rightarrow> rstr \<Rightarrow> ws_item \<Rightarrow> bool" where
  "passed_over cr ident (WsMsg (MPing b)) \<longleftrightarrow> True"
| "passed_over cr ident (WsMsg (MPong b)) \<longleftrightarrow> True"
| "passed_over cr ident (WsMsg (MData b)) \<longleftrightarrow>
     b = [] \<or> (\<exists>t d. decode cr b = Some (t, d) \<and> (t = T_ACK \<longrightarrow> (\<exists>a. ack_of_json d = Some a \<and> ack_id a \<noteq> ident)))"
| "passed_over cr ident _ \<longleftrightarrow> False"

lemma wait_ack_passes:
  assumes "passed_over cr ident x"
  shows "wait_ack cr ident (x # items) = wait_ack cr ident items"
  using assms
proof (cases "(cr, ident, x)" rule: passed_over.cases)
  case (3 cr' ident' b)
  show ?thesis
  proof (cases "b = []")
    case True
    then have "ws_recv cr (x # items) = ws_recv cr items" using 3 by simp
    then show ?thesis by (subst (1 2) wait_ack.simps) simp
  next
    case False
    then obtain t d where "decode cr b = Some (t, d)" "t = T_ACK \<longrightarrow> (\<exists>a. ack_of_json d = Some a \<and> ack_id a \<noteq> ident)"
      using assms 3 by auto
    then show ?thesis using 3 False by (cases "t = T_ACK") (auto simp: wait_ack.simps [of cr' ident' "_ # items"])
  qed
qed (simp_all add: wait_ack.simps [of cr ident "_ # items"] KEEPALIVE_def T_ACK_def)

text \<open>The wait for an acknowledgement ends, and with the right answer: it always returns; any
  number of other frames may come first, clips, keep-alives and acknowledgements of other
  clips, and it then reports the status of the acknowledgement of this clip; if the frames run
  out first it fails with a timeout.\<close>

theorem ack_wait_ends:
  assumes "list_all (passed_over cr ident) pre"
  shows "wait_ack cr ident pre = Inl IopTimeout
    \<and> (b \<noteq> [] \<and> decode cr b = Some (T_ACK, d) \<and> ack_of_json d = Some a \<and> ack_id a = ident
        \<longrightarrow> wait_ack cr ident (pre @ WsMsg (MData b) # rest) = Inr (lit ''ack:'' @ ack_status a))"
  using assms
proof (induction pre)
  case Nil
  then show ?case by (simp add: wait_ack.simps [of cr ident "[]"] wait_ack.simps [of cr ident "_ # rest"])
qed (simp add: wait_ack_passes)

theorem ack_wait_ends_witness:
  "wait_ack (sample_json_crates (JObj [(''t'', JStr T_ACK), (''d'', JObj [(''id'', JStr [7]), (''status'', JStr [8])])])) [7]
     [WsMsg (MPing []), WsMsg (MData []), WsMsg (MData [1])] = Inr (lit ''ack:'' @ [8])"
proof -
  let ?cr = "sample_json_crates (JObj [(''t'', JStr T_ACK), (''d'', JObj [(''id'', JStr [7]), (''status'', JStr [8])])])"
  let ?d = "JObj [(''id'', JStr [7]), (''status'', JStr [8])]"
  have "decode ?cr [1] = Some (T_ACK, ?d)"
    by (simp add: decode_def sample_json_crates_def struct_fields_def req_def deflt_def)
  moreover have "ack_of_json ?d = Some \<lparr>ack_id = [7], ack_status = [8], ack_queued_for = [], ack_message = []\<rparr>"
    by (simp add: ack_of_json_def struct_fields_def req_def deflt_def)
  moreover have "list_all (passed_over ?cr [7]) [WsMsg (MPing []), WsMsg (MData [])]" by simp
  ultimately show ?thesis
    using ack_wait_ends [of ?cr "[7]" "[WsMsg (MPing []), WsMsg (MData [])]" "[1]" ?d
      "\<lparr>ack_id = [7], ack_status = [8], ack_queued_for = [], ack_message = []\<rparr>" "[]"] by simp
qed

end
