(* ===== verification/Shell.thy ===== *)
theory Shell
  imports Agent_Serve
begin

text \<open>
  The Tauri shell (\<open>src-tauri/src/main.rs\<close>), the second host of the engine: its commands, the
  quick panel and its global hotkey, the tray menu, the emitter, the supervisor and the setup.
  The history key, the backoff and the guard that aborts an engine are the agent's code again.
\<close>

subsection \<open>State\<close>

datatype menu_item =
    MItem string
  | MSeparator
  | MPool rstr bool

datatype shell_event =
    SStatus status
  | SClip json
  | SRoster "roster_device list"
  | SReconnect u32 nat
  | SError "msg + agent_msg"
  | SCliplog clip_log
  | SNotify rstr msg
  | SPanelShow

record shell =
  sh_tx :: "(bool \<times> cmd list) option"
  sh_hist :: history
  sh_status :: status
  sh_roster :: "roster_device list"
  sh_targets :: targets
  sh_tray :: "menu_item list option"
  sh_cfg_path :: rstr
  sh_disk :: files
  sh_exclude :: bool
  sh_shortcut :: rstr
  sh_auto_clear :: u64
  sh_mark :: bool
  sh_wakeups :: nat
  sh_supervisor :: "config option"
  sh_attempt :: u32
  sh_registered :: "rstr list"
  sh_panel :: bool
  sh_main :: bool
  sh_toast :: bool
  sh_clip :: clip_content
  sh_autostart :: bool
  sh_exited :: bool
  sh_events :: "shell_event list"

text \<open>
  What the desktop answers: whether an accelerator parses, whether the system gives it to the
  program that holds the listed ones, whether it can be released, whether a menu can be built
  and the login entry changed, and the clipboard.
\<close>

record desk =
  dk_parses :: "rstr \<Rightarrow> bool"
  dk_grants :: "rstr list \<Rightarrow> rstr \<Rightarrow> bool"
  dk_releases :: "rstr \<Rightarrow> bool"
  dk_menu :: bool
  dk_autolaunch :: "bool option"
  dk_os :: os

definition sh_emit :: "shell_event \<Rightarrow> shell \<Rightarrow> shell" where
  "sh_emit e sh = sh\<lparr>sh_events := sh_events sh @ [e]\<rparr>"

definition shell_history_key :: "crates \<Rightarrow> bytes \<Rightarrow> bool \<Rightarrow> write_result \<Rightarrow> rstr \<Rightarrow> keystore \<Rightarrow> files \<Rightarrow> bytes \<times> keystore \<times> files" where
  "shell_history_key = history_key"

subsection \<open>Quick panel and hotkey\<close>

definition quickpanel_copy :: "desk \<Rightarrow> rstr \<Rightarrow> shell \<Rightarrow> shell \<times> bool" where
  "quickpanel_copy w text sh =
     (let (content, ok) = set_text (dk_os w) text (sh_clip sh) in
      if ok then (sh\<lparr>sh_clip := content, sh_panel := False\<rparr>, True) else (sh\<lparr>sh_clip := content\<rparr>, False))"

definition toggle_quick_panel :: "shell \<Rightarrow> shell" where
  "toggle_quick_panel sh =
     (if sh_panel sh then sh\<lparr>sh_panel := False\<rparr> else sh_emit SPanelShow (sh\<lparr>sh_panel := True\<rparr>))"

definition register_quick_panel :: "desk \<Rightarrow> rstr \<Rightarrow> shell \<Rightarrow> shell \<times> bool" where
  "register_quick_panel w accel sh =
     (if trim accel = [] then (sh, True)
      else if dk_parses w accel \<and> dk_grants w (sh_registered sh) accel
      then (sh\<lparr>sh_registered := sh_registered sh @ [accel]\<rparr>, True)
      else (sh, False))"

definition unregister :: "desk \<Rightarrow> rstr \<Rightarrow> shell \<Rightarrow> shell" where
  "unregister w accel sh =
     (if dk_releases w accel then sh\<lparr>sh_registered := filter (\<lambda>x. x \<noteq> accel) (sh_registered sh)\<rparr> else sh)"

text \<open>Change one field of the saved configuration, when there is one.\<close>

definition sh_update_saved :: "crates \<Rightarrow> aio \<Rightarrow> (config \<Rightarrow> config) \<Rightarrow> shell \<Rightarrow> shell" where
  "sh_update_saved cr i f sh =
     (case config_load cr (sh_disk sh) (sh_cfg_path sh) of
        None \<Rightarrow> sh
      | Some c \<Rightarrow> sh\<lparr>sh_disk := fst (config_save cr (ai_mkdir i) (ai_write i) (sh_disk sh) (sh_cfg_path sh) (f c))\<rparr>)"

definition set_shortcut :: "crates \<Rightarrow> aio \<Rightarrow> desk \<Rightarrow> rstr \<Rightarrow> shell \<Rightarrow> shell \<times> bool" where
  "set_shortcut cr i w accel0 sh =
     (let accel = trim accel0; old = sh_shortcut sh in
      if accel = old then (sh, True)
      else if accel \<noteq> [] \<and> \<not> dk_parses w accel then (sh, False)
      else
        (let sh1 = (if old \<noteq> [] then unregister w old sh else sh);
             (sh2, ok) = register_quick_panel w accel sh1
         in if \<not> ok then (fst (register_quick_panel w old sh2), False)
            else (sh_update_saved cr i (\<lambda>c. c\<lparr>c_quick_panel_shortcut := accel\<rparr>) (sh2\<lparr>sh_shortcut := accel\<rparr>), True)))"

subsection \<open>Tray and windows\<close>

definition build_tray_menu :: "rstr \<Rightarrow> rstr list \<Rightarrow> menu_item list" where
  "build_tray_menu current pools =
     [MItem ''show''] @
     (if pools \<noteq> [] then MSeparator # MItem ''pool_hdr'' # map (\<lambda>p. MPool p (p = current)) pools else []) @
     [MSeparator, MItem ''quit'']"

definition rebuild_tray :: "desk \<Rightarrow> shell \<Rightarrow> shell" where
  "rebuild_tray w sh =
     (if dk_menu w \<and> sh_tray sh \<noteq> None
      then sh\<lparr>sh_tray := Some (build_tray_menu (st_pool (sh_status sh)) (st_pools (sh_status sh)))\<rparr> else sh)"

fun shell_emitter :: "desk \<Rightarrow> ui_event \<Rightarrow> shell \<Rightarrow> shell" where
  "shell_emitter w (UStatus s) sh = rebuild_tray w (sh_emit (SStatus s) sh)"
| "shell_emitter w (UClip v) sh = sh_emit (SClip v) sh"
| "shell_emitter w (URoster r) sh = sh_emit (SRoster r) sh"
| "shell_emitter w (UReconnect n secs) sh = sh_emit (SReconnect n secs) sh"
| "shell_emitter w (UError m) sh = sh_emit (SError (Inl m)) sh"
| "shell_emitter w (UNotify title body) sh = sh_emit (SNotify title body) sh"

definition shell_emitter_cliplog :: "clip_log \<Rightarrow> shell \<Rightarrow> shell" where
  "shell_emitter_cliplog l sh = sh_emit (SCliplog l) sh"

definition hide_toast :: "shell \<Rightarrow> shell" where
  "hide_toast sh = sh\<lparr>sh_toast := False\<rparr>"

definition show_main :: "shell \<Rightarrow> shell" where
  "show_main sh = sh\<lparr>sh_main := True\<rparr>"

subsection \<open>Commands\<close>

definition enqueue :: "cmd \<Rightarrow> shell \<Rightarrow> shell \<times> bool" where
  "enqueue c sh =
     (case sh_tx sh of
        Some (alive, q) \<Rightarrow> if alive then (sh\<lparr>sh_tx := Some (True, q @ [c])\<rparr>, True) else (sh, False)
      | None \<Rightarrow> (sh, False))"

definition sh_send_text :: "rstr \<Rightarrow> shell \<Rightarrow> shell \<times> bool" where
  "sh_send_text t sh = (if t = [] then (sh, True) else enqueue (SendText t) sh)"

definition sh_send_file :: "rstr \<Rightarrow> shell \<Rightarrow> shell \<times> bool" where
  "sh_send_file p sh = enqueue (SendFile p) sh"

definition sh_set_pool :: "rstr \<Rightarrow> shell \<Rightarrow> shell \<times> bool" where
  "sh_set_pool p sh = enqueue (SetPool p) sh"

definition sh_set_targets :: "rstr list \<Rightarrow> shell \<Rightarrow> shell" where
  "sh_set_targets ids sh = sh\<lparr>sh_targets := (if ids = [] then All else Devices ids)\<rparr>"

definition set_privacy_filter :: "crates \<Rightarrow> aio \<Rightarrow> bool \<Rightarrow> shell \<Rightarrow> shell" where
  "set_privacy_filter cr i on sh =
     sh_update_saved cr i (\<lambda>c. c\<lparr>c_exclude_sensitive := on\<rparr>) (sh\<lparr>sh_exclude := on\<rparr>)"

definition set_auto_clear :: "crates \<Rightarrow> aio \<Rightarrow> u64 \<Rightarrow> shell \<Rightarrow> shell" where
  "set_auto_clear cr i secs sh =
     sh_update_saved cr i (\<lambda>c. c\<lparr>c_auto_clear_secs := secs\<rparr>) (sh\<lparr>sh_auto_clear := secs\<rparr>)"

definition set_mark_sensitive :: "crates \<Rightarrow> aio \<Rightarrow> bool \<Rightarrow> shell \<Rightarrow> shell" where
  "set_mark_sensitive cr i on sh =
     sh_update_saved cr i (\<lambda>c. c\<lparr>c_mark_received_sensitive := on\<rparr>) (sh\<lparr>sh_mark := on\<rparr>)"

definition sh_reconnect :: "shell \<Rightarrow> shell" where
  "sh_reconnect sh = sh\<lparr>sh_wakeups := sh_wakeups sh + 1\<rparr>"

definition sh_get_history :: "crates \<Rightarrow> bool \<Rightarrow> rstr option \<Rightarrow> shell \<Rightarrow> entry list option" where
  "sh_get_history cr sql query sh =
     (case query of
        Some q \<Rightarrow> if trim q \<noteq> [] then search cr sql (sh_hist sh) (trim q) 200 else recent cr sql (sh_hist sh) 200
      | None \<Rightarrow> recent cr sql (sh_hist sh) 200)"

definition set_autostart :: "desk \<Rightarrow> bool \<Rightarrow> shell \<Rightarrow> shell \<times> bool" where
  "set_autostart w enabled sh =
     (if dk_autolaunch w = None then (sh, False) else (sh\<lparr>sh_autostart := enabled\<rparr>, True))"

definition get_autostart :: "desk \<Rightarrow> bool" where
  "get_autostart w = (case dk_autolaunch w of Some b \<Rightarrow> b | None \<Rightarrow> False)"

definition discover_servers :: "aio \<Rightarrow> found list option" where
  "discover_servers i = map_option discover (ai_mdns i)"

text \<open>A thumbnail as a data URI; \<open>shrink\<close> is the resizer with its PNG writer.\<close>

definition thumbnail :: "crates \<Rightarrow> (image \<Rightarrow> bytes option) \<Rightarrow> (rstr \<Rightarrow> bytes option) \<Rightarrow> rstr \<Rightarrow> rstr option" where
  "thumbnail cr shrink read path =
     (case read path of
        None \<Rightarrow> None
      | Some content \<Rightarrow>
          if content = [] \<or> length content > 60000000 then None
          else Option.bind (image_load cr content) (\<lambda>img.
               map_option (\<lambda>png. lit ''data:image/png;base64,'' @ b64_encode cr png) (shrink img)))"

text \<open>\<open>read\<close> is what one read of at most 8192 bytes returned.\<close>

definition text_preview :: "(rstr \<Rightarrow> bytes option) \<Rightarrow> rstr \<Rightarrow> rstr option" where
  "text_preview read path = map_option (\<lambda>b. take 600 (from_utf8_lossy (take 8192 b))) (read path)"

subsection \<open>Supervisor\<close>

definition start_sync :: "config \<Rightarrow> shell \<Rightarrow> shell" where
  "start_sync c sh =
     (let sh1 = sh\<lparr>sh_exclude := c_exclude_sensitive c, sh_auto_clear := c_auto_clear_secs c,
                   sh_mark := c_mark_received_sensitive c,
                   sh_status := (sh_status sh)\<lparr>st_paired := True, st_server_name := c_server_name c,
                     st_device_name := c_device_name c, st_server_id := c_server_id c,
                     st_e2e := (c_e2e_pass c \<noteq> [])\<rparr>\<rparr>;
          sh2 = (if sh_supervisor sh1 \<noteq> None then sh1\<lparr>sh_tx := map_option (\<lambda>(_, q). (False, q)) (sh_tx sh1)\<rparr> else sh1)
      in sh2\<lparr>sh_supervisor := Some c, sh_attempt := 0\<rparr>)"

definition sh_launch :: "shell \<Rightarrow> shell" where
  "sh_launch sh = (if sh_supervisor sh = None then sh else sh\<lparr>sh_tx := Some (True, [])\<rparr>)"

definition sh_links :: "desk \<Rightarrow> bool \<Rightarrow> shell \<Rightarrow> shell" where
  "sh_links w retrying sh =
     (let s = (sh_status sh)\<lparr>st_connected := False, st_reconnecting := retrying\<rparr>
      in shell_emitter w (UStatus s) (sh\<lparr>sh_status := s\<rparr>))"

fun sh_actor_ended :: "desk \<Rightarrow> actor_exit \<Rightarrow> shell \<Rightarrow> shell" where
  "sh_actor_ended w ActorDone sh =
     (let sh1 = sh_emit (SError (Inr ActorStopped)) (sh\<lparr>sh_tx := map_option (\<lambda>(_, q). (False, q)) (sh_tx sh)\<rparr>)
      in (sh_links w False sh1)\<lparr>sh_supervisor := None\<rparr>)"
| "sh_actor_ended w ActorCancelled sh =
     sh\<lparr>sh_tx := map_option (\<lambda>(_, q). (False, q)) (sh_tx sh), sh_supervisor := None\<rparr>"
| "sh_actor_ended w ActorPanic sh =
     (let sh1 = sh\<lparr>sh_tx := map_option (\<lambda>(_, q). (False, q)) (sh_tx sh), sh_attempt := saturating_add (sh_attempt sh) 1\<rparr>
      in sh_links w True (sh_emit (SError (Inr ActorRestarts)) sh1))"

definition pair_cmd :: "crates \<Rightarrow> aio \<Rightarrow> rstr \<Rightarrow> rstr \<Rightarrow> rstr \<Rightarrow> rstr \<Rightarrow> rstr \<Rightarrow> shell \<Rightarrow> shell \<times> status option" where
  "pair_cmd cr i server otp name pin e2e_pass sh =
     (case claim cr (ai_get i) (ai_post i) server pin otp name e2e_pass of
        None \<Rightarrow> (sh, None)
      | Some c \<Rightarrow>
          (let (fs, ok) = config_save cr (ai_mkdir i) (ai_write i) (sh_disk sh) (sh_cfg_path sh) c;
               sh1 = sh\<lparr>sh_disk := fs\<rparr>
           in if \<not> ok then (sh1, None)
              else (let sh2 = start_sync c sh1 in (sh2, Some (sh_status sh2)))))"

subsection \<open>Setup and window events\<close>

datatype window_event = CloseRequested bool | LostFocus bool

text \<open>Closing a window hides it, the quick panel also hides when it loses the focus; the flag says
  whether the window is the quick panel.\<close>

fun window_event_step :: "window_event \<Rightarrow> shell \<Rightarrow> shell" where
  "window_event_step (CloseRequested panel) sh = (if panel then sh\<lparr>sh_panel := False\<rparr> else sh\<lparr>sh_main := False\<rparr>)"
| "window_event_step (LostFocus panel) sh = (if panel then sh\<lparr>sh_panel := False\<rparr> else sh)"

text \<open>A click on a tray menu entry, by its id.\<close>

definition menu_event :: "rstr \<Rightarrow> shell \<Rightarrow> shell" where
  "menu_event ident sh =
     (if ident = lit ''show'' then show_main sh
      else if ident = lit ''quit'' then sh\<lparr>sh_exited := True\<rparr>
      else (case strip_prefix ident (lit ''pool:'') of
              Some name \<Rightarrow> fst (enqueue (SetPool name) sh)
            | None \<Rightarrow> sh))"

definition menu_id :: "menu_item \<Rightarrow> rstr" where
  "menu_id m = (case m of MItem s \<Rightarrow> lit s | MSeparator \<Rightarrow> [] | MPool p _ \<Rightarrow> lit ''pool:'' @ p)"

text \<open>\<open>setup\<close>: the state, the saved configuration and hotkey, the engine, the tray and the hotkey's
  registration. \<open>None\<close> when the history or the tray's menu cannot be made.\<close>

definition shell_setup :: "crates \<Rightarrow> desk \<Rightarrow> rstr \<Rightarrow> history option \<Rightarrow> files \<Rightarrow> shell option" where
  "shell_setup cr w dir hist fs =
     (case hist of
        None \<Rightarrow> None
      | Some h \<Rightarrow>
          if \<not> dk_menu w then None
          else
            (let cfg = path_join dir (lit ''config.json'');
                 loaded = config_load cr fs cfg;
                 sh = \<lparr>sh_tx = None, sh_hist = h, sh_status = default_status, sh_roster = [], sh_targets = All,
                       sh_tray = None, sh_cfg_path = cfg, sh_disk = fs, sh_exclude = True,
                       sh_shortcut = (case loaded of Some c \<Rightarrow> c_quick_panel_shortcut c
                                      | None \<Rightarrow> DEFAULT_QUICK_PANEL_SHORTCUT),
                       sh_auto_clear = 0, sh_mark = False, sh_wakeups = 0, sh_supervisor = None, sh_attempt = 0,
                       sh_registered = [], sh_panel = False, sh_main = True, sh_toast = False, sh_clip = CEmpty,
                       sh_autostart = False, sh_exited = False, sh_events = []\<rparr>;
                 sh1 = (case loaded of Some c \<Rightarrow> start_sync c sh | None \<Rightarrow> sh);
                 sh2 = sh1\<lparr>sh_tray := Some (build_tray_menu [] [])\<rparr>
             in Some (fst (register_quick_panel w (sh_shortcut sh2) sh2))))"

end
