(* ===== verification/Shell_Props.thy ===== *)
theory Shell_Props
  imports Shell
begin

text \<open>
  Properties of the Tauri shell: its hotkey, its tray menu, the command channel it shares with the
  agent as an interface, and that it behaves as a host like the agent does.
\<close>

subsection \<open>Interface: a command channel\<close>

text \<open>
  What the clients of a host rely on: a command is accepted exactly while the actor's receiver
  is alive, and then goes to the end of the queue. Both hosts provide it.
\<close>

locale command_channel =
  fixes put :: "'c \<Rightarrow> 's \<Rightarrow> 's \<times> bool"
    and chan :: "'s \<Rightarrow> (bool \<times> 'c list) option"
  assumes put_alive: "chan s = Some (True, q) \<Longrightarrow> snd (put c s) \<and> chan (fst (put c s)) = Some (True, q @ [c])"
    and put_dead: "(\<And>q. chan s \<noteq> Some (True, q)) \<Longrightarrow> put c s = (s, False)"
begin

lemma accepted_iff: "snd (put c s) \<longleftrightarrow> (\<exists>q. chan s = Some (True, q))"
  by (metis put_alive put_dead snd_conv)

lemma run_put: "chan s = Some (True, q) \<Longrightarrow> chan (fold (\<lambda>c s. fst (put c s)) cs s) = Some (True, q @ cs)"
proof (induction cs arbitrary: s q)
  case (Cons c cs)
  have "chan (fst (put c s)) = Some (True, q @ [c])" using put_alive [OF Cons.prems] by simp
  from Cons.IH [OF this] show ?case by simp
qed simp

lemma run_dead: "(\<And>q. chan s \<noteq> Some (True, q)) \<Longrightarrow> fold (\<lambda>c s. fst (put c s)) cs s = s"
  by (induction cs) (simp_all add: put_dead)

end

definition agent_put :: "cmd \<Rightarrow> agent \<Rightarrow> agent \<times> bool" where
  "agent_put c a = (fst (send_cmd c a), snd (send_cmd c a) = ROk)"

interpretation agent_chan: command_channel agent_put a_tx
  by unfold_locales (auto simp: agent_put_def send_cmd_def split: option.splits prod.splits)

interpretation shell_chan: command_channel enqueue sh_tx
  by unfold_locales (auto simp: enqueue_def split: option.splits prod.splits)

subsection \<open>The tray menu\<close>

lemma pool_entry_id: "strip_prefix (menu_id (MPool p b)) (lit ''pool:'') = Some p"
  by (simp add: menu_id_def strip_prefix_def)

lemma pool_entry_switches: "menu_event (menu_id (MPool p b)) sh = fst (enqueue (SetPool p) sh)"
  using pool_entry_id [of p b] by (simp add: menu_event_def menu_id_def)

lemma pool_entries: "{p. \<exists>b. MPool p b \<in> set (build_tray_menu current pools)} = set pools"
  by (auto simp: build_tray_menu_def)

subsection \<open>The quick panel's hotkey\<close>

text \<open>The system owns for the program exactly the hotkey the shell reports.\<close>

definition hotkey_live :: "shell \<Rightarrow> bool" where
  "hotkey_live sh \<longleftrightarrow> sh_registered sh = (if sh_shortcut sh = [] then [] else [sh_shortcut sh])
     \<and> trim (sh_shortcut sh) = sh_shortcut sh"

lemma sh_update_saved_frame [simp]:
  "sh_registered (sh_update_saved cr i f sh) = sh_registered sh" "sh_shortcut (sh_update_saved cr i f sh) = sh_shortcut sh"
  "sh_tx (sh_update_saved cr i f sh) = sh_tx sh" "sh_exclude (sh_update_saved cr i f sh) = sh_exclude sh"
  by (simp_all add: sh_update_saved_def split: option.splits)

lemma register_quick_panel_cases:
  "register_quick_panel w k sh = (if snd (register_quick_panel w k sh) \<and> trim k \<noteq> []
     then (sh\<lparr>sh_registered := sh_registered sh @ [k]\<rparr>, True) else (sh, snd (register_quick_panel w k sh)))"
  by (cases "trim k = []"; cases "dk_parses w k \<and> dk_grants w (sh_registered sh) k") (simp_all add: register_quick_panel_def)

lemma set_shortcut_tried:
  assumes "trim accel \<noteq> sh_shortcut sh" and "trim accel = [] \<or> dk_parses w (trim accel)"
    and "sh1 = (if sh_shortcut sh \<noteq> [] then unregister w (sh_shortcut sh) sh else sh)"
  shows "set_shortcut cr i w accel sh =
    (if snd (register_quick_panel w (trim accel) sh1)
     then (sh_update_saved cr i (\<lambda>c. c\<lparr>c_quick_panel_shortcut := trim accel\<rparr>)
            ((fst (register_quick_panel w (trim accel) sh1))\<lparr>sh_shortcut := trim accel\<rparr>), True)
     else (fst (register_quick_panel w (sh_shortcut sh) (fst (register_quick_panel w (trim accel) sh1))), False))"
proof -
  have "(trim accel \<noteq> [] \<and> \<not> dk_parses w (trim accel)) = False" using assms(2) by blast
  then show ?thesis
    unfolding set_shortcut_def Let_def assms(3) [symmetric]
    by (simp only: assms(1) if_False not_False_eq_True case_prod_beta if_not_P not_not split: if_split) simp
qed

text \<open>C23. Changing the hotkey never costs the user a working one: when the desktop releases hotkeys
  and gives back one it has just released, then after any change, accepted or refused, exactly
  the hotkey the shell reports is registered. An accepted change reports the new hotkey, or
  none for an empty one; a refused change leaves the whole shell as it was.\<close>

theorem hotkey_change_is_atomic:
  assumes "hotkey_live sh" and "dk_releases w (sh_shortcut sh)"
    and "sh_shortcut sh = [] \<or> dk_parses w (sh_shortcut sh) \<and> dk_grants w [] (sh_shortcut sh)"
    and "set_shortcut cr i w accel sh = (sh', ok)"
  shows "hotkey_live sh' \<and> (if ok then sh_shortcut sh' = trim accel else sh' = sh)"
proof (cases "trim accel = sh_shortcut sh \<or> trim accel \<noteq> [] \<and> \<not> dk_parses w (trim accel)")
  case True
  then have "sh' = sh \<and> (ok \<longrightarrow> trim accel = sh_shortcut sh)"
    using assms(4) by (auto simp: set_shortcut_def Let_def split: if_splits)
  then show ?thesis using assms(1) by simp
next
  case False
  define sh1 where "sh1 = (if sh_shortcut sh \<noteq> [] then unregister w (sh_shortcut sh) sh else sh)"
  have sh1: "sh1 = sh\<lparr>sh_registered := []\<rparr>"
    using assms(1,2) by (simp add: sh1_def unregister_def hotkey_live_def)
  have tried: "trim accel \<noteq> sh_shortcut sh" "trim accel = [] \<or> dk_parses w (trim accel)" using False by auto
  note result = set_shortcut_tried [OF tried sh1_def, of cr i]
  let ?r = "register_quick_panel w (trim accel) sh1"
  have trims: "trim (trim accel) = trim accel" by simp
  have trim_nil: "trim [] = []" by (simp add: trim_def trim_end_by_def)
  show ?thesis
  proof (cases "snd ?r")
    case True
    then have "fst ?r = sh\<lparr>sh_registered := (if trim accel = [] then [] else [trim accel])\<rparr>"
      using register_quick_panel_cases [of w "trim accel" sh1] by (simp add: sh1 trims)
    then show ?thesis using assms(4) result True by (auto simp: hotkey_live_def trim_nil)
  next
    case no: False
    then have same: "fst ?r = sh1" using register_quick_panel_cases [of w "trim accel" sh1] by simp
    have restored: "fst (register_quick_panel w (sh_shortcut sh) sh1) = sh"
      using assms(1,3) by (auto simp: register_quick_panel_def sh1 hotkey_live_def)
    have "sh' = sh \<and> \<not> ok" using assms(4) result no same restored by simp
    then show ?thesis using assms(1) by simp
  qed
qed

definition sample_desk :: "rstr list \<Rightarrow> desk" where
  "sample_desk free = \<lparr>dk_parses = (\<lambda>_. True), dk_grants = (\<lambda>_ k. k \<in> set free), dk_releases = (\<lambda>_. True),
     dk_menu = True, dk_autolaunch = None, dk_os = sample_os None\<rparr>"

text \<open>Another program owns the wanted hotkey: the change is refused and the old one is back.\<close>

theorem hotkey_change_is_atomic_witness:
  "\<exists>sh. shell_setup sample_crates (sample_desk [DEFAULT_QUICK_PANEL_SHORTCUT]) (lit ''/c'') (Some open_in_memory) Map.empty = Some sh
     \<and> set_shortcut sample_crates sample_aio (sample_desk [DEFAULT_QUICK_PANEL_SHORTCUT]) (lit ''Alt+X'') sh = (sh, False)"
proof -
  let ?w = "sample_desk [DEFAULT_QUICK_PANEL_SHORTCUT]"
  have tr: "trim DEFAULT_QUICK_PANEL_SHORTCUT = DEFAULT_QUICK_PANEL_SHORTCUT" "DEFAULT_QUICK_PANEL_SHORTCUT \<noteq> []"
    by (simp_all add: DEFAULT_QUICK_PANEL_SHORTCUT_def trim_def trim_end_by_def is_whitespace_def)
  obtain sh where sh: "shell_setup sample_crates ?w (lit ''/c'') (Some open_in_memory) Map.empty = Some sh"
    and live: "sh_shortcut sh = DEFAULT_QUICK_PANEL_SHORTCUT" "sh_registered sh = [DEFAULT_QUICK_PANEL_SHORTCUT]"
    using tr by (simp add: shell_setup_def Let_def config_load_def register_quick_panel_def sample_desk_def)
  have h: "hotkey_live sh" using live tr by (simp add: hotkey_live_def)
  obtain sh' ok where s: "set_shortcut sample_crates sample_aio ?w (lit ''Alt+X'') sh = (sh', ok)" by (meson surj_pair)
  have "trim (lit ''Alt+X'') \<noteq> DEFAULT_QUICK_PANEL_SHORTCUT" "trim (lit ''Alt+X'') \<noteq> []"
    by (simp_all add: DEFAULT_QUICK_PANEL_SHORTCUT_def trim_def trim_end_by_def is_whitespace_def)
  then have "\<not> ok"
    using s live by (auto simp: set_shortcut_def Let_def case_prod_beta register_quick_panel_def sample_desk_def
        unregister_def split: if_splits)
  moreover have "dk_releases ?w (sh_shortcut sh)" "dk_parses ?w (sh_shortcut sh) \<and> dk_grants ?w [] (sh_shortcut sh)"
    using live by (simp_all add: sample_desk_def)
  ultimately show ?thesis using hotkey_change_is_atomic [OF h _ _ s] sh s by auto
qed

subsection \<open>Two hosts, one behaviour\<close>

text \<open>The shell and the agent are in the same state as hosts of the engine.\<close>

definition same_host :: "shell \<Rightarrow> agent \<Rightarrow> bool" where
  "same_host sh a \<longleftrightarrow> sh_tx sh = a_tx a \<and> sh_hist sh = a_hist a \<and> sh_status sh = a_status a
     \<and> sh_targets sh = a_targets a \<and> sh_cfg_path sh = a_cfg_path a \<and> sh_disk sh = a_disk a
     \<and> sh_exclude sh = a_exclude a \<and> sh_auto_clear sh = a_auto_clear a \<and> sh_mark sh = a_mark a
     \<and> sh_wakeups sh = a_wakeups a \<and> sh_supervisor sh = a_supervisor a \<and> sh_attempt sh = a_attempt a"

text \<open>The shell's command for a request of the agent's vocabulary, and whether it succeeded.\<close>

fun shell_do :: "crates \<Rightarrow> aio \<Rightarrow> request \<Rightarrow> shell \<Rightarrow> (shell \<times> bool) option" where
  "shell_do cr i (ReqSendText t) sh = Some (sh_send_text t sh)"
| "shell_do cr i (ReqSendFile p) sh = Some (sh_send_file p sh)"
| "shell_do cr i (ReqSetPool p) sh = Some (sh_set_pool p sh)"
| "shell_do cr i (SetTargets ids) sh = Some (sh_set_targets ids sh, True)"
| "shell_do cr i (SetPrivacyFilter on) sh = Some (set_privacy_filter cr i on sh, True)"
| "shell_do cr i (SetAutoClear secs) sh = Some (set_auto_clear cr i secs sh, True)"
| "shell_do cr i (SetMarkSensitive on) sh = Some (set_mark_sensitive cr i on sh, True)"
| "shell_do cr i ReqReconnect sh = Some (sh_reconnect sh, True)"
| "shell_do cr i (Pair server otp name pin pass) sh =
     (let (sh', r) = pair_cmd cr i server otp name pin pass sh in Some (sh', r \<noteq> None))"
| "shell_do cr i (GetHistory q) sh = Some (sh, sh_get_history cr (ai_sql i) q sh \<noteq> None)"
| "shell_do cr i DiscoverServers sh = Some (sh, discover_servers i \<noteq> None)"
| "shell_do cr i _ sh = None"

fun succeeded :: "response \<Rightarrow> bool" where
  "succeeded (RError _) = False"
| "succeeded _ = True"

lemma same_host_simps:
  "same_host sh a \<Longrightarrow> sh_tx sh = a_tx a \<and> sh_hist sh = a_hist a \<and> sh_status sh = a_status a
     \<and> sh_cfg_path sh = a_cfg_path a \<and> sh_disk sh = a_disk a \<and> sh_supervisor sh = a_supervisor a"
  by (simp add: same_host_def)

lemma same_host_enqueue:
  assumes "same_host sh a"
  shows "same_host (fst (enqueue c sh)) (fst (send_cmd c a)) \<and> (snd (enqueue c sh) \<longleftrightarrow> succeeded (snd (send_cmd c a)))"
  using assms by (auto simp: same_host_def enqueue_def send_cmd_def split: option.splits prod.splits)

lemma same_host_saved:
  assumes "same_host sh a"
  shows "same_host (sh_update_saved cr i f sh) (update_saved cr i f a)"
  using assms by (simp add: same_host_def sh_update_saved_def update_saved_def split: option.splits)

lemma same_host_start:
  "same_host sh a \<Longrightarrow> same_host (start_sync c sh) (start stamp c a)"
  by (simp add: same_host_def start_sync_def start_def tlog_def Let_def)

lemma same_host_tlog: "same_host sh (tlog stamp lvl m a) = same_host sh a"
  by (simp add: same_host_def tlog_def)

lemma same_host_pair:
  assumes "same_host sh a"
  shows "same_host (fst (pair_cmd cr i s otp n p e sh)) (fst (handle_request cr i (Pair s otp n p e) a))
    \<and> (snd (pair_cmd cr i s otp n p e sh) \<noteq> None \<longleftrightarrow> succeeded (snd (handle_request cr i (Pair s otp n p e) a)))"
proof (cases "claim cr (ai_get i) (ai_post i) s p otp n e")
  case None
  then show ?thesis using assms by (simp add: pair_cmd_def same_host_tlog)
next
  case (Some c)
  obtain fs ok where save: "config_save cr (ai_mkdir i) (ai_write i) (a_disk a) (a_cfg_path a) c = (fs, ok)"
    by (meson surj_pair)
  have disk: "same_host (sh\<lparr>sh_disk := fs\<rparr>) (a\<lparr>a_disk := fs\<rparr>)" using assms by (simp add: same_host_def)
  then have "same_host (start_sync c (sh\<lparr>sh_disk := fs\<rparr>))
      (start (ai_stamp i) c (tlog (ai_stamp i) ''info'' TPaired (a\<lparr>a_disk := fs\<rparr>)))"
    by (intro same_host_start) (simp add: same_host_tlog)
  with Some save disk same_host_simps [OF assms] show ?thesis
    by (cases ok) (simp_all add: pair_cmd_def Let_def)
qed

lemma request_refines:
  assumes "same_host sh a" and "shell_do cr i r sh = Some (sh', ok)"
    and "handle_request cr i r a = (a', resp)"
  shows "same_host sh' a' \<and> (ok \<longleftrightarrow> succeeded resp)"
proof (cases r)
  case (Pair s otp n p e)
  then show ?thesis using assms same_host_pair [OF assms(1), of cr i s otp n p e]
    by (simp add: case_prod_beta del: handle_request.simps)
next
  case (GetHistory q)
  then show ?thesis using assms same_host_simps [OF assms(1)]
    by (auto simp: sh_get_history_def Let_def split: option.splits if_splits)
next
  case (ReqSendText t)
  then show ?thesis using assms same_host_enqueue [OF assms(1), of "SendText t"]
    by (auto simp: sh_send_text_def split: if_splits)
next
  case (ReqSendFile p)
  then show ?thesis using assms same_host_enqueue [OF assms(1), of "SendFile p"] by (simp add: sh_send_file_def)
next
  case (ReqSetPool p)
  then show ?thesis using assms same_host_enqueue [OF assms(1), of "SetPool p"] by (simp add: sh_set_pool_def)
next
  case (SetPrivacyFilter on)
  have "same_host (sh\<lparr>sh_exclude := on\<rparr>) (a\<lparr>a_exclude := on\<rparr>)" using assms(1) by (simp add: same_host_def)
  then show ?thesis using SetPrivacyFilter assms(2,3) same_host_saved by (auto simp: set_privacy_filter_def)
next
  case (SetAutoClear secs)
  have "same_host (sh\<lparr>sh_auto_clear := secs\<rparr>) (a\<lparr>a_auto_clear := secs\<rparr>)" using assms(1) by (simp add: same_host_def)
  then show ?thesis using SetAutoClear assms(2,3) same_host_saved by (auto simp: set_auto_clear_def)
next
  case (SetMarkSensitive on)
  have "same_host (sh\<lparr>sh_mark := on\<rparr>) (a\<lparr>a_mark := on\<rparr>)" using assms(1) by (simp add: same_host_def)
  then show ?thesis using SetMarkSensitive assms(2,3) same_host_saved by (auto simp: set_mark_sensitive_def)
next
  case (SetTargets ids)
  have "same_host (sh_set_targets ids sh) (fst (handle_request cr i (SetTargets ids) a))"
    using assms(1) by (simp add: same_host_def sh_set_targets_def)
  then show ?thesis using assms(2,3) SetTargets by auto
next
  case ReqReconnect
  have "same_host (sh_reconnect sh) (fst (handle_request cr i ReqReconnect a))"
    using assms(1) by (simp add: same_host_def sh_reconnect_def)
  then show ?thesis using assms(2,3) ReqReconnect by auto
next
  case DiscoverServers
  then show ?thesis using assms by (auto simp: discover_servers_def split: option.splits)
qed (use assms(2) in simp_all)

lemmas request_same_host = request_refines [THEN conjunct1]

text \<open>The two hosts of the engine behave alike: from corresponding states, every command of the
  shell and the agent's request for it lead to corresponding states, with the same saved
  configuration, queue, settings and supervised engine, and one succeeds exactly when the
  other does.\<close>

theorem shell_refines_agent:
  assumes "same_host sh a" and "shell_do cr i r sh = Some (sh', ok)"
    and "handle_request cr i r a = (a', resp)"
  shows "same_host sh' a' \<and> (ok \<longleftrightarrow> succeeded resp)"
  by (rule request_refines [OF assms])

definition shell_like :: "agent \<Rightarrow> shell" where
  "shell_like a = \<lparr>sh_tx = a_tx a, sh_hist = a_hist a, sh_status = a_status a, sh_roster = [], sh_targets = a_targets a,
     sh_tray = None, sh_cfg_path = a_cfg_path a, sh_disk = a_disk a, sh_exclude = a_exclude a, sh_shortcut = [],
     sh_auto_clear = a_auto_clear a, sh_mark = a_mark a, sh_wakeups = a_wakeups a, sh_supervisor = a_supervisor a,
     sh_attempt = a_attempt a, sh_registered = [], sh_panel = False, sh_main = True, sh_toast = False, sh_clip = CEmpty,
     sh_autostart = False, sh_exited = False, sh_events = []\<rparr>"

text \<open>Both hosts queue a text for the engine they run.\<close>

theorem shell_refines_agent_witness:
  "\<exists>sh' a'. shell_do sample_crates sample_aio (ReqSendText [104, 105]) (shell_like (sample_agent\<lparr>a_tx := Some (True, [])\<rparr>))
       = Some (sh', True)
     \<and> handle_request sample_crates sample_aio (ReqSendText [104, 105]) (sample_agent\<lparr>a_tx := Some (True, [])\<rparr>) = (a', ROk)
     \<and> same_host sh' a' \<and> sh_tx sh' = Some (True, [SendText [104, 105]])"
proof -
  let ?a = "sample_agent\<lparr>a_tx := Some (True, [])\<rparr>" and ?r = "ReqSendText [104, 105]"
  have s: "shell_do sample_crates sample_aio ?r (shell_like ?a)
      = Some ((shell_like ?a)\<lparr>sh_tx := Some (True, [SendText [104, 105]])\<rparr>, True)"
    by (simp add: sh_send_text_def enqueue_def shell_like_def)
  have a: "handle_request sample_crates sample_aio ?r ?a = (?a\<lparr>a_tx := Some (True, [SendText [104, 105]])\<rparr>, ROk)"
    by (simp add: send_cmd_def)
  have "same_host (shell_like ?a) ?a" by (simp add: same_host_def shell_like_def)
  from shell_refines_agent [OF this s a]
  have "same_host ((shell_like ?a)\<lparr>sh_tx := Some (True, [SendText [104, 105]])\<rparr>) (?a\<lparr>a_tx := Some (True, [SendText [104, 105]])\<rparr>)" ..
  then show ?thesis using s a by (metis (no_types, lifting) shell.select_convs(1) shell.surjective shell.update_convs(1))
qed

lemma same_host_ended:
  assumes "same_host sh a"
  shows "same_host (sh_actor_ended w x sh) (actor_ended i x a)" "same_host (sh_launch sh) (launch a)"
  using assms
  by (cases x; simp add: same_host_def sh_links_def sh_emit_def rebuild_tray_def receiver_gone_def set_links_def
      tlog_def broadcast_def Let_def)
    (use assms in \<open>simp add: same_host_def sh_launch_def launch_def\<close>)

text \<open>Over any number of commands the queues of the two hosts stay equal.\<close>

lemma hosts_queue_alike:
  assumes "same_host sh a"
  shows "sh_tx (fold (\<lambda>c s. fst (enqueue c s)) cs sh) = a_tx (fold (\<lambda>c b. fst (agent_put c b)) cs a)"
proof (cases "\<exists>q. a_tx a = Some (True, q)")
  case True
  then obtain q where q: "a_tx a = Some (True, q)" by blast
  have "sh_tx sh = Some (True, q)" using assms q by (simp add: same_host_def)
  then show ?thesis using agent_chan.run_put [OF q] shell_chan.run_put by metis
next
  case False
  then have dead: "\<And>q. a_tx a \<noteq> Some (True, q)" "\<And>q. sh_tx sh \<noteq> Some (True, q)"
    using assms by (auto simp: same_host_def)
  show ?thesis using agent_chan.run_dead [OF dead(1)] shell_chan.run_dead [OF dead(2)] assms by (simp add: same_host_def)
qed

end
