(* ===== verification/Daemon.thy ===== *)
theory Daemon
  imports Agent_Serve Engine_Props
begin

text \<open>
  The daemon as a whole: the agent and the engine's actor over their shared state
  (\<open>SharedState::engine_state\<close> and \<open>Engine::start\<close> of \<open>agent/src/main.rs\<close>). The history, the
  status, the roster, the targets, the flags and the disk are shared, so an actor step reads
  them from the agent and writes them back, and the callbacks it makes go through the emitter.
\<close>

record daemon_state =
  dm_agent :: agent
  dm_phase :: phase
  dm_pin :: bytes
  dm_eng :: eng

definition engine_state :: "agent \<Rightarrow> eng \<Rightarrow> eng" where
  "engine_state a g = g\<lparr>g_hist := a_hist a, g_status := a_status a, g_roster := a_roster a,
     g_targets := a_targets a, g_exclude := a_exclude a, g_auto_clear := a_auto_clear a, g_mark := a_mark a,
     g_cfg_path := a_cfg_path a, g_disk := a_disk a\<rparr>"

text \<open>What the agent sees of an actor step that led from \<open>g0\<close> to \<open>g\<close>.\<close>

definition absorb :: "rstr \<Rightarrow> eng \<Rightarrow> eng \<Rightarrow> agent \<Rightarrow> agent" where
  "absorb stamp g0 g a =
     fold (emitter stamp) (drop (length (g_ui g0)) (g_ui g))
       (a\<lparr>a_hist := g_hist g, a_status := g_status g, a_disk := g_disk g\<rparr>)"

text \<open>
  What can happen next: a client's request, the supervisor launching the actor, the clipboard
  watcher or a client having put a command on the channel that the actor takes, anything else
  that wakes the actor, or a panic from below the actor.
\<close>

datatype daemon_event =
    DRequest request
  | DLaunch
  | DWatched cmd
  | DTake
  | DActor run_event
  | DPanic

definition actor_running :: "daemon_state \<Rightarrow> bool" where
  "actor_running d \<longleftrightarrow> dm_phase d = Dialing \<or> dm_phase d = Connected"

definition run_actor :: "crates \<Rightarrow> aio \<Rightarrow> run_event \<Rightarrow> (nat \<Rightarrow> io) \<Rightarrow> daemon_state \<Rightarrow> daemon_state" where
  "run_actor cr i ev ios d =
     (let g0 = engine_state (dm_agent d) (dm_eng d);
          (ph, g) = run_step cr (dm_pin d) (ev, ios) (dm_phase d, g0);
          a = absorb (ai_stamp i) g0 g (dm_agent d)
      in \<lparr>dm_agent = (case ph of Stopped \<Rightarrow> actor_ended i ActorDone a
                              | Crashed \<Rightarrow> actor_ended i ActorPanic a | _ \<Rightarrow> a),
          dm_phase = ph, dm_pin = dm_pin d, dm_eng = g\<rparr>)"

definition launch_actor :: "crates \<Rightarrow> aio \<Rightarrow> daemon_state \<Rightarrow> daemon_state" where
  "launch_actor cr i d =
     (case a_supervisor (dm_agent d) of
        None \<Rightarrow> d
      | Some c \<Rightarrow>
          (let a = launch (dm_agent d); g0 = engine_state a (dm_eng d) in
           case run_init cr c g0 of
             Some (pin, g) \<Rightarrow> \<lparr>dm_agent = a, dm_phase = Dialing, dm_pin = pin, dm_eng = g\<rparr>
           | None \<Rightarrow>
               (let g = run_bad_pin g0
                in d\<lparr>dm_agent := actor_ended i ActorDone (absorb (ai_stamp i) g0 g a),
                     dm_phase := Stopped, dm_eng := g\<rparr>)))"

fun daemon_step :: "crates \<Rightarrow> daemon_event \<times> aio \<times> (nat \<Rightarrow> io) \<Rightarrow> daemon_state \<Rightarrow> daemon_state" where
  "daemon_step cr (DRequest r, i, ios) d =
     (let a = fst (handle_request cr i r (dm_agent d))
      in d\<lparr>dm_agent := a, dm_phase := (if accepting (dm_agent d) \<and> \<not> accepting a then Stopped else dm_phase d)\<rparr>)"
| "daemon_step cr (DLaunch, i, ios) d = (if actor_running d then d else launch_actor cr i d)"
| "daemon_step cr (DWatched c, i, ios) d = d\<lparr>dm_agent := fst (send_cmd c (dm_agent d))\<rparr>"
| "daemon_step cr (DTake, i, ios) d =
     (case a_tx (dm_agent d) of
        Some (True, c # q) \<Rightarrow>
          if dm_phase d = Connected
          then run_actor cr i (Looped (Command (Some c))) ios (d\<lparr>dm_agent := take_cmd (dm_agent d)\<rparr>) else d
      | _ \<Rightarrow> d)"
| "daemon_step cr (DActor ev, i, ios) d =
     (case ev of
        Looped (Command _) \<Rightarrow> d
      | _ \<Rightarrow> if actor_running d then run_actor cr i ev ios d else d)"
| "daemon_step cr (DPanic, i, ios) d =
     (if actor_running d then d\<lparr>dm_agent := actor_ended i ActorPanic (dm_agent d), dm_phase := Crashed\<rparr> else d)"

subsection \<open>What a step leaves alone\<close>

lemma emitter_frame [simp]:
  "a_exclude (emitter s e a) = a_exclude a" "a_supervisor (emitter s e a) = a_supervisor a"
  "a_disk (emitter s e a) = a_disk a" "a_auto_clear (emitter s e a) = a_auto_clear a"
  "a_mark (emitter s e a) = a_mark a" "a_telemetry (emitter s e a) = a_telemetry a"
  "a_tx (emitter s e a) = a_tx a" "a_cfg_path (emitter s e a) = a_cfg_path a"
  by (cases e; simp add: broadcast_def tlog_def)+

lemma fold_emitter_frame [simp]:
  "a_exclude (fold (emitter s) es a) = a_exclude a" "a_supervisor (fold (emitter s) es a) = a_supervisor a"
  "a_disk (fold (emitter s) es a) = a_disk a" "a_auto_clear (fold (emitter s) es a) = a_auto_clear a"
  "a_mark (fold (emitter s) es a) = a_mark a" "a_telemetry (fold (emitter s) es a) = a_telemetry a"
  "a_tx (fold (emitter s) es a) = a_tx a" "a_cfg_path (fold (emitter s) es a) = a_cfg_path a"
  by (induction es arbitrary: a) simp_all

lemma absorb_frame [simp]:
  "a_exclude (absorb s g0 g a) = a_exclude a" "a_supervisor (absorb s g0 g a) = a_supervisor a"
  "a_disk (absorb s g0 g a) = g_disk g" "a_auto_clear (absorb s g0 g a) = a_auto_clear a"
  "a_mark (absorb s g0 g a) = a_mark a" "a_telemetry (absorb s g0 g a) = a_telemetry a"
  "a_tx (absorb s g0 g a) = a_tx a" "a_cfg_path (absorb s g0 g a) = a_cfg_path a"
  by (simp_all add: absorb_def)

lemma ended_frame [simp]:
  "a_exclude (actor_ended i x a) = a_exclude a" "a_disk (actor_ended i x a) = a_disk a"
  "a_cfg_path (actor_ended i x a) = a_cfg_path a" "a_auto_clear (actor_ended i x a) = a_auto_clear a"
  "a_supervisor (actor_ended i ActorPanic a) = a_supervisor a"
  by (cases x; simp add: receiver_gone_def set_links_def tlog_def broadcast_def Let_def)+

lemma small_frames [simp]:
  "a_exclude (launch a) = a_exclude a" "a_disk (launch a) = a_disk a" "a_supervisor (launch a) = a_supervisor a"
  "a_cfg_path (launch a) = a_cfg_path a"
  "a_exclude (take_cmd a) = a_exclude a" "a_disk (take_cmd a) = a_disk a" "a_supervisor (take_cmd a) = a_supervisor a"
  "a_exclude (fst (send_cmd c a)) = a_exclude a"
  by (simp_all add: launch_def take_cmd_def send_cmd_def split: option.splits)

subsection \<open>The privacy filter, from the client to the wire\<close>

lemma claim_exclude: "claim cr get post base pin otp name pass = Some c \<Longrightarrow> c_exclude_sensitive c"
  by (auto simp: claim_def bind_eq_Some_conv split: if_splits)

lemma request_exclude:
  assumes "a_exclude a" and "r \<noteq> SetPrivacyFilter False"
  shows "a_exclude (fst (handle_request cr i r a))"
proof (cases r)
  case (Pair s otp n p e)
  then show ?thesis
    using assms by (auto simp: start_def tlog_def case_prod_beta Let_def claim_exclude split: option.splits)
qed (use assms in \<open>auto simp: tlog_def Let_def\<close>)

lemma launch_actor_exclude: "a_exclude (dm_agent (launch_actor cr i d)) = a_exclude (dm_agent d)"
  by (simp add: launch_actor_def Let_def del: actor_ended.simps split: option.splits prod.splits)

lemma run_actor_exclude: "a_exclude (dm_agent (run_actor cr i ev ios d)) = a_exclude (dm_agent d)"
  by (simp add: run_actor_def Let_def case_prod_beta del: actor_ended.simps split: phase.splits)

lemma daemon_exclude:
  assumes "a_exclude (dm_agent d)" and "e \<noteq> DRequest (SetPrivacyFilter False)"
  shows "a_exclude (dm_agent (daemon_step cr (e, i, ios) d))"
proof (cases e)
  case (DRequest r)
  then show ?thesis using assms request_exclude [of "dm_agent d" r] by (simp add: Let_def)
next
  case DTake
  then show ?thesis
    using assms(1) by (simp add: run_actor_exclude split: option.splits prod.splits list.splits bool.splits)
next
  case (DActor ev)
  then show ?thesis
    using assms(1) by (simp add: run_actor_exclude split: run_event.splits loop_event.splits)
qed (use assms(1) in \<open>simp_all add: launch_actor_exclude del: actor_ended.simps\<close>)

lemma filtered_text_wire:
  assumes "g_exclude g" and "classify (alnum_table cr) text (g_customs g) \<noteq> None"
  shows "\<exists>g'. on_local_text cr i text html g = (g', Go) \<and> g_wire g' = g_wire g"
  using assms by (auto simp: on_local_text_def Let_def case_prod_beta)

lemma daemon_exclude_run:
  assumes "a_exclude (dm_agent d)" and "\<forall>(e, i, ios) \<in> set es. e \<noteq> DRequest (SetPrivacyFilter False)"
  shows "a_exclude (dm_agent (fold (daemon_step cr) es d))"
  using assms
proof (induction es arbitrary: d)
  case (Cons x es)
  obtain e j js where x: "x = (e, j, js)" by (cases x)
  have "a_exclude (dm_agent (daemon_step cr x d))"
    using Cons.prems x daemon_exclude by auto
  with Cons show ?case by simp
qed simp

lemma flagged_text_stays:
  assumes ex: "a_exclude (dm_agent d)"
    and "a_tx (dm_agent d) = Some (True, LocalText text html # q)"
    and "classify (alnum_table cr) text (g_customs (dm_eng d)) \<noteq> None"
  shows "g_wire (dm_eng (daemon_step cr (DTake, i, ios) d)) = g_wire (dm_eng d)"
proof (cases "dm_phase d = Connected")
  case True
  define g0 where "g0 = engine_state (take_cmd (dm_agent d)) (dm_eng d)"
  have g0: "g_exclude g0" "g_customs g0 = g_customs (dm_eng d)" "g_wire g0 = g_wire (dm_eng d)"
    using ex by (simp_all add: g0_def engine_state_def)
  obtain g' where g': "on_local_text cr (ios 0) text html g0 = (g', Go)" "g_wire g' = g_wire g0"
    using filtered_text_wire [of g0 cr "text" "ios 0" html] g0 assms(3) by auto
  have "dm_eng (daemon_step cr (DTake, i, ios) d) = g'"
    using True assms(2) g'(1) by (simp add: run_actor_def Let_def g0_def [symmetric])
  then show ?thesis using g'(2) g0(3) by simp
qed (use assms(2) in simp)

text \<open>C1. Once the privacy filter is on, sensitive text that is copied on this device never leaves it,
  whatever the daemon goes through: requests of any client short of the one that turns the
  filter off, new pairings, reconnects, panics and restarts of the engine. At any later
  moment, taking a flagged text from the watcher adds no frame to the socket.\<close>

theorem filter_holds_across_restarts:
  assumes "a_exclude (dm_agent d0)"
    and "\<forall>(e, i, ios) \<in> set es. e \<noteq> DRequest (SetPrivacyFilter False)"
    and "d = fold (daemon_step cr) es d0"
    and "a_tx (dm_agent d) = Some (True, LocalText text html # q)"
    and "classify (alnum_table cr) text (g_customs (dm_eng d)) \<noteq> None"
  shows "g_wire (dm_eng (daemon_step cr (DTake, i, ios) d)) = g_wire (dm_eng d)"
proof -
  have "a_exclude (dm_agent d)" unfolding assms(3) by (rule daemon_exclude_run [OF assms(1,2)])
  then show ?thesis by (rule flagged_text_stays [OF _ assms(4,5)])
qed

definition sample_daemon :: "cmd list \<Rightarrow> daemon_state" where
  "sample_daemon q = \<lparr>dm_agent = sample_agent\<lparr>a_tx := Some (True, q)\<rparr>, dm_phase = Connected,
     dm_pin = replicate 32 65, dm_eng = sample_eng\<rparr>"

theorem filter_holds_across_restarts_witness:
  "let d = fold (daemon_step wire_crates) [(DRequest ReqReconnect, sample_aio, \<lambda>_. sample_io)]
             (sample_daemon [LocalText (lit ''otpauth://totp/x'') None])
   in g_wire (dm_eng (daemon_step wire_crates (DTake, sample_aio, \<lambda>_. sample_io) d)) = []"
proof -
  let ?es = "[(DRequest ReqReconnect, sample_aio, \<lambda>_ :: nat. sample_io)]"
  define d where "d = fold (daemon_step wire_crates) ?es (sample_daemon [LocalText (lit ''otpauth://totp/x'') None])"
  have 1: "a_exclude (dm_agent (sample_daemon [LocalText (lit ''otpauth://totp/x'') None]))"
    by (simp add: sample_daemon_def sample_agent_def)
  have 2: "a_tx (dm_agent d) = Some (True, [LocalText (lit ''otpauth://totp/x'') None])" "dm_eng d = sample_eng"
    by (simp_all add: d_def sample_daemon_def Let_def)
  have 3: "classify (alnum_table wire_crates) (lit ''otpauth://totp/x'') (g_customs (dm_eng d)) \<noteq> None"
    unfolding 2(2)
    by (simp add: classify_def trim_def trim_end_by_def is_whitespace_def utf8_width_def ascii_lower_def Let_def)
  have 4: "\<forall>(e, i, ios) \<in> set ?es. e \<noteq> DRequest (SetPrivacyFilter False)" by simp
  have "g_wire (dm_eng (daemon_step wire_crates (DTake, sample_aio, \<lambda>_. sample_io) d)) = g_wire (dm_eng d)"
    by (rule filter_holds_across_restarts [OF 1 4 d_def 2(1) 3])
  then show ?thesis unfolding d_def [symmetric] Let_def 2(2) by (simp add: sample_eng_def)
qed

subsection \<open>A text sent by a client\<close>

lemma send_text_ok:
  assumes "new_text cr (io_id i) (io_ts i) (io_nonce i) (io_nonce_html i) (g_seq g + 1) t html (g_key g) (g_targets g) = Ok ev"
    and "encode cr T_CLIP (clip_to_json ev) = Some enc" and "g_max_msg g \<le> 0 \<or> int (length enc) \<le> g_max_msg g"
    and "io_send i"
  shows "\<exists>g'. send_text_clip cr i t html g = Ok (g', True) \<and> g_wire g' = g_wire g @ [(T_CLIP, clip_to_json ev)]"
proof -
  have "\<not> (g_max_msg g > 0 \<and> int (length enc) > g_max_msg g)" using assms(3) by auto
  then show ?thesis
    using assms(1,2,4) by (simp add: send_text_clip_def current_targets_def Let_def ws_send_def)
qed

lemma queued_text_written:
  assumes "a_tx (dm_agent d) = Some (True, [SendText t])" and "dm_phase d = Connected"
    and "new_text cr (io_id (ios 0)) (io_ts (ios 0)) (io_nonce (ios 0)) (io_nonce_html (ios 0)) (g_seq (dm_eng d) + 1)
           t None (g_key (dm_eng d)) (a_targets (dm_agent d)) = Ok ev"
    and "encode cr T_CLIP (clip_to_json ev) = Some enc"
    and "g_max_msg (dm_eng d) \<le> 0 \<or> int (length enc) \<le> g_max_msg (dm_eng d)" and "io_send (ios 0)"
    and "d' = daemon_step cr (DTake, i, ios) d"
  shows "g_wire (dm_eng d') = g_wire (dm_eng d) @ [(T_CLIP, clip_to_json ev)]
    \<and> ev_targets ev = a_targets (dm_agent d) \<and> dm_phase d' = Connected \<and> a_tx (dm_agent d') = Some (True, [])"
proof -
  define g0 where "g0 = engine_state (take_cmd (dm_agent d)) (dm_eng d)"
  have g0: "g_wire g0 = g_wire (dm_eng d)" "g_seq g0 = g_seq (dm_eng d)" "g_key g0 = g_key (dm_eng d)"
    "g_targets g0 = a_targets (dm_agent d)" "g_max_msg g0 = g_max_msg (dm_eng d)"
    by (simp_all add: g0_def take_cmd_def engine_state_def)
  obtain g' where g': "send_text_clip cr (ios 0) t None g0 = Ok (g', True)"
    "g_wire g' = g_wire g0 @ [(T_CLIP, clip_to_json ev)]"
    using send_text_ok [of cr "ios 0" g0 t None ev enc] assms(3-6) unfolding g0 by blast
  have "d' = run_actor cr i (Looped (Command (Some (SendText t)))) ios (d\<lparr>dm_agent := take_cmd (dm_agent d)\<rparr>)"
    using assms(1,2) unfolding assms(7) by simp
  then have "dm_eng d' = g'" "dm_phase d' = Connected"
    "dm_agent d' = absorb (ai_stamp i) g0 g' (take_cmd (dm_agent d))"
    using g'(1) assms(2) by (simp_all add: run_actor_def Let_def g0_def [symmetric] of_send_def)
  then show ?thesis
    using assms(1) g'(2) g0(1) new_text_fields(5) [OF assms(3)] by (simp add: take_cmd_def)
qed

text \<open>A text that a client asks the daemon to send goes out: with the actor connected and its
  queue empty, the request is acknowledged and the actor then writes exactly one clip frame,
  addressed to the targets the client chose, when the clip can be built and fits the server's
  frame limit. The privacy filter does not apply to a text that was sent explicitly.\<close>

theorem client_text_goes_out:
  assumes "a_tx (dm_agent d) = Some (True, [])" and "dm_phase d = Connected" and "t \<noteq> []"
    and "new_text cr (io_id (ios 0)) (io_ts (ios 0)) (io_nonce (ios 0)) (io_nonce_html (ios 0)) (g_seq (dm_eng d) + 1)
           t None (g_key (dm_eng d)) (a_targets (dm_agent d)) = Ok ev"
    and "encode cr T_CLIP (clip_to_json ev) = Some enc"
    and "g_max_msg (dm_eng d) \<le> 0 \<or> int (length enc) \<le> g_max_msg (dm_eng d)" and "io_send (ios 0)"
    and "d' = daemon_step cr (DTake, i, ios) (daemon_step cr (DRequest (ReqSendText t), i, ios) d)"
  shows "snd (handle_request cr i (ReqSendText t) (dm_agent d)) = ROk
    \<and> g_wire (dm_eng d') = g_wire (dm_eng d) @ [(T_CLIP, clip_to_json ev)]
    \<and> ev_targets ev = a_targets (dm_agent d) \<and> dm_phase d' = Connected \<and> a_tx (dm_agent d') = Some (True, [])"
proof -
  define d1 where "d1 = d\<lparr>dm_agent := (dm_agent d)\<lparr>a_tx := Some (True, [SendText t])\<rparr>\<rparr>"
  have d1: "daemon_step cr (DRequest (ReqSendText t), i, ios) d = d1"
    and ok: "snd (handle_request cr i (ReqSendText t) (dm_agent d)) = ROk"
    using assms(1,3) by (simp_all add: send_cmd_def d1_def Let_def accepting_def)
  have "g_wire (dm_eng d') = g_wire (dm_eng d1) @ [(T_CLIP, clip_to_json ev)]
      \<and> ev_targets ev = a_targets (dm_agent d1) \<and> dm_phase d' = Connected \<and> a_tx (dm_agent d') = Some (True, [])"
    by (rule queued_text_written [of d1 t cr ios ev enc]) (use assms d1 in \<open>simp_all add: d1_def\<close>)
  then show ?thesis using ok by (simp add: d1_def)
qed

theorem client_text_goes_out_witness:
  "length (g_wire (dm_eng (daemon_step wire_crates (DTake, sample_aio, \<lambda>_. sample_io)
      (daemon_step wire_crates (DRequest (ReqSendText (lit ''hi'')), sample_aio, \<lambda>_. sample_io) (sample_daemon []))))) = 1"
proof -
  let ?ios = "\<lambda>_ :: nat. sample_io"
  obtain ev where ev: "new_text wire_crates (io_id (?ios 0)) (io_ts (?ios 0)) (io_nonce (?ios 0)) (io_nonce_html (?ios 0))
      (g_seq (dm_eng (sample_daemon [])) + 1) (lit ''hi'') None (g_key (dm_eng (sample_daemon [])))
      (a_targets (dm_agent (sample_daemon []))) = Ok ev"
    by (simp add: new_text_def sample_daemon_def sample_eng_def Let_def)
  have enc: "encode wire_crates T_CLIP (clip_to_json ev) = Some [1]"
    by (simp add: encode_def wire_crates_def)
  have tx: "a_tx (dm_agent (sample_daemon [])) = Some (True, [])" "dm_phase (sample_daemon []) = Connected"
    by (simp_all add: sample_daemon_def)
  have lim: "g_max_msg (dm_eng (sample_daemon [])) \<le> 0 \<or> int (length [1 :: 8 word]) \<le> g_max_msg (dm_eng (sample_daemon []))"
    "io_send (?ios 0)" "g_wire (dm_eng (sample_daemon [])) = []"
    by (simp_all add: sample_daemon_def sample_eng_def sample_io_def)
  have "lit ''hi'' \<noteq> []" by simp
  from client_text_goes_out [OF tx this ev enc lim(1,2) refl, of sample_aio] lim(3) show ?thesis by simp
qed

subsection \<open>The engine's copy of the configuration\<close>

lemma rotate_effect:
  assumes "json_inverts cr" and "token_rotate_of_json j = Some t" and "t \<noteq> []"
    and "io_mkdir i" and "io_write i = Written"
    and "json_to_vec_pretty cr (config_to_json ((g_cfg g)\<lparr>c_token := t\<rparr>)) = Some b"
  shows "\<exists>g'. on_received cr i (RecvFrame T_TOKEN_ROTATE j) g = (g', Go) \<and> g_cfg g' = (g_cfg g)\<lparr>c_token := t\<rparr>
    \<and> config_load cr (g_disk g') (g_cfg_path g) = Some ((g_cfg g)\<lparr>c_token := t\<rparr>)
    \<and> g_status g' = g_status g"
proof -
  have k: "T_TOKEN_ROTATE \<noteq> KEEPALIVE" by (simp add: tag_defs KEEPALIVE_def)
  show ?thesis
    using assms(2-5) k saved_then_loaded [OF assms(1,6)]
    by (simp add: on_token_rotate_def emit_def Let_def)
qed

lemma daemon_rotates:
  assumes "json_inverts cr" and "token_rotate_of_json j = Some t" and "t \<noteq> []"
    and "io_mkdir (ios 0)" and "io_write (ios 0) = Written"
    and "json_to_vec_pretty cr (config_to_json ((g_cfg (dm_eng d))\<lparr>c_token := t\<rparr>)) \<noteq> None"
    and "dm_phase d = Connected"
    and "d' = daemon_step cr (DActor (Looped (Received (RecvFrame T_TOKEN_ROTATE j))), i, ios) d"
  shows "g_cfg (dm_eng d') = (g_cfg (dm_eng d))\<lparr>c_token := t\<rparr>" and "dm_phase d' = Connected"
    and "config_load cr (a_disk (dm_agent d')) (a_cfg_path (dm_agent d)) = Some ((g_cfg (dm_eng d))\<lparr>c_token := t\<rparr>)"
    and "a_supervisor (dm_agent d') = a_supervisor (dm_agent d)"
    and "a_cfg_path (dm_agent d') = a_cfg_path (dm_agent d)"
    and "shown_settings (status_snapshot (dm_agent d')) = shown_settings (status_snapshot (dm_agent d))"
proof -
  define g0 where "g0 = engine_state (dm_agent d) (dm_eng d)"
  have g0: "g_cfg g0 = g_cfg (dm_eng d)" "g_cfg_path g0 = a_cfg_path (dm_agent d)"
    by (simp_all add: g0_def engine_state_def)
  obtain b where "json_to_vec_pretty cr (config_to_json ((g_cfg g0)\<lparr>c_token := t\<rparr>)) = Some b"
    using assms(6) g0 by auto
  from rotate_effect [OF assms(1-5) this] obtain g' where
    g': "on_received cr (ios 0) (RecvFrame T_TOKEN_ROTATE j) g0 = (g', Go)" "g_cfg g' = (g_cfg g0)\<lparr>c_token := t\<rparr>"
      "config_load cr (g_disk g') (g_cfg_path g0) = Some ((g_cfg g0)\<lparr>c_token := t\<rparr>)" by blast
  have d': "d' = \<lparr>dm_agent = absorb (ai_stamp i) g0 g' (dm_agent d), dm_phase = Connected, dm_pin = dm_pin d, dm_eng = g'\<rparr>"
    using assms(7) g'(1) by (simp add: assms(8) actor_running_def run_actor_def Let_def g0_def [symmetric] del: on_received.simps)
  show "g_cfg (dm_eng d') = (g_cfg (dm_eng d))\<lparr>c_token := t\<rparr>" "dm_phase d' = Connected"
    "config_load cr (a_disk (dm_agent d')) (a_cfg_path (dm_agent d)) = Some ((g_cfg (dm_eng d))\<lparr>c_token := t\<rparr>)"
    "a_supervisor (dm_agent d') = a_supervisor (dm_agent d)" "a_cfg_path (dm_agent d') = a_cfg_path (dm_agent d)"
    "shown_settings (status_snapshot (dm_agent d')) = shown_settings (status_snapshot (dm_agent d))"
    using g' g0 by (simp_all add: d' settings_defs)
qed

text \<open>C29. A rotated token undoes saved settings: the engine saves the configuration it was started
  with, with the new token in it. A setting that a client has changed and that was saved since
  the engine started is reverted on disk, while the live value and the reported status keep
  the change, so the change is lost at the next start of the daemon.\<close>

theorem rotation_reverts_settings:
  assumes "json_inverts cr" and "setting r = Some f"
    and "config_load cr (a_disk (dm_agent d)) (a_cfg_path (dm_agent d)) = Some c" and "g_cfg (dm_eng d) = c"
    and "ai_mkdir i" and "ai_write i = Written" and "json_to_vec_pretty cr (config_to_json (f c)) \<noteq> None"
    and "shown_settings (status_snapshot (dm_agent d)) = saved_settings c" and "dm_phase d = Connected"
    and "token_rotate_of_json j = Some t" and "t \<noteq> []" and "io_mkdir (ios 0)" and "io_write (ios 0) = Written"
    and "json_to_vec_pretty cr (config_to_json (c\<lparr>c_token := t\<rparr>)) \<noteq> None"
    and "d1 = daemon_step cr (DRequest r, i, ios) d"
    and "d2 = daemon_step cr (DActor (Looped (Received (RecvFrame T_TOKEN_ROTATE j))), i, ios) d1"
  shows "config_load cr (a_disk (dm_agent d1)) (a_cfg_path (dm_agent d)) = Some (f c)
    \<and> config_load cr (a_disk (dm_agent d2)) (a_cfg_path (dm_agent d)) = Some (c\<lparr>c_token := t\<rparr>)
    \<and> shown_settings (status_snapshot (dm_agent d2)) = saved_settings (f c)"
proof -
  have set1: "config_load cr (a_disk (dm_agent d1)) (a_cfg_path (dm_agent d)) = Some (f c)
      \<and> shown_settings (status_snapshot (dm_agent d1)) = saved_settings (f c)"
    using setting_effect [OF assms(1-3,5-8)] by (simp add: assms(15) Let_def)
  have frame: "dm_phase d1 = Connected" "dm_eng d1 = dm_eng d" "a_cfg_path (dm_agent d1) = a_cfg_path (dm_agent d)"
    using setting_frame [OF assms(2)] assms(9) by (auto simp: assms(15) Let_def accepting_def)
  have "json_to_vec_pretty cr (config_to_json ((g_cfg (dm_eng d1))\<lparr>c_token := t\<rparr>)) \<noteq> None"
    using assms(4,14) frame(2) by simp
  note rot = daemon_rotates [OF assms(1,10-13) this frame(1) assms(16)]
  from rot(3,6) set1 assms(4) show ?thesis unfolding frame by simp
qed

text \<open>Crates whose JSON codec knows the sample configuration, one with a changed setting and one
  with a rotated token.\<close>

definition rotated_config :: config where
  "rotated_config = sample_config\<lparr>c_token := lit ''new''\<rparr>"

definition three_config_crates :: crates where
  "three_config_crates = two_config_crates\<lparr>
     json_to_vec_pretty := (\<lambda>v. if v = config_to_json sample_config then Some [1]
        else if v = config_to_json cleared_config then Some [2]
        else if v = config_to_json rotated_config then Some [3] else None),
     json_from_slice := (\<lambda>b. if b = [1] then Some (config_to_json sample_config)
        else if b = [2] then Some (config_to_json cleared_config) else Some (config_to_json rotated_config))\<rparr>"

lemma three_config_json: "json_inverts three_config_crates"
  by (auto simp: json_inverts_def three_config_crates_def two_config_crates_def split: if_splits)

lemma three_config_enc:
  "json_to_vec_pretty three_config_crates (config_to_json cleared_config) \<noteq> None"
  "json_to_vec_pretty three_config_crates (config_to_json rotated_config) \<noteq> None"
  by (simp_all add: three_config_crates_def)

lemma sample_rotation: "token_rotate_of_json (JObj [(''token'', JStr (lit ''new''))]) = Some (lit ''new'')"
  by (simp add: token_rotate_of_json_def struct_fields_def req_def)

lemma sample_daemon_fields:
  "a_cfg_path (dm_agent (sample_daemon q)) = lit ''c''" "g_cfg (dm_eng (sample_daemon q)) = sample_config"
  "dm_phase (sample_daemon q) = Connected" "a_supervisor (dm_agent (sample_daemon q)) = Some sample_config"
  "shown_settings (status_snapshot (dm_agent (sample_daemon q))) = saved_settings sample_config"
  by (simp_all add: sample_daemon_def sample_agent_def sample_eng_def settings_defs) (simp_all add: sample_config_def)

lemma sample_daemon_load:
  "config_load three_config_crates (a_disk (dm_agent (sample_daemon q))) (a_cfg_path (dm_agent (sample_daemon q)))
    = Some sample_config"
  by (simp add: config_load_def sample_daemon_def sample_agent_def three_config_crates_def config_json_roundtrip)

theorem rotation_reverts_settings_witness:
  "let d1 = daemon_step three_config_crates (DRequest (SetAutoClear 30), sample_aio, \<lambda>_. sample_io) (sample_daemon []);
       d2 = daemon_step three_config_crates (DActor (Looped (Received (RecvFrame T_TOKEN_ROTATE
              (JObj [(''token'', JStr (lit ''new''))])))), sample_aio, \<lambda>_. sample_io) d1
   in config_load three_config_crates (a_disk (dm_agent d2)) (lit ''c'') = Some rotated_config
      \<and> shown_settings (status_snapshot (dm_agent d2)) = (True, 30, False, True)"
proof -
  have f: "setting (SetAutoClear 30) = Some (\<lambda>c. c\<lparr>c_auto_clear_secs := 30\<rparr>)" by simp
  have io: "io_mkdir sample_io" "io_write sample_io = Written" by (simp_all add: sample_io_def)
  have ten: "lit ''new'' \<noteq> []" by simp
  have enc: "json_to_vec_pretty three_config_crates (config_to_json (sample_config\<lparr>c_auto_clear_secs := 30\<rparr>)) \<noteq> None"
    "json_to_vec_pretty three_config_crates (config_to_json (sample_config\<lparr>c_token := lit ''new''\<rparr>)) \<noteq> None"
    using three_config_enc unfolding cleared_config_def rotated_config_def .
  have "saved_settings (sample_config\<lparr>c_auto_clear_secs := 30\<rparr>) = (True, 30, False, True)"
    by (simp add: saved_settings_def sample_config_def)
  then show ?thesis
    using rotation_reverts_settings [OF three_config_json f sample_daemon_load sample_daemon_fields(2) sample_aio_simps(1,2)
        enc(1) sample_daemon_fields(5,3) sample_rotation ten _ _ enc(2) refl refl, of "\<lambda>_. sample_io"] io
    unfolding Let_def rotated_config_def sample_daemon_fields by (simp del: daemon_step.simps lit_simps)
qed

text \<open>C30. A crash after a rotation brings the old token back: the supervisor relaunches the engine
  with the configuration it captured at the start, so the engine dials with the token that was
  rotated away although the new one is saved on disk.\<close>

theorem relaunch_uses_captured_token:
  assumes "json_inverts cr" and "token_rotate_of_json j = Some t" and "t \<noteq> []"
    and "io_mkdir (ios 0)" and "io_write (ios 0) = Written"
    and "json_to_vec_pretty cr (config_to_json (c\<lparr>c_token := t\<rparr>)) \<noteq> None"
    and "dm_phase d = Connected" and "g_cfg (dm_eng d) = c" and "a_supervisor (dm_agent d) = Some c"
    and "pin_bytes cr c = Some pin"
    and "d' = fold (daemon_step cr) [(DActor (Looped (Received (RecvFrame T_TOKEN_ROTATE j))), i, ios),
                (DPanic, i, ios), (DLaunch, i, ios)] d"
  shows "dm_phase d' = Dialing \<and> c_token (g_cfg (dm_eng d')) = c_token c
    \<and> config_load cr (a_disk (dm_agent d')) (a_cfg_path (dm_agent d)) = Some (c\<lparr>c_token := t\<rparr>)"
proof -
  define d1 where "d1 = daemon_step cr (DActor (Looped (Received (RecvFrame T_TOKEN_ROTATE j))), i, ios) d"
  define d2 where "d2 = daemon_step cr (DPanic, i, ios) d1"
  have "json_to_vec_pretty cr (config_to_json ((g_cfg (dm_eng d))\<lparr>c_token := t\<rparr>)) \<noteq> None"
    using assms(6,8) by simp
  note rot = daemon_rotates [OF assms(1-5) this assms(7) d1_def]
  have d2: "dm_agent d2 = actor_ended i ActorPanic (dm_agent d1)" "dm_phase d2 = Crashed"
    using rot(2) by (simp_all add: d2_def actor_running_def del: actor_ended.simps)
  have a2: "a_supervisor (dm_agent d2) = Some c" "a_disk (dm_agent d2) = a_disk (dm_agent d1)"
    unfolding d2 using rot(4) assms(9) by (simp_all del: actor_ended.simps)
  have d': "d' = launch_actor cr i d2"
    using d2(2) by (simp add: assms(11) d1_def [symmetric] d2_def [symmetric] actor_running_def
        del: daemon_step.simps(4,5,6))
  have "dm_phase d' = Dialing" "g_cfg (dm_eng d') = c" "dm_agent d' = launch (dm_agent d2)"
    unfolding d' launch_actor_def a2(1) using assms(10)
    by (simp_all add: run_init_def Let_def)
  then show ?thesis using rot(3) a2(2) assms(8) by simp
qed

theorem relaunch_uses_captured_token_witness:
  "c_token (g_cfg (dm_eng (fold (daemon_step three_config_crates)
      [(DActor (Looped (Received (RecvFrame T_TOKEN_ROTATE (JObj [(''token'', JStr (lit ''new''))])))), sample_aio, \<lambda>_. sample_io),
       (DPanic, sample_aio, \<lambda>_. sample_io), (DLaunch, sample_aio, \<lambda>_. sample_io)] (sample_daemon [])))) = lit ''tok''"
proof -
  have io: "io_mkdir sample_io" "io_write sample_io = Written" by (simp_all add: sample_io_def)
  have pin: "pin_bytes three_config_crates sample_config = Some (replicate 32 65)"
    using sample_config_pin by (simp add: pin_bytes_def decode_pin_def three_config_crates_def two_config_crates_def
        sample_crates_def sample_config_def)
  have ten: "lit ''new'' \<noteq> []" by simp
  have enc: "json_to_vec_pretty three_config_crates (config_to_json (sample_config\<lparr>c_token := lit ''new''\<rparr>)) \<noteq> None"
    using three_config_enc(2) unfolding rotated_config_def .
  have tok: "c_token sample_config = lit ''tok''" by (simp add: sample_config_def)
  show ?thesis
    using relaunch_uses_captured_token [OF three_config_json sample_rotation ten _ _ enc sample_daemon_fields(3,2,4) pin refl,
        where i = sample_aio and ios = "\<lambda>_. sample_io"] io tok
    by (simp del: daemon_step.simps fold.simps lit_simps)
qed

end
