(* ===== verification/Engine_Told.thy ===== *)
theory Engine_Told
  imports Engine_Blobs
begin

text \<open>
  What the engine tells its host: every change of the status and of the roster is followed by the
  callback that announces it, so that a host that only listens knows the engine's own values after
  every step of the actor.
\<close>

named_theorems told_frame \<open>steps after which the host knows the status and the roster\<close>

subsection \<open>Listening to the callbacks\<close>

fun listen :: "ui_event \<Rightarrow> status \<times> roster_device list \<Rightarrow> status \<times> roster_device list" where
  "listen (UStatus s) k = (s, snd k)"
| "listen (URoster l) k = (fst k, l)"
| "listen _ k = k"

definition heard :: "eng \<Rightarrow> eng \<Rightarrow> bool" where
  "heard g g' \<longleftrightarrow> (\<exists>new. g_ui g' = g_ui g @ new
     \<and> fold listen new (g_status g, g_roster g) = (g_status g', g_roster g'))"

lemma told_refl [told_frame]: "heard g g"
  by (simp add: heard_def)

lemma told_trans: "heard a b \<Longrightarrow> heard b c \<Longrightarrow> heard a c"
proof -
  assume "heard a b" "heard b c"
  then obtain x y where "g_ui b = g_ui a @ x" "fold listen x (g_status a, g_roster a) = (g_status b, g_roster b)"
    "g_ui c = g_ui b @ y" "fold listen y (g_status b, g_roster b) = (g_status c, g_roster c)"
    unfolding heard_def by blast
  then show ?thesis unfolding heard_def by (intro exI [of _ "x @ y"]) simp
qed

lemma told_irrelevant [told_frame]:
  "heard g (g'\<lparr>g_cfg := x0\<rparr>) = heard g g'" "heard g (g'\<lparr>g_hist := x1\<rparr>) = heard g g'"
  "heard g (g'\<lparr>g_seq := x2\<rparr>) = heard g g'" "heard g (g'\<lparr>g_text := x3\<rparr>) = heard g g'"
  "heard g (g'\<lparr>g_img := x4\<rparr>) = heard g g'" "heard g (g'\<lparr>g_files := x5\<rparr>) = heard g g'"
  "heard g (g'\<lparr>g_attempt := x6\<rparr>) = heard g g'" "heard g (g'\<lparr>g_threshold := x7\<rparr>) = heard g g'"
  "heard g (g'\<lparr>g_max_msg := x8\<rparr>) = heard g g'" "heard g (g'\<lparr>g_last_recv := x9\<rparr>) = heard g g'"
  "heard g (g'\<lparr>g_tasks := x10\<rparr>) = heard g g'" "heard g (g'\<lparr>g_disk := x11\<rparr>) = heard g g'"
  "heard g (g'\<lparr>g_clip := x12\<rparr>) = heard g g'" "heard g (g'\<lparr>g_holds := x13\<rparr>) = heard g g'"
  "heard g (g'\<lparr>g_pending := x14\<rparr>) = heard g g'" "heard g (g'\<lparr>g_wire := x15\<rparr>) = heard g g'"
  by (simp_all add: heard_def)

lemma told_emit:
  assumes "heard g g'" and "listen e (g_status g', g_roster g') = (s, l)"
  shows "heard g (emit e (g'\<lparr>g_status := s, g_roster := l\<rparr>))"
proof -
  obtain new where "g_ui g' = g_ui g @ new" "fold listen new (g_status g, g_roster g) = (g_status g', g_roster g')"
    using assms(1) by (auto simp: heard_def)
  with assms(2) show ?thesis unfolding heard_def by (intro exI [of _ "new @ [e]"]) (simp add: emit_def)
qed

lemma told_callbacks [told_frame]:
  "heard g g' \<Longrightarrow> heard g (emit (UClip v) g')" "heard g g' \<Longrightarrow> heard g (emit (UReconnect n d) g')"
  "heard g g' \<Longrightarrow> heard g (emit (UError m) g')" "heard g g' \<Longrightarrow> heard g (emit (UNotify t m) g')"
  "heard g g' \<Longrightarrow> heard g (emit (UStatus s) (g'\<lparr>g_status := s\<rparr>))"
  "heard g g' \<Longrightarrow> heard g (emit (URoster l) (g'\<lparr>g_roster := l\<rparr>))"
  using told_emit [of g g' "UClip v"] told_emit [of g g' "UReconnect n d"] told_emit [of g g' "UError m"]
    told_emit [of g g' "UNotify t m"] told_emit [of g g' "UStatus s"] told_emit [of g g' "URoster l"]
  by simp_all

subsection \<open>The engine's operations\<close>

lemma told_effects [told_frame]:
  "heard g (spawn t g') = heard g g'" "heard g (fst (ws_send cr i t' d g')) = heard g g'"
  "heard g (fst (write_file i p b g')) = heard g g'"
  "heard g (fst (add_history cr i ts k og dir pv m sz bid n g')) = heard g g'"
  "heard g (schedule_purge num ttl g') = heard g g'" "heard g (schedule_clear_text t'' secs g') = heard g g'"
  "heard g (bump_attempt g') = heard g g'"
  by (simp_all add: spawn_def ws_send_def write_file_def add_history_def schedule_purge_def schedule_clear_text_def
      bump_attempt_def case_prod_beta told_frame split: option.split write_result.split)

lemma told_status [told_frame]:
  "heard g g' \<Longrightarrow> heard g (set_connected on g')" "heard g g' \<Longrightarrow> heard g (set_roster ds g')"
  "heard g g' \<Longrightarrow> heard g (apply_presence p g')"
  by (simp_all add: set_connected_def set_roster_def apply_presence_def Let_def told_frame)

lemma told_if [told_frame]: "heard g (if b then x else y) = (if b then heard g x else heard g y)"
  by simp

definition res_told :: "eng \<Rightarrow> (eng \<times> bool) res \<Rightarrow> bool" where
  "res_told g r = (case r of Ok p \<Rightarrow> heard g (fst p) | _ \<Rightarrow> True)"

lemma res_told_simps [simp]: "res_told g (Ok p) = heard g (fst p)" "res_told g Panic" "res_told g Err"
  by (simp_all add: res_told_def)

lemma send_text_told: "res_told g (send_text_clip cr i text html g)"
  by (simp add: send_text_clip_def Let_def case_prod_beta told_frame split: res.split option.split)

lemma cache_told [told_frame]: "heard g (fst (cache_outbound_image cr i png g')) = heard g g'"
  by (simp add: cache_outbound_image_def Let_def case_prod_beta told_frame)

lemma spawn_image_told: "spawn_image_clip cr i img sha g = Ok g' \<Longrightarrow> heard g g'"
  by (auto simp: spawn_image_clip_def Let_def case_prod_beta told_frame split: option.splits res.splits)

lemma send_file_told: "res_told g (send_file_clip cr i path g)"
  by (auto simp: send_file_clip_def send_file_on_demand_def send_file_eager_def file_failure_def Let_def case_prod_beta told_frame
      split: option.splits sum.splits res.splits)

lemma of_send_told: "res_told g r \<Longrightarrow> heard g (fst (of_send w r g))"
  by (auto simp: of_send_def res_told_def told_frame split: res.splits prod.splits)

lemma files_told: "heard g (fst (on_local_files cr ios n ps g))"
proof (induction cr ios n ps g rule: on_local_files.induct)
  case (2 cr ios n p ps g)
  obtain g' f where r: "of_send FileSendFailed (send_file_clip cr (ios n) p g) g = (g', f)" by (meson surj_pair)
  have "heard g g'" using of_send_told [OF send_file_told [of g cr "ios n" p], of FileSendFailed] r by simp
  then show ?case using 2 r told_trans by (cases f) auto
qed (simp add: told_frame)

lemma apply_text_told [told_frame]: "heard g g' \<Longrightarrow> heard g (apply_text cr i ev text html g')"
  by (simp add: apply_text_def Let_def case_prod_beta told_frame)

lemma incoming_event_quiet:
  "incoming_text cr key ev = Ok (Inl e) \<Longrightarrow> (\<exists>m. e = UError m) \<or> (\<exists>t m. e = UNotify t m)"
  by (auto simp: incoming_text_def split: option.splits if_splits res.splits)

lemma text_in_told:
  assumes "handle_incoming_text cr i ev g = Ok g'"
  shows "heard g g'"
proof -
  obtain r where r: "incoming_text cr (g_key g) ev = Ok r"
    using assms by (auto simp: handle_incoming_text_def bind_res_Ok_iff)
  show ?thesis
  proof (cases r)
    case (Inl e)
    with assms r have "g' = emit e g" by (simp add: handle_incoming_text_def)
    then show ?thesis using incoming_event_quiet [of cr "g_key g" ev e] r Inl by (auto simp: told_frame)
  next
    case (Inr t)
    with assms r show ?thesis by (auto simp: handle_incoming_text_def bind_res_Ok_iff told_frame)
  qed
qed

lemma apply_clip_told [told_frame]:
  "heard g g' \<Longrightarrow> heard g (apply_image cr i ev n b g')" "heard g g' \<Longrightarrow> heard g (apply_file i ev n p b g')"
  by (simp_all add: apply_image_def apply_file_def Let_def case_prod_beta told_frame split: option.split)

lemma apply_blob_told:
  assumes "apply_blob cr i ev b g = Ok g'"
  shows "heard g g'"
proof -
  obtain r where "incoming_blob cr (g_key g) ev b = Ok r"
    using assms by (auto simp: apply_blob_def bind_res_Ok_iff)
  then show ?thesis using assms by (cases r) (auto simp: apply_blob_def Let_def told_frame)
qed

lemma handle_frame_told: "heard g (handle_frame cr i t d g)"
  by (rule handle_frame_keeps) (simp_all add: serve_request_def told_frame text_in_told split: option.split)

lemma record_sent_told [told_frame]: "heard g g' \<Longrightarrow> heard g (record_sent cr i up g')"
  by (simp add: record_sent_def Let_def told_frame split: option.split)

lemma on_blob_told: "heard g (fst (on_blob cr i r g))"
  by (cases "(cr, i, r, g)" rule: on_blob.cases)
    (auto simp: Let_def case_prod_beta told_frame apply_blob_told split: res.splits)

lemma on_received_told: "heard g (fst (on_received cr i r g))"
proof (cases r)
  case (RecvFrame t d)
  have "heard g (handle_frame cr i t d (g\<lparr>g_last_recv := n\<rparr>))" for n
    using handle_frame_told [of "g\<lparr>g_last_recv := n\<rparr>" cr i t d] by (simp add: heard_def)
  then show ?thesis
    by (simp add: RecvFrame Let_def on_token_rotate_def case_prod_beta told_frame split: option.split)
qed (simp_all add: told_frame)

lemma on_command_told: "heard g (fst (on_command cr ios c g))"
proof (cases "(cr, ios, c, g)" rule: on_command.cases)
  case (2 cr' ios' t h g')
  then show ?thesis using of_send_told [OF send_text_told]
    by (simp add: on_local_text_def Let_def case_prod_beta told_frame split: option.split)
next
  case (4 cr' ios' img g')
  then show ?thesis using spawn_image_told
    by (auto simp: on_local_image_def Let_def told_frame split: res.splits)
next
  case (7 cr' ios' name g')
  then show ?thesis by (auto simp: on_set_pool_def Let_def case_prod_beta told_frame)
qed (simp_all add: told_frame files_told of_send_told send_text_told send_file_told)

lemma loop_step_told: "heard g (fst (loop_step cr ios ev g))"
  using on_command_told on_received_told on_blob_told
  by (cases ev) (simp_all add: on_ping_def on_watchdog_def Let_def told_frame)

lemma backoff_told [told_frame]:
  "heard g g' \<Longrightarrow> heard g (backoff i g')" "heard g g' \<Longrightarrow> heard g (disconnected w g')"
  "heard g g' \<Longrightarrow> heard g (requeue_failed g')" "heard g g' \<Longrightarrow> heard g (run_bad_pin g')"
  by (simp_all add: backoff_def disconnected_def requeue_failed_def run_bad_pin_def Let_def told_frame)

lemma readvertise_told [told_frame]: "heard g0 g \<Longrightarrow> heard g0 (fst (readvertise cr ios n rs failed g))"
proof (induction rs arbitrary: n failed g)
  case (Cons res rest)
  then show ?case by (cases res) (simp_all add: Let_def case_prod_beta told_frame)
qed simp

lemma on_hello_told [told_frame]: "heard g g' \<Longrightarrow> heard g (on_hello i h g')"
proof -
  assume "heard g g'"
  then have "heard g (set_roster (ho_roster h) (g'\<lparr>g_attempt := 0, g_threshold := t, g_max_msg := m\<rparr>))" for t m
    by (simp add: told_frame)
  from told_callbacks(5) [OF this] show ?thesis
    by (simp add: on_hello_def set_connected_def Let_def told_frame)
qed

lemma run_step_told: "heard (snd s) (snd (run_step cr pin ev s))"
proof (cases "(cr, pin, ev, s)" rule: run_step.cases)
  case (1 cr' pin' cert dial_ok send_ok first ios g)
  then show ?thesis
    by (auto simp: Let_def case_prod_beta told_frame split: sum.split)
next
  case (2 cr' pin' ev' ios g)
  obtain g1 fl where l: "loop_step cr' ios ev' g = (g1, fl)" by (meson surj_pair)
  then have "heard g g1" using loop_step_told [of g cr' ios ev'] by simp
  with 2 l show ?thesis by (cases fl) (auto simp: told_frame)
qed (simp_all add: told_frame)

text \<open>C19. A host that only listens knows the engine: over any run of the actor, connecting, failing,
  switching pools, serving and receiving, the last status and the last roster it was heard are
  the engine's own; the engine never changes either behind its host's back.\<close>

theorem listener_knows_engine:
  "\<exists>new. g_ui (snd (fold (run_step cr pin) es s)) = g_ui (snd s) @ new
     \<and> fold listen new (g_status (snd s), g_roster (snd s))
       = (g_status (snd (fold (run_step cr pin) es s)), g_roster (snd (fold (run_step cr pin) es s)))"
proof -
  have "heard (snd s) (snd (fold (run_step cr pin) es s))"
  proof (induction es arbitrary: s)
    case (Cons e es)
    have "heard (snd s) (snd (run_step cr pin e s))" by (rule run_step_told)
    from told_trans [OF this Cons.IH] show ?case by simp
  qed (simp add: told_frame)
  then show ?thesis by (simp add: heard_def)
qed

end
