(* ===== verification/Shell_Daemon.thy ===== *)
theory Shell_Daemon
  imports Shell_Props Daemon Engine_Told
begin

text \<open>
  The Tauri shell with the engine inside (\<open>start_sync\<close> of \<open>src-tauri/src/main.rs\<close>): the same
  composition as the daemon's, over the shell's shared state and its own emitter. It is shown to
  simulate the daemon step by step, so that what holds of the daemon's engine holds of the
  shell's.
\<close>

subsection \<open>Composition\<close>

record shell_daemon =
  sd_shell :: shell
  sd_phase :: phase
  sd_pin :: bytes
  sd_eng :: eng

definition shell_engine_state :: "shell \<Rightarrow> eng \<Rightarrow> eng" where
  "shell_engine_state sh g = g\<lparr>g_hist := sh_hist sh, g_status := sh_status sh, g_roster := sh_roster sh,
     g_targets := sh_targets sh, g_exclude := sh_exclude sh, g_auto_clear := sh_auto_clear sh, g_mark := sh_mark sh,
     g_cfg_path := sh_cfg_path sh, g_disk := sh_disk sh\<rparr>"

text \<open>What the shell sees of an actor step: the shared state, then the callbacks in order.\<close>

definition shell_absorb :: "desk \<Rightarrow> eng \<Rightarrow> eng \<Rightarrow> shell \<Rightarrow> shell" where
  "shell_absorb w g0 g sh =
     fold (shell_emitter w) (drop (length (g_ui g0)) (g_ui g))
       (sh\<lparr>sh_hist := g_hist g, sh_status := g_status g, sh_roster := g_roster g, sh_disk := g_disk g\<rparr>)"

definition shell_run_actor :: "crates \<Rightarrow> desk \<Rightarrow> run_event \<Rightarrow> (nat \<Rightarrow> io) \<Rightarrow> shell_daemon \<Rightarrow> shell_daemon" where
  "shell_run_actor cr w ev ios d =
     (let g0 = shell_engine_state (sd_shell d) (sd_eng d);
          (ph, g) = run_step cr (sd_pin d) (ev, ios) (sd_phase d, g0);
          sh = shell_absorb w g0 g (sd_shell d)
      in \<lparr>sd_shell = (case ph of Stopped \<Rightarrow> sh_actor_ended w ActorDone sh
                              | Crashed \<Rightarrow> sh_actor_ended w ActorPanic sh | _ \<Rightarrow> sh),
          sd_phase = ph, sd_pin = sd_pin d, sd_eng = g\<rparr>)"

definition shell_launch_actor :: "crates \<Rightarrow> desk \<Rightarrow> shell_daemon \<Rightarrow> shell_daemon" where
  "shell_launch_actor cr w d =
     (case sh_supervisor (sd_shell d) of
        None \<Rightarrow> d
      | Some c \<Rightarrow>
          (let sh = sh_launch (sd_shell d); g0 = shell_engine_state sh (sd_eng d) in
           case run_init cr c g0 of
             Some (pin, g) \<Rightarrow> \<lparr>sd_shell = sh, sd_phase = Dialing, sd_pin = pin, sd_eng = g\<rparr>
           | None \<Rightarrow>
               (let g = run_bad_pin g0
                in d\<lparr>sd_shell := sh_actor_ended w ActorDone (shell_absorb w g0 g sh), sd_phase := Stopped, sd_eng := g\<rparr>)))"

definition sh_accepting :: "shell \<Rightarrow> bool" where
  "sh_accepting sh \<longleftrightarrow> (\<exists>q. sh_tx sh = Some (True, q))"

definition sh_take_cmd :: "shell \<Rightarrow> shell" where
  "sh_take_cmd sh = sh\<lparr>sh_tx := map_option (\<lambda>(alive, q). (alive, if alive then tl q else q)) (sh_tx sh)\<rparr>"

text \<open>The events are the daemon's; a request stands for the command of the shell that corresponds to
  it, and nothing happens for one the shell has no command for.\<close>

fun shell_daemon_step :: "crates \<Rightarrow> desk \<Rightarrow> daemon_event \<times> aio \<times> (nat \<Rightarrow> io) \<Rightarrow> shell_daemon \<Rightarrow> shell_daemon" where
  "shell_daemon_step cr w (DRequest r, i, ios) d =
     (case shell_do cr i r (sd_shell d) of
        None \<Rightarrow> d
      | Some (sh, _) \<Rightarrow>
          d\<lparr>sd_shell := sh, sd_phase := (if sh_accepting (sd_shell d) \<and> \<not> sh_accepting sh then Stopped else sd_phase d)\<rparr>)"
| "shell_daemon_step cr w (DLaunch, i, ios) d =
     (if sd_phase d = Dialing \<or> sd_phase d = Connected then d else shell_launch_actor cr w d)"
| "shell_daemon_step cr w (DWatched c, i, ios) d = d\<lparr>sd_shell := fst (enqueue c (sd_shell d))\<rparr>"
| "shell_daemon_step cr w (DTake, i, ios) d =
     (case sh_tx (sd_shell d) of
        Some (True, c # q) \<Rightarrow>
          if sd_phase d = Connected
          then shell_run_actor cr w (Looped (Command (Some c))) ios (d\<lparr>sd_shell := sh_take_cmd (sd_shell d)\<rparr>) else d
      | _ \<Rightarrow> d)"
| "shell_daemon_step cr w (DActor ev, i, ios) d =
     (case ev of
        Looped (Command _) \<Rightarrow> d
      | _ \<Rightarrow> if sd_phase d = Dialing \<or> sd_phase d = Connected then shell_run_actor cr w ev ios d else d)"
| "shell_daemon_step cr w (DPanic, i, ios) d =
     (if sd_phase d = Dialing \<or> sd_phase d = Connected
      then d\<lparr>sd_shell := sh_actor_ended w ActorPanic (sd_shell d), sd_phase := Crashed\<rparr> else d)"

subsection \<open>Simulation\<close>

definition same_daemon :: "shell_daemon \<Rightarrow> daemon_state \<Rightarrow> bool" where
  "same_daemon s d \<longleftrightarrow> same_host (sd_shell s) (dm_agent d) \<and> sh_roster (sd_shell s) = a_roster (dm_agent d)
     \<and> sd_phase s = dm_phase d \<and> sd_pin s = dm_pin d \<and> sd_eng s = dm_eng d"

text \<open>The requests the shell has a command for.\<close>

fun has_command :: "request \<Rightarrow> bool" where
  "has_command GetStatus = False"
| "has_command GetRoster = False"
| "has_command Subscribe = False"
| "has_command (SetTelemetry _) = False"
| "has_command ReqShutdown = False"
| "has_command _ = True"

fun shared_event :: "daemon_event \<Rightarrow> bool" where
  "shared_event (DRequest r) = has_command r"
| "shared_event _ = True"

definition shared_step :: "crates \<Rightarrow> daemon_event \<times> aio \<times> (nat \<Rightarrow> io) \<Rightarrow> daemon_state \<Rightarrow> daemon_state" where
  "shared_step cr e d = (if shared_event (fst e) then daemon_step cr e d else d)"

lemma has_command_iff: "has_command r \<longleftrightarrow> shell_do cr i r sh \<noteq> None"
  by (cases r) (simp_all add: case_prod_beta)

lemma same_engine_state:
  "same_host sh a \<Longrightarrow> sh_roster sh = a_roster a \<Longrightarrow> shell_engine_state sh g = engine_state a g"
  by (simp add: shell_engine_state_def engine_state_def same_host_def)

lemma shell_emitter_frame:
  "same_host (shell_emitter w e sh) a = same_host sh a" "sh_roster (shell_emitter w e sh) = sh_roster sh"
  by (cases e; simp add: same_host_def sh_emit_def rebuild_tray_def)+

lemma emitter_same_host: "same_host sh (emitter stamp e a) = same_host sh a"
  by (cases e) (simp_all add: same_host_def broadcast_def tlog_def)

lemma fold_emitters:
  "same_host (fold (shell_emitter w) es sh) a = same_host sh a"
  "sh_roster (fold (shell_emitter w) es sh) = sh_roster sh"
  "same_host sh (fold (emitter stamp) es a) = same_host sh a"
  by (induction es arbitrary: sh a) (simp_all add: shell_emitter_frame emitter_same_host)

lemma emitter_roster: "a_roster (fold (emitter stamp) es a) = snd (fold listen es (s, a_roster a))"
proof (induction es arbitrary: a s)
  case (Cons e es)
  have "snd (listen e (s, a_roster a)) = a_roster (emitter stamp e a)"
    by (cases e) (simp_all add: broadcast_def tlog_def)
  then obtain s' where "listen e (s, a_roster a) = (s', a_roster (emitter stamp e a))"
    by (metis prod.collapse)
  then show ?case using Cons [of "emitter stamp e a" s'] by simp
qed simp

lemma absorb_same:
  assumes "same_host sh a" and "heard g0 g" and "g_roster g0 = a_roster a"
  shows "same_host (shell_absorb w g0 g sh) (absorb stamp g0 g a)"
    "sh_roster (shell_absorb w g0 g sh) = a_roster (absorb stamp g0 g a)"
proof -
  show "same_host (shell_absorb w g0 g sh) (absorb stamp g0 g a)"
    using assms(1) by (simp add: shell_absorb_def absorb_def fold_emitters) (simp add: same_host_def)
  obtain new where "g_ui g = g_ui g0 @ new" "fold listen new (g_status g0, g_roster g0) = (g_status g, g_roster g)"
    using assms(2) by (auto simp: heard_def)
  then show "sh_roster (shell_absorb w g0 g sh) = a_roster (absorb stamp g0 g a)"
    using emitter_roster [of stamp new "a\<lparr>a_hist := g_hist g, a_status := g_status g, a_disk := g_disk g\<rparr>" "g_status g0"] assms(3)
    by (simp add: shell_absorb_def absorb_def fold_emitters)
qed

lemma ended_roster:
  "sh_roster (sh_actor_ended w x sh) = sh_roster sh" "a_roster (actor_ended i x a) = a_roster a"
  "sh_roster (sh_launch sh) = sh_roster sh" "a_roster (launch a) = a_roster a"
  by (cases x; simp add: sh_links_def sh_emit_def rebuild_tray_def receiver_gone_def set_links_def tlog_def broadcast_def Let_def
      sh_launch_def launch_def)+

lemma run_actor_same:
  assumes "same_daemon s d"
  shows "same_daemon (shell_run_actor cr w ev ios s) (run_actor cr i ev ios d)"
proof -
  let ?g0 = "engine_state (dm_agent d) (dm_eng d)"
  have g0: "shell_engine_state (sd_shell s) (sd_eng s) = ?g0"
    using assms by (simp add: same_daemon_def same_engine_state)
  obtain ph g where r: "run_step cr (dm_pin d) (ev, ios) (dm_phase d, ?g0) = (ph, g)" by (meson surj_pair)
  have "heard ?g0 g" using run_step_told [of "(dm_phase d, ?g0)" cr "dm_pin d" "(ev, ios)"] r by simp
  moreover have "g_roster ?g0 = a_roster (dm_agent d)" by (simp add: engine_state_def)
  ultimately have ab: "same_host (shell_absorb w ?g0 g (sd_shell s)) (absorb (ai_stamp i) ?g0 g (dm_agent d))"
    "sh_roster (shell_absorb w ?g0 g (sd_shell s)) = a_roster (absorb (ai_stamp i) ?g0 g (dm_agent d))"
    using assms absorb_same by (simp_all add: same_daemon_def)
  have "run_step cr (sd_pin s) (ev, ios) (sd_phase s, ?g0) = (ph, g)" "sd_pin s = dm_pin d"
    using r assms by (simp_all add: same_daemon_def)
  then show ?thesis
    using r ab same_host_ended(1) [OF ab(1)]
    by (cases ph) (simp_all add: same_daemon_def shell_run_actor_def run_actor_def g0 ended_roster
        del: sh_actor_ended.simps actor_ended.simps)
qed

lemma request_roster:
  assumes "shell_do cr i r sh = Some (sh', ok)"
  shows "sh_roster sh' = sh_roster sh" "has_command r \<Longrightarrow> a_roster (fst (handle_request cr i r a)) = a_roster a"
proof -
  show "sh_roster sh' = sh_roster sh"
    using assms
    by (cases r) (auto simp: sh_send_text_def sh_send_file_def sh_set_pool_def sh_set_targets_def enqueue_def
        set_privacy_filter_def set_auto_clear_def set_mark_sensitive_def sh_update_saved_def sh_reconnect_def
        pair_cmd_def start_sync_def Let_def case_prod_beta split: option.splits if_splits)
  assume "has_command r"
  then show "a_roster (fst (handle_request cr i r a)) = a_roster a"
    by (cases r) (simp_all add: send_cmd_def update_saved_def start_def tlog_def Let_def case_prod_beta split: option.split)
qed

lemma launch_actor_same:
  assumes "same_daemon s d"
  shows "same_daemon (shell_launch_actor cr w s) (launch_actor cr i d)"
proof (cases "a_supervisor (dm_agent d)")
  case None
  then show ?thesis
    using assms by (simp add: shell_launch_actor_def launch_actor_def same_daemon_def same_host_def)
next
  case (Some c)
  have host: "same_host (sd_shell s) (dm_agent d)" "sh_roster (sd_shell s) = a_roster (dm_agent d)" "sd_eng s = dm_eng d"
    "sd_pin s = dm_pin d"
    using assms by (simp_all add: same_daemon_def)
  have sup: "sh_supervisor (sd_shell s) = Some c" using host(1) Some by (simp add: same_host_def)
  note launched = same_host_ended(2) [OF host(1)]
  have r: "sh_roster (sh_launch (sd_shell s)) = a_roster (launch (dm_agent d))" using host(2) by (simp add: ended_roster)
  let ?g0 = "engine_state (launch (dm_agent d)) (dm_eng d)"
  have g0: "shell_engine_state (sh_launch (sd_shell s)) (dm_eng d) = ?g0"
    using same_engine_state [OF launched r] by simp
  have "heard ?g0 (run_bad_pin ?g0)" by (simp add: told_frame)
  moreover have "g_roster ?g0 = a_roster (launch (dm_agent d))" by (simp add: engine_state_def)
  ultimately have ab: "same_host (shell_absorb w ?g0 (run_bad_pin ?g0) (sh_launch (sd_shell s)))
      (absorb (ai_stamp i) ?g0 (run_bad_pin ?g0) (launch (dm_agent d)))"
    "sh_roster (shell_absorb w ?g0 (run_bad_pin ?g0) (sh_launch (sd_shell s)))
      = a_roster (absorb (ai_stamp i) ?g0 (run_bad_pin ?g0) (launch (dm_agent d)))"
    using absorb_same [OF launched] by blast+
  show ?thesis
  proof (cases "run_init cr c ?g0")
    case None
    then show ?thesis
      using ab host same_host_ended(1) [OF ab(1), of w ActorDone i]
      by (simp add: shell_launch_actor_def launch_actor_def sup Some g0 same_daemon_def Let_def ended_roster
          del: sh_actor_ended.simps actor_ended.simps)
  next
    case (Some pg)
    then show ?thesis
      using launched r sup host \<open>a_supervisor (dm_agent d) = Some c\<close>
      by (cases pg) (simp add: shell_launch_actor_def launch_actor_def g0 same_daemon_def Let_def)
  qed
qed

lemma step_same:
  assumes "same_daemon s d"
  shows "same_daemon (shell_daemon_step cr w e s) (shared_step cr e d)"
proof -
  obtain ev i ios where e: "e = (ev, i, ios)" by (cases e)
  have host: "same_host (sd_shell s) (dm_agent d)" "sh_roster (sd_shell s) = a_roster (dm_agent d)" "sd_phase s = dm_phase d"
    "sh_tx (sd_shell s) = a_tx (dm_agent d)"
    using assms by (simp_all add: same_daemon_def same_host_def)
  have running: "actor_running d \<longleftrightarrow> sd_phase s = Dialing \<or> sd_phase s = Connected"
    using host(3) by (simp add: actor_running_def)
  show ?thesis
  proof (cases ev)
    case (DRequest r)
    show ?thesis
    proof (cases "shell_do cr i r (sd_shell s)")
      case None
      then have "\<not> has_command r" using has_command_iff by blast
      then show ?thesis using None assms by (simp add: e DRequest shared_step_def)
    next
      case (Some p)
      obtain sh ok where p: "p = (sh, ok)" by (cases p)
      have cmd: "has_command r" using Some has_command_iff [of r cr i "sd_shell s"] by simp
      obtain a resp where a: "handle_request cr i r (dm_agent d) = (a, resp)" by (meson surj_pair)
      have "same_host sh a" by (rule request_same_host [OF host(1) Some [unfolded p] a])
      moreover have "sh_roster sh = a_roster a"
        using request_roster [OF Some [unfolded p]] cmd a host(2) by (metis fst_conv)
      moreover have "sh_accepting (sd_shell s) = accepting (dm_agent d)" "sh_accepting sh = accepting a"
        using host(4) \<open>same_host sh a\<close> by (simp_all add: sh_accepting_def accepting_def same_host_def)
      ultimately show ?thesis
        using assms Some p cmd a by (simp add: e DRequest shared_step_def same_daemon_def Let_def del: handle_request.simps)
    qed
  next
    case DLaunch
    then show ?thesis using assms launch_actor_same running by (simp add: e shared_step_def)
  next
    case (DWatched c)
    have "sh_roster (fst (enqueue c (sd_shell s))) = a_roster (fst (send_cmd c (dm_agent d)))"
      using host(2) by (simp add: enqueue_def send_cmd_def split: option.split)
    then show ?thesis using assms same_host_enqueue [OF host(1), of c] by (simp add: e DWatched shared_step_def same_daemon_def)
  next
    case DTake
    have "same_daemon (s\<lparr>sd_shell := sh_take_cmd (sd_shell s)\<rparr>) (d\<lparr>dm_agent := take_cmd (dm_agent d)\<rparr>)"
      using assms by (simp add: same_daemon_def same_host_def sh_take_cmd_def take_cmd_def)
    from run_actor_same [OF this] show ?thesis
      using assms host(3,4) by (simp add: e DTake shared_step_def split: option.split prod.split bool.split list.split)
  next
    case (DActor x)
    then show ?thesis
      using assms run_actor_same [OF assms] running
      by (simp add: e shared_step_def split: run_event.split loop_event.split)
  next
    case DPanic
    then show ?thesis
      using assms running same_host_ended(1) [OF host(1), of w ActorPanic i] host(2)
      by (simp add: e shared_step_def same_daemon_def ended_roster del: sh_actor_ended.simps actor_ended.simps)
  qed
qed

interpretation host: simulation "shell_daemon_step cr w" "shared_step cr" same_daemon for cr w
  by unfold_locales (rule step_same)

subsection \<open>What the shell inherits\<close>

text \<open>C11. The shell runs the engine exactly as the daemon does: from corresponding states, over any
  interleaving of commands, copies, launches, connections, frames and panics, the shell's engine
  has the same state as the daemon's and has written the same frames, and the two hosts hold
  the same queue, history, configuration file, status and roster.\<close>

theorem shell_simulates_daemon:
  assumes "same_daemon s d" and "s' = fold (shell_daemon_step cr w) es s" and "d' = fold (shared_step cr) es d"
  shows "same_daemon s' d' \<and> sd_eng s' = dm_eng d' \<and> g_wire (sd_eng s') = g_wire (dm_eng d')
    \<and> sh_tx (sd_shell s') = a_tx (dm_agent d') \<and> sh_hist (sd_shell s') = a_hist (dm_agent d')
    \<and> sh_disk (sd_shell s') = a_disk (dm_agent d') \<and> sh_status (sd_shell s') = a_status (dm_agent d')
    \<and> sh_roster (sd_shell s') = a_roster (dm_agent d')"
  using host.sim_run [OF assms(1), of cr w es] assms(2,3) by (simp add: same_daemon_def same_host_def)

definition shell_daemon_like :: "daemon_state \<Rightarrow> shell_daemon" where
  "shell_daemon_like d = \<lparr>sd_shell = (shell_like (dm_agent d))\<lparr>sh_roster := a_roster (dm_agent d)\<rparr>,
     sd_phase = dm_phase d, sd_pin = dm_pin d, sd_eng = dm_eng d\<rparr>"

lemma shell_daemon_like_same: "same_daemon (shell_daemon_like d) d"
  by (simp add: same_daemon_def shell_daemon_like_def same_host_def shell_like_def)

theorem shell_simulates_daemon_witness:
  "let es = [(DRequest (ReqSendText [104, 105]), sample_aio, \<lambda>_. sample_io), (DTake, sample_aio, \<lambda>_. sample_io),
             (DPanic, sample_aio, \<lambda>_. sample_io), (DLaunch, sample_aio, \<lambda>_. sample_io)]
   in g_wire (sd_eng (fold (shell_daemon_step wire_crates (sample_desk [])) es (shell_daemon_like (sample_daemon []))))
      = g_wire (dm_eng (fold (shared_step wire_crates) es (sample_daemon [])))"
  using shell_simulates_daemon [OF shell_daemon_like_same [of "sample_daemon []"] refl refl, of wire_crates "sample_desk []"
      "[(DRequest (ReqSendText [104, 105]), sample_aio, \<lambda>_. sample_io), (DTake, sample_aio, \<lambda>_. sample_io),
        (DPanic, sample_aio, \<lambda>_. sample_io), (DLaunch, sample_aio, \<lambda>_. sample_io)]"]
  unfolding Let_def by blast

subsection \<open>The privacy filter in the shell\<close>

definition guarded :: "('e \<Rightarrow> bool) \<Rightarrow> ('e \<Rightarrow> 's \<Rightarrow> 's) \<Rightarrow> 'e \<Rightarrow> 's \<Rightarrow> 's" where
  "guarded ok step e s = (if ok e then step e s else s)"

lemma guarded_run: "\<forall>e\<in>set es. ok e \<Longrightarrow> fold (guarded ok step) es s = fold step es s"
  by (induction es arbitrary: s) (simp_all add: guarded_def)

definition filter_kept :: "daemon_event \<times> aio \<times> (nat \<Rightarrow> io) \<Rightarrow> bool" where
  "filter_kept e \<longleftrightarrow> fst e \<noteq> DRequest (SetPrivacyFilter False)"

text \<open>The daemon's filter stays on, so the shell's does.\<close>

interpretation filt: simulated_machine "guarded filter_kept (shell_daemon_step cr w)" "guarded filter_kept (shared_step cr)"
  same_daemon "\<lambda>d. a_exclude (dm_agent d)" for cr w
proof
  fix s d e
  assume "same_daemon s d"
  then show "same_daemon (guarded filter_kept (shell_daemon_step cr w) e s) (guarded filter_kept (shared_step cr) e d)"
    by (simp add: guarded_def step_same)
next
  fix d :: daemon_state and e :: "daemon_event \<times> aio \<times> (nat \<Rightarrow> io)"
  assume ex: "a_exclude (dm_agent d)"
  obtain ev i ios where "e = (ev, i, ios)" by (cases e)
  with ex daemon_exclude [OF ex, of ev cr i ios] show "a_exclude (dm_agent (guarded filter_kept (shared_step cr) e d))"
    by (auto simp: guarded_def shared_step_def filter_kept_def simp del: daemon_step.simps)
qed

definition agent_like :: "shell \<Rightarrow> agent" where
  "agent_like sh = \<lparr>a_hist = sh_hist sh, a_status = sh_status sh, a_roster = sh_roster sh, a_targets = sh_targets sh,
     a_exclude = sh_exclude sh, a_auto_clear = sh_auto_clear sh, a_mark = sh_mark sh, a_telemetry = True,
     a_cfg_path = sh_cfg_path sh, a_disk = sh_disk sh, a_tx = sh_tx sh, a_supervisor = sh_supervisor sh,
     a_attempt = sh_attempt sh, a_events = [], a_buf = [], a_wakeups = sh_wakeups sh, a_exiting = False\<rparr>"

lemma every_shell_has_daemon:
  "\<exists>d. same_daemon s d \<and> a_exclude (dm_agent d) = sh_exclude (sd_shell s)"
  by (rule exI [of _ "\<lparr>dm_agent = agent_like (sd_shell s), dm_phase = sd_phase s, dm_pin = sd_pin s, dm_eng = sd_eng s\<rparr>"])
    (simp add: same_daemon_def same_host_def agent_like_def)

text \<open>The shell keeps the filter's promise too: once the filter is on, and until its switch is turned
  off, no text the classifier flags leaves the device from the shell, across pairings,
  reconnects, panics and restarts of the engine.\<close>

theorem shell_filter_holds:
  assumes "sh_exclude (sd_shell s0)" and "\<forall>(e, i, ios)\<in>set es. e \<noteq> DRequest (SetPrivacyFilter False)"
    and "s = fold (shell_daemon_step cr w) es s0"
    and "sh_tx (sd_shell s) = Some (True, LocalText t html # q)"
    and "classify (alnum_table cr) t (g_customs (sd_eng s)) \<noteq> None"
  shows "g_wire (sd_eng (shell_daemon_step cr w (DTake, i, ios) s)) = g_wire (sd_eng s)"
proof -
  obtain d0 where "same_daemon s0 d0" "a_exclude (dm_agent d0)"
    using every_shell_has_daemon [of s0] assms(1) by blast
  then have "\<exists>d. same_daemon s0 d \<and> a_exclude (dm_agent d)" by blast
  from filt.conc.run_inv [OF this, of cr w es] obtain d where
    d: "same_daemon (fold (guarded filter_kept (shell_daemon_step cr w)) es s0) d" "a_exclude (dm_agent d)" by blast
  have "\<forall>e\<in>set es. filter_kept e" using assms(2) by (auto simp: filter_kept_def)
  then have same: "same_daemon s d" using d(1) by (simp add: guarded_run assms(3))
  have "a_tx (dm_agent d) = Some (True, LocalText t html # q)" "sd_eng s = dm_eng d"
    using same assms(4) by (simp_all add: same_daemon_def same_host_def)
  then have "g_wire (dm_eng (daemon_step cr (DTake, i, ios) d)) = g_wire (dm_eng d)"
    using flagged_text_stays [OF d(2)] assms(5) by simp
  moreover have "same_daemon (shell_daemon_step cr w (DTake, i, ios) s) (daemon_step cr (DTake, i, ios) d)"
    using step_same [OF same, of cr w "(DTake, i, ios)"] by (simp only: shared_step_def fst_conv shared_event.simps if_True)
  ultimately show ?thesis using same by (simp add: same_daemon_def del: daemon_step.simps shell_daemon_step.simps)
qed

theorem shell_filter_holds_witness:
  "let s = shell_daemon_like (sample_daemon [LocalText (lit ''otpauth://totp/x'') None])
   in g_wire (sd_eng (shell_daemon_step wire_crates (sample_desk []) (DTake, sample_aio, \<lambda>_. sample_io) s)) = []"
proof -
  let ?s = "shell_daemon_like (sample_daemon [LocalText (lit ''otpauth://totp/x'') None])"
  have 1: "sh_exclude (sd_shell ?s)" "sd_eng ?s = sample_eng"
    "sh_tx (sd_shell ?s) = Some (True, [LocalText (lit ''otpauth://totp/x'') None])"
    by (simp_all add: shell_daemon_like_def shell_like_def sample_daemon_def sample_agent_def)
  have 2: "classify (alnum_table wire_crates) (lit ''otpauth://totp/x'') (g_customs (sd_eng ?s)) \<noteq> None"
    unfolding 1(2)
    by (simp add: classify_def trim_def trim_end_by_def is_whitespace_def utf8_width_def ascii_lower_def Let_def)
  have "g_wire (sd_eng (shell_daemon_step wire_crates (sample_desk []) (DTake, sample_aio, \<lambda>_. sample_io) ?s)) = g_wire (sd_eng ?s)"
    by (rule shell_filter_holds [where es = "[]" and s0 = ?s, OF 1(1) _ _ 1(3) 2]) simp_all
  then show ?thesis unfolding Let_def 1(2) by (simp add: sample_eng_def)
qed

end
