(* ===== verification/End_To_End.thy ===== *)
theory End_To_End
  imports Gui_Agent Serve Interop Shell_Daemon
begin

text \<open>
  The whole path of a text: the GUI's request as bytes on the socket, the connection that reads them,
  the agent's queue, the engine's frame, and a device that receives it.
\<close>

subsection \<open>A request as bytes\<close>

text \<open>
  One round trip of the GUI or the command line: the request's line is written to a fresh
  connection, served, and the first line that comes back is parsed.
\<close>

definition socket_request :: "crates \<Rightarrow> texts \<Rightarrow> aio \<Rightarrow> request \<Rightarrow> agent \<Rightarrow> agent \<times> w_outbound option" where
  "socket_request cr tx i r a =
     (case client_line cr r of
        None \<Rightarrow> (a, None)
      | Some l \<Rightarrow>
          (case poll_read cr i (new_sconn\<lparr>sc_buf := as_bytes (l @ [10])\<rparr>) a of
             (Some sc, a') \<Rightarrow> (a', first_outbound cr (sent_bytes cr tx (sc_out sc)))
           | (None, a') \<Rightarrow> (a', None)))"

lemma client_line_scalar:
  assumes "json_line cr" and "json_compact cr" and "client_line cr r = Some l"
  shows "list_all scalar l" and "10 \<notin> set (as_bytes l)"
proof -
  obtain b where b: "json_to_vec cr (request_to_json r) = Some b" "l = from_utf8_lossy b"
    using assms(3) by (auto simp: client_line_def)
  obtain s where s: "b = as_bytes s" "list_all scalar s" using assms(1) b by (auto simp: json_line_def)
  have "l = s" using b s from_utf8_lossy_as_bytes by simp
  with s b assms(2) show "list_all scalar l" "10 \<notin> set (as_bytes l)" by (auto simp: json_compact_def)
qed

lemma line_served:
  assumes "json_inverts cr" and "json_line cr" and "json_compact cr" and "client_line cr r = Some l" and "r \<noteq> Subscribe"
  shows "poll_read cr i (new_sconn\<lparr>sc_buf := as_bytes (l @ [10])\<rparr>) a
    = (Some (new_sconn\<lparr>sc_out := [Reply (snd (handle_request cr i r a))]\<rparr>), fst (handle_request cr i r a))"
proof -
  note l = client_line_scalar [OF assms(2-4)]
  have bytes: "as_bytes (l @ [10]) = as_bytes l @ [10]" by (simp add: as_bytes_append as_bytes_newline)
  have "from_utf8 (as_bytes l @ [10]) = Some (l @ [10])"
    unfolding bytes [symmetric] using l(1) by (intro from_utf8_as_bytes) (simp add: scalar_def)
  then show ?thesis
    using read_line_append [OF l(2), of "[]"] client_line_served [OF assms(1,2,4), of i False a] assms(5)
    by (simp add: poll_read_def bytes serve_line_def new_sconn_def del: process_line_def)
qed

text \<open>C18. A request works through the bytes: what a client writes for a request, sent over the socket,
  framed, decoded, handled, answered, framed again and parsed, is handled by the daemon as that
  very request, and the client reads the daemon's own reply, with its texts.\<close>

theorem request_over_socket:
  assumes "json_inverts cr" and "json_line cr" and "json_compact cr" and "json_empty_object cr"
    and "client_line cr r = Some l" and "r \<noteq> Subscribe"
    and "handle_request cr i r a = (a', resp)"
    and "wire_fits (render_outbound tx (Reply resp))" and "json_to_vec cr (outbound_to_json (render_outbound tx (Reply resp))) \<noteq> None"
  shows "socket_request cr tx i r a = (a', Some (WReply (render_response tx resp)))"
proof -
  have served: "poll_read cr i (new_sconn\<lparr>sc_buf := as_bytes (l @ [10])\<rparr>) a
      = (Some (new_sconn\<lparr>sc_out := [Reply resp]\<rparr>), a')"
    using line_served [OF assms(1-3,5,6), of i a] assms(7) by simp
  have "first_outbound cr (sent_bytes cr tx [Reply resp]) = read_back cr tx (Reply resp)"
  proof -
    from sent_bytes_Cons [OF assms(1-4,8), of "[]"] obtain s where
      "sent_bytes cr tx [Reply resp] \<noteq> []" "from_utf8 (fst (read_line (sent_bytes cr tx [Reply resp]))) = Some s"
      "parse_outbound cr s = read_back cr tx (Reply resp)" by blast
    then show ?thesis by (simp add: first_outbound_def)
  qed
  then show ?thesis using assms(5,9) served by (simp add: socket_request_def read_back_def)
qed

text \<open>A codec for one request and its reply.\<close>

definition asked :: request where
  "asked = ReqSendText (lit ''hi'')"

definition asking_crates :: crates where
  "asking_crates = sample_crates\<lparr>
     json_to_vec := (\<lambda>j. if j = request_to_json asked then Some (as_bytes (lit ''ask''))
                         else if j = outbound_to_json (WReply WOk) then Some (as_bytes (lit ''ok'')) else None),
     json_to_vec_pretty := (\<lambda>_. None),
     json_from_slice := (\<lambda>b. if b = as_bytes (lit ''ask'') then Some (request_to_json asked)
                             else if b = as_bytes (lit ''ok'') then Some (outbound_to_json (WReply WOk))
                             else if b = as_bytes (lit ''{}'') then Some (JObj []) else None)\<rparr>"

lemma asking_laws:
  "json_inverts asking_crates" "json_line asking_crates" "json_compact asking_crates" "json_empty_object asking_crates"
proof -
  have ne: "as_bytes (lit ''ask'') \<noteq> as_bytes (lit ''ok'')" "as_bytes (lit ''ask'') \<noteq> as_bytes (lit ''{}'')"
    "as_bytes (lit ''ok'') \<noteq> as_bytes (lit ''{}'')"
    by (simp_all add: as_bytes_def utf8_char_def)
  show "json_inverts asking_crates"
    using ne by (auto simp: json_inverts_def asking_crates_def simp del: lit_simps split: if_splits)
  have "list_all scalar (lit ''ask'') \<and> trim (lit ''ask'') = lit ''ask'' \<and> lit ''ask'' \<noteq> []"
    "list_all scalar (lit ''ok'') \<and> trim (lit ''ok'') = lit ''ok'' \<and> lit ''ok'' \<noteq> []"
    by (simp_all add: scalar_def trim_def trim_end_by_def is_whitespace_def)
  then show "json_line asking_crates"
    by (auto simp: json_line_def asking_crates_def simp del: lit_simps split: if_splits)
  show "json_compact asking_crates"
    by (simp add: json_compact_def asking_crates_def as_bytes_def utf8_char_def split: if_splits)
  show "json_empty_object asking_crates"
    using ne by (simp add: json_empty_object_def asking_crates_def del: lit_simps)
qed

theorem request_over_socket_witness:
  "\<exists>a'. socket_request asking_crates sample_texts sample_aio asked (sample_agent\<lparr>a_tx := Some (True, [])\<rparr>) = (a', Some (WReply WOk))
    \<and> a_tx a' = Some (True, [SendText (lit ''hi'')])"
proof -
  let ?a = "sample_agent\<lparr>a_tx := Some (True, [])\<rparr>"
  let ?a' = "sample_agent\<lparr>a_tx := Some (True, [SendText (lit ''hi'')])\<rparr>"
  have handled: "handle_request asking_crates sample_aio asked ?a = (?a', ROk)"
    by (simp add: asked_def send_cmd_def)
  have line: "client_line asking_crates asked = Some (lit ''ask'')"
    using from_utf8_lossy_as_bytes [of "lit ''ask''"]
    by (simp add: client_line_def asking_crates_def scalar_def)
  have "asked \<noteq> Subscribe" by (simp add: asked_def)
  from request_over_socket [OF asking_laws line this handled, of sample_texts] show ?thesis
    by (simp add: asking_crates_def sample_texts_def)
qed

subsection \<open>From the keyboard to another device's clipboard\<close>

lemma new_text_received:
  assumes "aead_inverts cr" "base64_inverts cr" "b64_encode cr [] = []" "list_all scalar t" "length n1 = 12" "length n2 = 12"
    and "i64_range (int (str_len t))" and "new_text cr nid ts n1 n2 sq t None (g_key (dm_eng r)) tg = Ok ev"
    and "dm_phase r = Connected" and "os_writable (io_os (ios 0))"
    and "r' = daemon_step cr (DActor (Looped (Received (RecvFrame T_CLIP (clip_to_json (ev\<lparr>origin_device := og\<rparr>))))), i, ios) r"
  shows "(\<exists>tag. g_clip (dm_eng r') = CText t tag) \<and> dm_phase r' = Connected"
proof -
  define ev' where "ev' = ev\<lparr>origin_device := og\<rparr>"
  define g0 where "g0 = (engine_state (dm_agent r) (dm_eng r))\<lparr>g_last_recv := io_now (ios 0)\<rparr>"
  have key: "g_key g0 = g_key (dm_eng r)" by (simp add: g0_def engine_state_def)
  have again: "clip_of_json (clip_to_json ev') = Some ev'"
    using new_text_fields(2) [OF assms(8)] assms(7) by (intro clip_json_roundtrip) (simp add: ev'_def)
  have inc: "incoming_text cr (g_key g0) ev' = Ok (Inr t)" "incoming_html cr (g_key g0) ev' = Ok None"
    using incoming_new_text [OF assms(1-4) _ assms(5,6,8)] by (simp_all add: key ev'_def nonempty_def)
  have "\<not> is_blob ev'" using new_text_fields(3) [OF assms(8)] by (simp add: is_blob_def ev'_def)
  then have hf: "handle_frame cr (ios 0) T_CLIP (clip_to_json ev') g0 = apply_text cr (ios 0) ev' t None g0"
    using inc again by (simp add: handle_frame_def handle_incoming_text_def)
  have k: "T_CLIP \<noteq> KEEPALIVE" "T_CLIP \<noteq> T_TOKEN_ROTATE" by (simp_all add: tag_defs KEEPALIVE_def)
  have "dm_eng r' = apply_text cr (ios 0) ev' t None g0" "dm_phase r' = Connected"
    using assms(9) k hf
    by (simp_all add: assms(11) ev'_def [symmetric] actor_running_def run_actor_def g0_def Let_def)
  then show ?thesis using apply_text_effect [OF assms(10), of cr ev' t None g0] by simp
qed

text \<open>C3. A text typed into the GUI arrives: with the agent connected and its queue empty, clicking send
  empties the input, the actor writes exactly one clip frame for the chosen targets, and another
  daemon with the same group key that the server relays the frame to puts exactly that text on
  its clipboard and stays connected.\<close>

theorem typed_text_arrives:
  assumes "aead_inverts cr" "base64_inverts cr" "b64_encode cr [] = []"
    and "t = gu_send_text g" "trim t \<noteq> []" "list_all scalar t" "i64_range (int (str_len t))"
    and "a_tx (dm_agent d) = Some (True, [])" and "dm_phase d = Connected"
    and "tab_connect (agent_ask cr i True) k ASendText (g, dm_agent d) = (g', a')"
    and "new_text cr (io_id (ios 0)) (io_ts (ios 0)) (io_nonce (ios 0)) (io_nonce_html (ios 0)) (g_seq (dm_eng d) + 1)
           t None (g_key (dm_eng d)) (a_targets (dm_agent d)) = Ok ev"
    and "length (io_nonce (ios 0)) = 12" "length (io_nonce_html (ios 0)) = 12"
    and "encode cr T_CLIP (clip_to_json ev) = Some enc"
    and "g_max_msg (dm_eng d) \<le> 0 \<or> int (length enc) \<le> g_max_msg (dm_eng d)" and "io_send (ios 0)"
    and "d' = daemon_step cr (DTake, i, ios) (d\<lparr>dm_agent := a'\<rparr>)"
    and "dm_phase r = Connected" "g_key (dm_eng r) = g_key (dm_eng d)" "os_writable (io_os (jos 0))"
    and "r' = daemon_step cr (DActor (Looped (Received (RecvFrame T_CLIP (clip_to_json (ev\<lparr>origin_device := og\<rparr>))))), j, jos) r"
  shows "gu_send_text g' = [] \<and> g_wire (dm_eng d') = g_wire (dm_eng d) @ [(T_CLIP, clip_to_json ev)]
    \<and> ev_targets ev = a_targets (dm_agent d) \<and> a_tx (dm_agent d') = Some (True, [])
    \<and> (\<exists>tag. g_clip (dm_eng r') = CText t tag) \<and> dm_phase r' = Connected"
proof -
  have queued: "a' = (dm_agent d)\<lparr>a_tx := Some (True, [SendText t])\<rparr>" "gu_send_text g' = []"
    using typed_text_sent_once [OF _ assms(10)] assms(4,5,8) by simp_all
  define d1 where "d1 = d\<lparr>dm_agent := a'\<rparr>"
  have "g_wire (dm_eng d') = g_wire (dm_eng d1) @ [(T_CLIP, clip_to_json ev)]
      \<and> ev_targets ev = a_targets (dm_agent d1) \<and> dm_phase d' = Connected \<and> a_tx (dm_agent d') = Some (True, [])"
    by (rule queued_text_written [of d1 t cr ios ev enc])
      (use assms(9,11,14-17) in \<open>simp_all add: d1_def queued(1)\<close>)
  moreover have "(\<exists>tag. g_clip (dm_eng r') = CText t tag) \<and> dm_phase r' = Connected"
    using assms(11) unfolding assms(19) [symmetric]
    by (rule new_text_received [OF assms(1-3,6,12,13,7) _ assms(18,20,21)])
  ultimately show ?thesis using queued by (simp add: d1_def)
qed

theorem typed_text_arrives_witness:
  "\<exists>a' g' ev tag.
     tab_connect (agent_ask wire_crates sample_aio True) (sample_gdesk True []) ASendText
       ((app_new (sample_gdesk True []) Map.empty)\<lparr>gu_send_text := [104]\<rparr>, dm_agent (sample_daemon [])) = (g', a')
     \<and> g_wire (dm_eng (daemon_step wire_crates (DTake, sample_aio, \<lambda>_. sample_io) ((sample_daemon [])\<lparr>dm_agent := a'\<rparr>)))
         = [(T_CLIP, clip_to_json ev)]
     \<and> g_clip (dm_eng (daemon_step wire_crates (DActor (Looped (Received (RecvFrame T_CLIP
         (clip_to_json (ev\<lparr>origin_device := lit ''d1''\<rparr>))))), sample_aio, \<lambda>_. sample_io) (sample_daemon [])))
         = CText [104] tag"
proof -
  let ?d = "sample_daemon []" and ?ios = "\<lambda>_ :: nat. sample_io"
  let ?g = "(app_new (sample_gdesk True []) Map.empty)\<lparr>gu_send_text := [104]\<rparr>"
  obtain g' a' where r: "tab_connect (agent_ask wire_crates sample_aio True) (sample_gdesk True []) ASendText (?g, dm_agent ?d) = (g', a')"
    by (meson surj_pair)
  obtain ev where ev: "new_text wire_crates (io_id (?ios 0)) (io_ts (?ios 0)) (io_nonce (?ios 0)) (io_nonce_html (?ios 0))
      (g_seq (dm_eng ?d) + 1) [104] None (g_key (dm_eng ?d)) (a_targets (dm_agent ?d)) = Ok ev"
    by (simp add: new_text_def sample_daemon_def sample_eng_def Let_def)
  have enc: "encode wire_crates T_CLIP (clip_to_json ev) = Some [1]" by (simp add: encode_def wire_crates_def)
  have d: "a_tx (dm_agent ?d) = Some (True, [])" "dm_phase ?d = Connected" "g_wire (dm_eng ?d) = []"
    "g_max_msg (dm_eng ?d) \<le> 0 \<or> int (length [1 :: 8 word]) \<le> g_max_msg (dm_eng ?d)"
    by (simp_all add: sample_daemon_def sample_eng_def)
  have io: "length (io_nonce (?ios 0)) = 12" "length (io_nonce_html (?ios 0)) = 12" "io_send (?ios 0)" "os_writable (io_os (?ios 0))"
    by (simp_all add: sample_io_def sample_os_writable)
  have t: "[104] = gu_send_text ?g" "trim [104] \<noteq> []" "list_all scalar [104]" "i64_range (int (str_len [104]))"
    by (simp_all add: trim_def trim_end_by_def is_whitespace_def scalar_def i64_range_def str_len_def utf8_width_def)
  from typed_text_arrives [OF wire_aead wire_base64 wire_b64_empty t d(1,2) r ev io(1,2) enc d(4) io(3) refl d(2) refl io(4) refl,
      of "lit ''d1''" sample_aio]
  have out: "g_wire (dm_eng (daemon_step wire_crates (DTake, sample_aio, ?ios) (?d\<lparr>dm_agent := a'\<rparr>))) = [(T_CLIP, clip_to_json ev)]"
    and arrived: "\<exists>tag. g_clip (dm_eng (daemon_step wire_crates (DActor (Looped (Received (RecvFrame T_CLIP
         (clip_to_json (ev\<lparr>origin_device := lit ''d1''\<rparr>))))), sample_aio, ?ios) ?d)) = CText [104] tag"
    unfolding d(3) append_Nil by blast+
  show ?thesis by (intro exI conjI) (rule r, rule out, rule someI_ex [OF arrived])
qed

end
