(* ===== verification/Mailbox.thy ===== *)
theory Mailbox
  imports Daemon
begin

text \<open>
  The promise of the daemon to its clients about the texts they ask it to send, as an abstract
  mailbox: texts are posted at one end and delivered from the other. The path of a text through
  \<open>handle_request\<close>, the command channel, \<open>engine::run\<close>, \<open>send_text_clip\<close>, the encryption and the
  wire format refines it, while other requests are served and frames of any kind arrive.
\<close>

subsection \<open>The abstract mailbox\<close>

text \<open>The texts that wait and the texts that were delivered, each in order.\<close>

type_synonym mailbox = "rstr list \<times> rstr list"

fun mail_step :: "daemon_event \<Rightarrow> mailbox \<Rightarrow> mailbox" where
  "mail_step (DRequest (ReqSendText t)) (waiting, delivered) = (if t = [] then waiting else waiting @ [t], delivered)"
| "mail_step DTake (t # waiting, delivered) = (waiting, delivered @ [t])"
| "mail_step _ m = m"

definition posted :: "daemon_event list \<Rightarrow> rstr list" where
  "posted es = List.map_filter (\<lambda>e. case e of DRequest (ReqSendText t) \<Rightarrow> if t = [] then None else Some t | _ \<Rightarrow> None) es"

lemma posted_Cons: "posted (e # es) = (case e of DRequest (ReqSendText t) \<Rightarrow> if t = [] then [] else [t] | _ \<Rightarrow> []) @ posted es"
  by (simp add: posted_def map_filter_simps split: daemon_event.split request.split)

text \<open>Nothing is lost, invented, doubled or reordered by the mailbox.\<close>

lemma mail_step_conserves:
  "snd (mail_step e m) @ fst (mail_step e m) @ ts = snd m @ fst m @ posted [e] @ ts"
  by (induction e m rule: mail_step.induct) (simp_all add: posted_Cons posted_def [of "[]"] map_filter_simps)

lemma mail_conserves: "snd (fold mail_step es m) @ fst (fold mail_step es m) = snd m @ fst m @ posted es"
proof (induction es arbitrary: m)
  case Nil
  then show ?case by (simp add: posted_def map_filter_simps)
next
  case (Cons e es)
  have "posted (e # es) = posted [e] @ posted es" by (simp add: posted_Cons posted_def [of "[]"] map_filter_simps)
  then show ?case using Cons [of "mail_step e m"] mail_step_conserves [of e m "posted es"] by simp
qed

text \<open>A receiver with the same key: the texts it reads from the frames it is relayed, by what
  \<open>handle_frame\<close> and \<open>incoming_text\<close> do with each.\<close>

definition read_text :: "crates \<Rightarrow> (bytes \<times> rstr) option \<Rightarrow> rstr \<times> json \<Rightarrow> rstr option" where
  "read_text cr key f =
     (if fst f = T_CLIP then
        (case clip_of_json (snd f) of
           Some ev \<Rightarrow> if is_blob ev then None
                      else (case incoming_text cr key ev of Ok (Inr t) \<Rightarrow> Some t | _ \<Rightarrow> None)
         | None \<Rightarrow> None)
      else None)"

definition texts_read :: "crates \<Rightarrow> (bytes \<times> rstr) option \<Rightarrow> (rstr \<times> json) list \<Rightarrow> rstr list" where
  "texts_read cr key fs = List.map_filter (read_text cr key) fs"

lemma texts_read_append: "texts_read cr key (fs @ fs') = texts_read cr key fs @ texts_read cr key fs'"
  by (simp add: texts_read_def List.map_filter_def)

subsection \<open>What the refinement relies on\<close>

text \<open>The documented behaviour of the crates: the cipher, base64 and the JSON writer.\<close>

definition mail_crates :: "crates \<Rightarrow> bool" where
  "mail_crates cr \<longleftrightarrow> aead_inverts cr \<and> base64_inverts cr \<and> b64_encode cr [] = []
     \<and> (\<forall>j. json_to_vec cr j \<noteq> None) \<and> (\<forall>k n p. length k = 32 \<longrightarrow> gcm_encrypt cr k n p \<noteq> None)"

text \<open>A Rust string whose size fits the wire format.\<close>

definition mail_text :: "rstr \<Rightarrow> bool" where
  "mail_text t \<longleftrightarrow> list_all scalar t \<and> i64_range (int (str_len t))"

definition mail_key :: "(bytes \<times> rstr) option \<Rightarrow> bool" where
  "mail_key key \<longleftrightarrow> (case key of Some (k, _) \<Rightarrow> length k = 32 | None \<Rightarrow> True)"

text \<open>The socket takes the frame and the nonces are as long as the cipher's.\<close>

definition mail_io :: "io \<Rightarrow> bool" where
  "mail_io i \<longleftrightarrow> io_send i \<and> length (io_nonce i) = 12 \<and> length (io_nonce_html i) = 12"

text \<open>Requests that put no other command on the channel and keep the engine.\<close>

fun mail_request :: "request \<Rightarrow> bool" where
  "mail_request (ReqSendText t) \<longleftrightarrow> mail_text t"
| "mail_request (ReqSendFile _) \<longleftrightarrow> False"
| "mail_request (ReqSetPool _) \<longleftrightarrow> False"
| "mail_request (Pair _ _ _ _ _) \<longleftrightarrow> False"
| "mail_request ReqShutdown \<longleftrightarrow> False"
| "mail_request _ \<longleftrightarrow> True"

fun mail_event :: "daemon_event \<times> aio \<times> (nat \<Rightarrow> io) \<Rightarrow> bool" where
  "mail_event (DRequest r, _, _) \<longleftrightarrow> mail_request r"
| "mail_event (DLaunch, _, _) \<longleftrightarrow> True"
| "mail_event (DTake, _, ios) \<longleftrightarrow> mail_io (ios 0)"
| "mail_event (DActor (Looped (Received (RecvFrame _ _))), _, _) \<longleftrightarrow> True"
| "mail_event _ \<longleftrightarrow> False"

subsection \<open>A frame that arrives writes nothing\<close>

definition out_of :: "eng \<Rightarrow> (rstr \<times> json) list \<times> (bytes \<times> rstr) option \<times> int" where
  "out_of g = (g_wire g, g_key g, g_max_msg g)"

lemma out_of_simps [simp]:
  "out_of (emit e g) = out_of g" "out_of (spawn t g) = out_of g" "out_of (g\<lparr>g_last_recv := x\<rparr>) = out_of g"
  "out_of (fst (add_history cr i ts k og d p m s b n g)) = out_of g"
  "out_of (schedule_purge row ttl g) = out_of g" "out_of (schedule_clear_text t' s' g) = out_of g"
  "out_of (g\<lparr>g_text := y\<rparr>) = out_of g" "out_of (g\<lparr>g_clip := z\<rparr>) = out_of g" "out_of (engine_state a g) = out_of g"
  "out_of (set_roster ds g) = out_of g" "out_of (apply_presence pr g) = out_of g" "out_of (serve_request i bid g) = out_of g"
  by (simp_all add: out_of_def emit_def spawn_def add_history_def schedule_purge_def schedule_clear_text_def engine_state_def
      set_roster_def apply_presence_def serve_request_def Let_def case_prod_beta split: option.split)

lemma out_of_apply_text: "out_of (apply_text cr i ev t html g) = out_of g"
  by (simp add: apply_text_def Let_def case_prod_beta)

lemma out_of_incoming: "handle_incoming_text cr i ev g = Ok g' \<Longrightarrow> out_of g' = out_of g"
  by (cases "incoming_text cr (g_key g) ev" rule: res.exhaust)
    (auto simp: handle_incoming_text_def bind_res_Ok_iff out_of_apply_text split: sum.splits)

lemma received_frame_writes_nothing:
  "\<exists>g'. on_received cr i (RecvFrame t d) g = (g', Go) \<and> out_of g' = out_of g"
proof -
  have "out_of (handle_frame cr i t d g0) = out_of g0" for g0
    by (rule handle_frame_keeps) (auto dest: out_of_incoming)
  moreover have "out_of (on_token_rotate cr i d g0) = out_of g0" for g0
    by (simp add: on_token_rotate_def out_of_def emit_def Let_def case_prod_beta split: option.split)
  ultimately show ?thesis by (simp add: Let_def)
qed

subsection \<open>A text that is taken from the queue\<close>

lemma new_text_total:
  assumes "mail_crates cr" and "mail_key key"
  shows "\<exists>ev. new_text cr nid ts n1 n2 sq t None key tg = Ok ev"
proof (cases key)
  case (Some p)
  then have len: "length (fst p) = 32" using assms(2) by (auto simp: mail_key_def)
  then obtain ct where "gcm_encrypt cr (fst p) n1 (as_bytes t) = Some ct"
    using assms(1) unfolding mail_crates_def by blast
  then show ?thesis using Some len by (simp add: new_text_def seal_def nonempty_def Let_def case_prod_beta)
qed (simp add: new_text_def Let_def)

lemma text_frame_read:
  assumes "mail_crates cr" and "mail_text t" and "mail_io i"
    and "new_text cr nid ts (io_nonce i) (io_nonce_html i) sq t None key tg = Ok ev"
  shows "read_text cr key (T_CLIP, clip_to_json ev) = Some t"
proof -
  have r: "clip_of_json (clip_to_json ev) = Some ev"
    using new_text_fields(2) [OF assms(4)] assms(2) by (intro clip_json_roundtrip) (simp add: mail_text_def)
  have "incoming_text cr key (ev\<lparr>origin_device := og\<rparr>) = Ok (Inr t)" for og
    using incoming_new_text [OF _ _ _ _ _ _ _ assms(4)] assms(1-3) by (simp add: mail_crates_def mail_text_def mail_io_def)
  from this [of "origin_device ev"] have "incoming_text cr key ev = Ok (Inr t)" by simp
  moreover have "\<not> is_blob ev" using new_text_fields(3) [OF assms(4)] by (simp add: is_blob_def)
  ultimately show ?thesis by (simp add: read_text_def r)
qed

lemma text_out:
  assumes "mail_crates cr" and "mail_key (g_key g)" and "mail_text t" and "mail_io i" and "g_max_msg g \<le> 0"
  shows "\<exists>g' f. send_text_clip cr i t None g = Ok (g', True) \<and> out_of g' = (g_wire g @ [f], g_key g, g_max_msg g)
    \<and> read_text cr (g_key g) f = Some t"
proof -
  obtain ev where ev: "new_text cr (io_id i) (io_ts i) (io_nonce i) (io_nonce_html i) (g_seq g + 1) t None
      (g_key g) (g_targets g) = Ok ev"
    using new_text_total [OF assms(1,2)] by blast
  have enc: "encode cr T_CLIP (clip_to_json ev) \<noteq> None" using assms(1) by (simp add: mail_crates_def encode_def)
  have lim: "\<not> g_max_msg g > 0" using assms(5) by simp
  have "\<exists>g'. send_text_clip cr i t None g = Ok (g', True)
      \<and> out_of g' = (g_wire g @ [(T_CLIP, clip_to_json ev)], g_key g, g_max_msg g)"
    using ev enc lim assms(4)
    by (auto simp: send_text_clip_def current_targets_def ws_send_def mail_io_def Let_def) (simp add: out_of_def)
  then show ?thesis using text_frame_read [OF assms(1,3,4) ev] by blast
qed

subsection \<open>Refinement\<close>

text \<open>The daemon that has written \<open>w0\<close> before, and the mailbox it implements.\<close>

definition mail_rel :: "crates \<Rightarrow> (bytes \<times> rstr) option \<Rightarrow> (rstr \<times> json) list \<Rightarrow> daemon_state \<Rightarrow> mailbox \<Rightarrow> bool" where
  "mail_rel cr key w0 d m \<longleftrightarrow> mail_crates cr \<and> mail_key key \<and> dm_phase d = Connected
     \<and> a_tx (dm_agent d) = Some (True, map SendText (fst m)) \<and> list_all mail_text (fst m)
     \<and> g_key (dm_eng d) = key \<and> g_max_msg (dm_eng d) \<le> 0
     \<and> (\<exists>fs. g_wire (dm_eng d) = w0 @ fs \<and> texts_read cr key fs = snd m)"

lemma mail_rel_same:
  assumes "mail_rel cr key w0 d m" and "dm_phase d' = Connected" and "a_tx (dm_agent d') = a_tx (dm_agent d)"
    and "out_of (dm_eng d') = out_of (dm_eng d)"
  shows "mail_rel cr key w0 d' m"
  using assms by (simp add: mail_rel_def out_of_def)

lemma mail_request_step:
  assumes "mail_rel cr key w0 d m" and "mail_request r"
  shows "mail_rel cr key w0 (daemon_step cr (DRequest r, i, ios) d) (mail_step (DRequest r) m)"
proof (cases "\<exists>t. r = ReqSendText t \<and> t \<noteq> []")
  case True
  then obtain t where r: "r = ReqSendText t" "t \<noteq> []" by blast
  obtain p s where m: "m = (p, s)" by (cases m)
  have "daemon_step cr (DRequest r, i, ios) d = d\<lparr>dm_agent := (dm_agent d)\<lparr>a_tx := Some (True, map SendText (p @ [t]))\<rparr>\<rparr>"
    using assms(1) r by (simp add: mail_rel_def m send_cmd_def Let_def accepting_def)
  then show ?thesis using assms r by (simp add: mail_rel_def m)
next
  case False
  let ?d = "daemon_step cr (DRequest r, i, ios) d"
  have tx: "a_tx (fst (handle_request cr i r (dm_agent d))) = a_tx (dm_agent d)"
    using False assms(2) by (cases r) (auto simp: tlog_def Let_def)
  then have "accepting (fst (handle_request cr i r (dm_agent d))) = accepting (dm_agent d)" by (simp add: accepting_def)
  with tx have "a_tx (dm_agent ?d) = a_tx (dm_agent d)" "dm_phase ?d = dm_phase d" "dm_eng ?d = dm_eng d"
    by (simp_all add: Let_def)
  moreover have "mail_step (DRequest r) m = m" using False by (cases m; cases r) auto
  ultimately show ?thesis using mail_rel_same [OF assms(1), of ?d] assms(1) by (simp only:) (simp add: mail_rel_def)
qed

lemma mail_frame_step:
  assumes "mail_rel cr key w0 d m"
  shows "mail_rel cr key w0 (daemon_step cr (DActor (Looped (Received (RecvFrame t j))), i, ios) d) m"
proof -
  let ?g = "engine_state (dm_agent d) (dm_eng d)"
  obtain g' where g': "on_received cr (ios 0) (RecvFrame t j) ?g = (g', Go)" "out_of g' = out_of ?g"
    using received_frame_writes_nothing by blast
  show ?thesis
    by (rule mail_rel_same [OF assms])
      (use g' assms in \<open>simp_all add: mail_rel_def actor_running_def run_actor_def Let_def del: on_received.simps\<close>)
qed

lemma mail_take_step:
  assumes "mail_rel cr key w0 d (t # p, s)" and "mail_io (ios 0)"
  shows "mail_rel cr key w0 (daemon_step cr (DTake, i, ios) d) (p, s @ [t])"
proof -
  let ?a = "take_cmd (dm_agent d)"
  let ?g = "engine_state ?a (dm_eng d)"
  have same: "g_wire ?g = g_wire (dm_eng d)" "g_key ?g = g_key (dm_eng d)" "g_max_msg ?g = g_max_msg (dm_eng d)"
    by (simp_all add: engine_state_def)
  note rel = assms(1) [unfolded mail_rel_def]
  obtain g' f where g': "send_text_clip cr (ios 0) t None ?g = Ok (g', True)"
    "out_of g' = (g_wire (dm_eng d) @ [f], key, g_max_msg (dm_eng d))" "read_text cr key f = Some t"
    using text_out [of cr ?g t "ios 0"] rel assms(2) unfolding same by auto
  have "daemon_step cr (DTake, i, ios) d
      = \<lparr>dm_agent = absorb (ai_stamp i) ?g g' ?a, dm_phase = Connected, dm_pin = dm_pin d, dm_eng = g'\<rparr>"
    using rel g'(1) by (simp add: run_actor_def Let_def of_send_def)
  moreover obtain fs where "g_wire (dm_eng d) = w0 @ fs" "texts_read cr key fs = s" using rel by auto
  then have "g_wire g' = w0 @ (fs @ [f])" "texts_read cr key (fs @ [f]) = s @ [t]"
    using g'(2,3) by (simp_all add: out_of_def texts_read_append) (simp add: texts_read_def map_filter_simps)
  ultimately show ?thesis using rel g'(2) by (auto simp: mail_rel_def out_of_def take_cmd_def)
qed

definition mail_daemon :: "crates \<Rightarrow> daemon_event \<times> aio \<times> (nat \<Rightarrow> io) \<Rightarrow> daemon_state \<Rightarrow> daemon_state" where
  "mail_daemon cr e d = (if mail_event e then daemon_step cr e d else d)"

definition mail_abstract :: "daemon_event \<times> aio \<times> (nat \<Rightarrow> io) \<Rightarrow> mailbox \<Rightarrow> mailbox" where
  "mail_abstract e m = (if mail_event e then mail_step (fst e) m else m)"

lemma mail_refines_step:
  assumes "mail_rel cr key w0 d m" and "mail_event e"
  shows "mail_rel cr key w0 (daemon_step cr e d) (mail_step (fst e) m)"
  using assms(2)
proof (cases e rule: mail_event.cases)
  case (1 r i ios)
  then show ?thesis using assms mail_request_step by simp
next
  case (2 i ios)
  then show ?thesis using assms(1) by (cases m) (simp add: mail_rel_def actor_running_def)
next
  case (3 i ios)
  then show ?thesis
  proof (cases "fst m")
    case Nil
    then show ?thesis using 3 assms(1) by (cases m) (simp add: mail_rel_def)
  next
    case (Cons t p)
    then have "m = (t # p, snd m)" by (metis prod.collapse)
    then show ?thesis using 3 assms mail_take_step [of cr key w0 d t p "snd m" ios i] by (metis fst_conv mail_event.simps(3) mail_step.simps(2))
  qed
next
  case (4 t j i ios)
  then show ?thesis using mail_frame_step [OF assms(1)] by (cases m) (simp del: daemon_step.simps)
qed simp_all

interpretation mail: simulation "mail_daemon cr" mail_abstract "mail_rel cr key w0" for cr key w0
  by unfold_locales (simp add: mail_daemon_def mail_abstract_def mail_refines_step)

lemma mail_runs:
  assumes "list_all mail_event es"
  shows "fold (mail_daemon cr) es d = fold (daemon_step cr) es d" "fold mail_abstract es m = fold mail_step (map fst es) m"
  using assms by (induction es arbitrary: d m) (simp_all add: mail_daemon_def mail_abstract_def del: daemon_step.simps)


lemma wire_mail: "mail_crates wire_crates"
  unfolding mail_crates_def using wire_aead wire_base64 wire_b64_empty
  by (simp add: wire_crates_def sample_crates_def)


end
