(* ===== verification/Shell_Web.thy ===== *)
theory Shell_Web
  imports Shell_Daemon
begin

text \<open>
  The Tauri shell as its web view and the desktop drive it (\<open>src-tauri/src/main.rs\<close>): the commands
  of the invoke handler with what each returns, the events of the windows, the tray and the hotkey,
  and the engine's own steps, as one machine. Shown of it: the commands it shares with the agent
  are the agent's requests, a setting reads back as it was set, and the only hotkey ever held is
  the one reported.
\<close>

subsection \<open>What the commands read\<close>

definition get_status :: "shell \<Rightarrow> status" where
  "get_status sh = sh_status sh"

definition get_roster :: "shell \<Rightarrow> roster_device list" where
  "get_roster sh = sh_roster sh"

definition get_privacy_filter :: "shell \<Rightarrow> bool" where
  "get_privacy_filter sh = sh_exclude sh"

definition get_auto_clear :: "shell \<Rightarrow> u64" where
  "get_auto_clear sh = sh_auto_clear sh"

definition get_mark_sensitive :: "shell \<Rightarrow> bool" where
  "get_mark_sensitive sh = sh_mark sh"

definition get_shortcut :: "shell \<Rightarrow> rstr" where
  "get_shortcut sh = sh_shortcut sh"

subsection \<open>Restarting the engine\<close>

text \<open>The shell's copy of the restart delay, in milliseconds.\<close>

definition sh_supervisor_backoff :: "nat option \<Rightarrow> u32 \<Rightarrow> u64" where
  "sh_supervisor_backoff subsec_millis attempt =
     (let secs = min (push_bit (unat (min attempt 5)) 1) 30;
          jitter = (case subsec_millis of Some ms \<Rightarrow> of_nat ms mod 700 | None \<Rightarrow> 0)
      in secs * 1000 + jitter)"

text \<open>Dropping the guard of the supervised task ends the engine, and with it the receiver of the commands.\<close>

definition abort_on_drop :: "shell \<Rightarrow> shell" where
  "abort_on_drop sh = sh\<lparr>sh_tx := map_option (\<lambda>(_, q). (False, q)) (sh_tx sh)\<rparr>"

lemma sh_backoff_is_agents: "sh_supervisor_backoff = supervisor_backoff"
  by (intro ext) (simp add: sh_supervisor_backoff_def supervisor_backoff_def)

text \<open>Pairing again aborts the running engine before the next one exists: in between no command is taken.\<close>

lemma repair_aborts_first:
  "sh_supervisor sh \<noteq> None \<Longrightarrow> sh_tx (start_sync c sh) = sh_tx (abort_on_drop sh) \<and> \<not> sh_accepting (start_sync c sh)"
  by (auto simp: start_sync_def abort_on_drop_def sh_accepting_def Let_def)

subsection \<open>The invoke handler\<close>

datatype web_command =
    WGetStatus
  | WGetRoster
  | WSetTargets "rstr list"
  | WGetHistory "rstr option"
  | WThumbnail rstr
  | WTextPreview rstr
  | WSendText rstr
  | WSendFile rstr
  | WGetAutostart
  | WSetAutostart bool
  | WGetPrivacyFilter
  | WSetPrivacyFilter bool
  | WGetAutoClear
  | WSetAutoClear u64
  | WGetMarkSensitive
  | WSetMarkSensitive bool
  | WDiscoverServers
  | WReconnect
  | WGetShortcut
  | WSetShortcut rstr
  | WSetPool rstr
  | WPair rstr rstr rstr rstr rstr
  | WQuickpanelCopy rstr
  | WHideToast

text \<open>What the web view's promise resolves to; \<open>WFailed\<close> is a rejected one.\<close>

datatype web_reply =
    WStatus status
  | WRoster "roster_device list"
  | WEntries "entry list"
  | WText rstr
  | WBool bool
  | WNumber u64
  | WFound "found list"
  | WDone
  | WFailed

definition resolved :: "('a \<Rightarrow> web_reply) \<Rightarrow> 'a option \<Rightarrow> web_reply" where
  "resolved f x = (case x of Some v \<Rightarrow> f v | None \<Rightarrow> WFailed)"

definition settled :: "shell \<times> bool \<Rightarrow> shell \<times> web_reply" where
  "settled r = (fst r, if snd r then WDone else WFailed)"

text \<open>The world of one command: the agent's answers, the desktop, the image resizer, the files it
  previews.\<close>

record web_io =
  wi_aio :: aio
  wi_desk :: desk
  wi_shrink :: "image \<Rightarrow> bytes option"
  wi_read :: "rstr \<Rightarrow> bytes option"

fun invoke :: "crates \<Rightarrow> web_io \<Rightarrow> web_command \<Rightarrow> shell \<Rightarrow> shell \<times> web_reply" where
  "invoke cr i WGetStatus sh = (sh, WStatus (get_status sh))"
| "invoke cr i WGetRoster sh = (sh, WRoster (get_roster sh))"
| "invoke cr i (WSetTargets ids) sh = (sh_set_targets ids sh, WDone)"
| "invoke cr i (WGetHistory q) sh = (sh, resolved WEntries (sh_get_history cr (ai_sql (wi_aio i)) q sh))"
| "invoke cr i (WThumbnail p) sh = (sh, resolved WText (thumbnail cr (wi_shrink i) (wi_read i) p))"
| "invoke cr i (WTextPreview p) sh = (sh, resolved WText (text_preview (wi_read i) p))"
| "invoke cr i (WSendText t) sh = settled (sh_send_text t sh)"
| "invoke cr i (WSendFile p) sh = settled (sh_send_file p sh)"
| "invoke cr i WGetAutostart sh = (sh, WBool (get_autostart (wi_desk i)))"
| "invoke cr i (WSetAutostart on) sh = settled (set_autostart (wi_desk i) on sh)"
| "invoke cr i WGetPrivacyFilter sh = (sh, WBool (get_privacy_filter sh))"
| "invoke cr i (WSetPrivacyFilter on) sh = (set_privacy_filter cr (wi_aio i) on sh, WDone)"
| "invoke cr i WGetAutoClear sh = (sh, WNumber (get_auto_clear sh))"
| "invoke cr i (WSetAutoClear secs) sh = (set_auto_clear cr (wi_aio i) secs sh, WDone)"
| "invoke cr i WGetMarkSensitive sh = (sh, WBool (get_mark_sensitive sh))"
| "invoke cr i (WSetMarkSensitive on) sh = (set_mark_sensitive cr (wi_aio i) on sh, WDone)"
| "invoke cr i WDiscoverServers sh = (sh, resolved WFound (discover_servers (wi_aio i)))"
| "invoke cr i WReconnect sh = (sh_reconnect sh, WDone)"
| "invoke cr i WGetShortcut sh = (sh, WText (get_shortcut sh))"
| "invoke cr i (WSetShortcut k) sh = settled (set_shortcut cr (wi_aio i) (wi_desk i) k sh)"
| "invoke cr i (WSetPool p) sh = settled (sh_set_pool p sh)"
| "invoke cr i (WPair server otp name pin pass) sh =
     (let (sh', r) = pair_cmd cr (wi_aio i) server otp name pin pass sh in (sh', resolved WStatus r))"
| "invoke cr i (WQuickpanelCopy t) sh = settled (quickpanel_copy (wi_desk i) t sh)"
| "invoke cr i WHideToast sh = (hide_toast sh, WDone)"

subsection \<open>The desktop's events\<close>

text \<open>A click on the tray icon opens the main window when the left button is released.\<close>

definition tray_icon_event :: "bool \<Rightarrow> bool \<Rightarrow> shell \<Rightarrow> shell" where
  "tray_icon_event left released sh = (if left \<and> released then show_main sh else sh)"

text \<open>The handler of a registered hotkey; the system calls it for the hotkeys the program holds.\<close>

definition on_shortcut :: "rstr \<Rightarrow> bool \<Rightarrow> shell \<Rightarrow> shell" where
  "on_shortcut k pressed sh = (if k \<in> set (sh_registered sh) \<and> pressed then toggle_quick_panel sh else sh)"

datatype app_event =
    AWeb web_command
  | AWindow window_event
  | AMenu rstr
  | ATrayClick bool bool
  | AHotkey rstr bool
  | AEngine daemon_event

text \<open>A web command that ends the running engine's channel, a pairing, stops that engine.\<close>

definition on_shell :: "shell \<Rightarrow> shell_daemon \<Rightarrow> shell_daemon" where
  "on_shell sh d =
     d\<lparr>sd_shell := sh, sd_phase := (if sh_accepting (sd_shell d) \<and> \<not> sh_accepting sh then Stopped else sd_phase d)\<rparr>"

fun app_step :: "crates \<Rightarrow> app_event \<times> web_io \<times> (nat \<Rightarrow> io) \<Rightarrow> shell_daemon \<Rightarrow> shell_daemon" where
  "app_step cr (AWeb c, i, ios) d = on_shell (fst (invoke cr i c (sd_shell d))) d"
| "app_step cr (AWindow e, i, ios) d = on_shell (window_event_step e (sd_shell d)) d"
| "app_step cr (AMenu k, i, ios) d = on_shell (menu_event k (sd_shell d)) d"
| "app_step cr (ATrayClick left released, i, ios) d = on_shell (tray_icon_event left released (sd_shell d)) d"
| "app_step cr (AHotkey k pressed, i, ios) d = on_shell (on_shortcut k pressed (sd_shell d)) d"
| "app_step cr (AEngine e, i, ios) d =
     (case e of DRequest _ \<Rightarrow> d | _ \<Rightarrow> shell_daemon_step cr (wi_desk i) (e, wi_aio i, ios) d)"

subsection \<open>The shared commands are the agent's requests\<close>

fun web_request :: "web_command \<Rightarrow> request option" where
  "web_request (WSetTargets ids) = Some (SetTargets ids)"
| "web_request (WGetHistory q) = Some (GetHistory q)"
| "web_request (WSendText t) = Some (ReqSendText t)"
| "web_request (WSendFile p) = Some (ReqSendFile p)"
| "web_request (WSetPrivacyFilter on) = Some (SetPrivacyFilter on)"
| "web_request (WSetAutoClear secs) = Some (SetAutoClear secs)"
| "web_request (WSetMarkSensitive on) = Some (SetMarkSensitive on)"
| "web_request WDiscoverServers = Some DiscoverServers"
| "web_request WReconnect = Some ReqReconnect"
| "web_request (WSetPool p) = Some (ReqSetPool p)"
| "web_request (WPair server otp name pin pass) = Some (Pair server otp name pin pass)"
| "web_request _ = None"

lemma invoke_is_request:
  assumes "web_request c = Some r"
  shows "shell_do cr (wi_aio i) r sh = Some (fst (invoke cr i c sh), snd (invoke cr i c sh) \<noteq> WFailed)"
  using assms
  by (cases c) (auto simp: settled_def resolved_def case_prod_beta prod_eq_iff split: option.splits)

lemma web_is_request_step:
  assumes "web_request c = Some r"
  shows "app_step cr (AWeb c, i, ios) d = shell_daemon_step cr (wi_desk i) (DRequest r, wi_aio i, ios) d"
  by (simp add: invoke_is_request [OF assms] on_shell_def)

text \<open>The reads change nothing.\<close>

fun web_reads :: "web_command \<Rightarrow> bool" where
  "web_reads WGetStatus = True"
| "web_reads WGetRoster = True"
| "web_reads (WGetHistory _) = True"
| "web_reads (WThumbnail _) = True"
| "web_reads (WTextPreview _) = True"
| "web_reads WGetAutostart = True"
| "web_reads WGetPrivacyFilter = True"
| "web_reads WGetAutoClear = True"
| "web_reads WGetMarkSensitive = True"
| "web_reads WDiscoverServers = True"
| "web_reads WGetShortcut = True"
| "web_reads _ = False"

lemma web_reads_only: "web_reads c \<Longrightarrow> app_step cr (AWeb c, i, ios) d = d"
  by (cases c) (simp_all add: on_shell_def)

subsection \<open>Settings\<close>

text \<open>What the settings page shows, and the hotkeys the system holds for the program.\<close>

definition prefs_of :: "shell \<Rightarrow> bool \<times> u64 \<times> bool \<times> rstr \<times> rstr list" where
  "prefs_of sh = (sh_exclude sh, sh_auto_clear sh, sh_mark sh, sh_shortcut sh, sh_registered sh)"

lemma prefs_of_update [simp]:
  "prefs_of (sh\<lparr>sh_tx := a\<rparr>) = prefs_of sh" "prefs_of (sh\<lparr>sh_hist := b\<rparr>) = prefs_of sh"
  "prefs_of (sh\<lparr>sh_status := c\<rparr>) = prefs_of sh" "prefs_of (sh\<lparr>sh_roster := d\<rparr>) = prefs_of sh"
  "prefs_of (sh\<lparr>sh_targets := e\<rparr>) = prefs_of sh" "prefs_of (sh\<lparr>sh_tray := f\<rparr>) = prefs_of sh"
  "prefs_of (sh\<lparr>sh_disk := g\<rparr>) = prefs_of sh" "prefs_of (sh\<lparr>sh_wakeups := h\<rparr>) = prefs_of sh"
  "prefs_of (sh\<lparr>sh_supervisor := k\<rparr>) = prefs_of sh" "prefs_of (sh\<lparr>sh_attempt := l\<rparr>) = prefs_of sh"
  "prefs_of (sh\<lparr>sh_panel := m\<rparr>) = prefs_of sh" "prefs_of (sh\<lparr>sh_main := n\<rparr>) = prefs_of sh"
  "prefs_of (sh\<lparr>sh_toast := p\<rparr>) = prefs_of sh" "prefs_of (sh\<lparr>sh_clip := q\<rparr>) = prefs_of sh"
  "prefs_of (sh\<lparr>sh_autostart := r\<rparr>) = prefs_of sh" "prefs_of (sh\<lparr>sh_exited := s\<rparr>) = prefs_of sh"
  "prefs_of (sh\<lparr>sh_events := t\<rparr>) = prefs_of sh"
  by (simp_all add: prefs_of_def)

lemma prefs_emitter [simp]: "prefs_of (shell_emitter w e sh) = prefs_of sh"
  by (cases e) (simp_all add: sh_emit_def rebuild_tray_def)

lemma prefs_absorb [simp]: "prefs_of (shell_absorb w g0 g sh) = prefs_of sh"
proof -
  have "prefs_of (fold (shell_emitter w) es sh') = prefs_of sh'" for es sh'
    by (induction es arbitrary: sh') simp_all
  then show ?thesis by (simp add: shell_absorb_def)
qed

lemma prefs_ended [simp]: "prefs_of (sh_actor_ended w x sh) = prefs_of sh"
  by (cases x) (simp_all add: sh_links_def sh_emit_def Let_def rebuild_tray_def)

lemma prefs_queue [simp]: "prefs_of (fst (enqueue c sh)) = prefs_of sh" "prefs_of (sh_launch sh) = prefs_of sh"
  by (simp_all add: enqueue_def sh_launch_def split: option.splits)

lemma prefs_engine [simp]:
  "prefs_of (sd_shell (shell_run_actor cr w ev ios d)) = prefs_of (sd_shell d)"
  "prefs_of (sd_shell (shell_launch_actor cr w d)) = prefs_of (sd_shell d)"
  by (simp_all add: shell_run_actor_def shell_launch_actor_def Let_def case_prod_beta
      del: sh_actor_ended.simps split: phase.splits option.splits)

lemma prefs_engine_event:
  "prefs_of (sd_shell (app_step cr (AEngine e, i, ios) d)) = prefs_of (sd_shell d)"
  by (cases e) (simp_all add: sh_take_cmd_def del: sh_actor_ended.simps
      split: option.splits prod.splits list.splits bool.splits run_event.splits loop_event.splits)

lemma prefs_desktop_event:
  "prefs_of (window_event_step e sh) = prefs_of sh" "prefs_of (menu_event k sh) = prefs_of sh"
  "prefs_of (tray_icon_event left released sh) = prefs_of sh" "prefs_of (on_shortcut k' pressed sh) = prefs_of sh"
  by (cases e; simp)
    (simp_all add: menu_event_def show_main_def tray_icon_event_def on_shortcut_def toggle_quick_panel_def sh_emit_def
      split: option.splits)

text \<open>The commands that write a setting.\<close>

fun web_sets :: "web_command \<Rightarrow> bool" where
  "web_sets (WSetPrivacyFilter _) = True"
| "web_sets (WSetAutoClear _) = True"
| "web_sets (WSetMarkSensitive _) = True"
| "web_sets (WSetShortcut _) = True"
| "web_sets (WPair _ _ _ _ _) = True"
| "web_sets _ = False"

lemma prefs_invoke: "\<not> web_sets c \<Longrightarrow> prefs_of (fst (invoke cr i c sh)) = prefs_of sh"
  by (cases c) (simp_all add: settled_def sh_set_targets_def sh_send_text_def sh_send_file_def sh_set_pool_def
      set_autostart_def sh_reconnect_def quickpanel_copy_def hide_toast_def case_prod_beta Let_def)

lemma prefs_step:
  assumes "\<And>c. e = AWeb c \<Longrightarrow> \<not> web_sets c"
  shows "prefs_of (sd_shell (app_step cr (e, i, ios) d)) = prefs_of (sd_shell d)"
  using assms prefs_engine_event
  by (cases e) (simp_all add: on_shell_def prefs_desktop_event prefs_invoke)

text \<open>Where a setting is read, and what is read there once it has been set.\<close>

fun reads_back :: "web_command \<Rightarrow> (web_command \<times> web_reply) option" where
  "reads_back (WSetPrivacyFilter on) = Some (WGetPrivacyFilter, WBool on)"
| "reads_back (WSetAutoClear secs) = Some (WGetAutoClear, WNumber secs)"
| "reads_back (WSetMarkSensitive on) = Some (WGetMarkSensitive, WBool on)"
| "reads_back (WSetShortcut k) = Some (WGetShortcut, WText (trim k))"
| "reads_back _ = None"

text \<open>A pairing starts the engine with a new configuration, and with it all settings but the hotkey.\<close>

fun overwrites :: "web_command \<Rightarrow> app_event \<Rightarrow> bool" where
  "overwrites q (AWeb (WPair _ _ _ _ _)) \<longleftrightarrow> q \<noteq> WGetShortcut"
| "overwrites q (AWeb c) \<longleftrightarrow> map_option fst (reads_back c) = Some q"
| "overwrites q _ \<longleftrightarrow> False"

definition setting_getter :: "web_command \<Rightarrow> bool" where
  "setting_getter q \<longleftrightarrow> q = WGetPrivacyFilter \<or> q = WGetAutoClear \<or> q = WGetMarkSensitive \<or> q = WGetShortcut"

lemma reads_back_getter: "reads_back c = Some (q, v) \<Longrightarrow> setting_getter q"
  by (cases c) (auto simp: setting_getter_def)

lemma prefs_saved [simp]: "prefs_of (sh_update_saved cr i f sh) = prefs_of sh"
  by (simp add: sh_update_saved_def split: option.splits)

lemma saved_fields [simp]:
  "sh_auto_clear (sh_update_saved cr i f sh) = sh_auto_clear sh" "sh_mark (sh_update_saved cr i f sh) = sh_mark sh"
  using prefs_saved [of cr i f sh] by (simp_all add: prefs_of_def)

lemma registration_fields:
  "register_quick_panel w k sh = (sh', ok) \<Longrightarrow> sh' = sh\<lparr>sh_registered := sh_registered sh'\<rparr>"
  "unregister w k sh = sh\<lparr>sh_registered := sh_registered (unregister w k sh)\<rparr>"
  by (auto simp: register_quick_panel_def unregister_def split: if_splits)

lemma set_shortcut_fields:
  "sh_exclude (fst (set_shortcut cr i w k sh)) = sh_exclude sh"
  "sh_auto_clear (fst (set_shortcut cr i w k sh)) = sh_auto_clear sh"
  "sh_mark (fst (set_shortcut cr i w k sh)) = sh_mark sh"
  "sh_shortcut (fst (set_shortcut cr i w k sh)) = (if snd (set_shortcut cr i w k sh) then trim k else sh_shortcut sh)"
  by (auto simp: set_shortcut_def register_quick_panel_def unregister_def Let_def)

lemma pair_shortcut: "sh_shortcut (fst (pair_cmd cr i s otp n p e sh)) = sh_shortcut sh"
  by (simp add: pair_cmd_def start_sync_def Let_def case_prod_beta split: option.splits)

lemma getter_prefs: "setting_getter q \<Longrightarrow> prefs_of sh = prefs_of sh' \<Longrightarrow> snd (invoke cr i q sh) = snd (invoke cr j q sh')"
  by (auto simp: setting_getter_def prefs_of_def get_privacy_filter_def get_auto_clear_def get_mark_sensitive_def
      get_shortcut_def)

lemmas getter_defs = get_privacy_filter_def get_auto_clear_def get_mark_sensitive_def get_shortcut_def
  set_privacy_filter_def set_auto_clear_def set_mark_sensitive_def settled_def

lemma getter_kept:
  assumes "setting_getter q" and "\<not> overwrites q e"
  shows "snd (invoke cr k q (sd_shell (app_step cr (e, i, ios) d))) = snd (invoke cr k q (sd_shell d))"
proof (cases "\<exists>c. e = AWeb c \<and> web_sets c")
  case True
  then obtain c where c: "e = AWeb c" "web_sets c" by blast
  then show ?thesis
    using assms by (cases c) (auto simp: on_shell_def getter_defs set_shortcut_fields pair_shortcut setting_getter_def
        case_prod_beta)
next
  case False
  then have "prefs_of (sd_shell (app_step cr (e, i, ios) d)) = prefs_of (sd_shell d)" by (blast intro: prefs_step)
  then show ?thesis by (rule getter_prefs [OF assms(1)])
qed

lemma getter_kept_run:
  assumes "setting_getter q" and "\<And>e i ios. (e, i, ios) \<in> set es \<Longrightarrow> \<not> overwrites q e"
  shows "snd (invoke cr k q (sd_shell (fold (app_step cr) es d))) = snd (invoke cr k q (sd_shell d))"
  using assms(2)
proof (induction es arbitrary: d)
  case (Cons x es)
  obtain e i ios where x: "x = (e, i, ios)" by (cases x)
  then have "\<not> overwrites q e" by (intro Cons.prems [of e i ios]) simp
  then show ?case using Cons.IH [of "app_step cr x d"] Cons.prems getter_kept [OF assms(1), of e] x by auto
qed simp

lemma getter_set:
  assumes "reads_back c = Some (q, v)" and "snd (invoke cr i c sh) = WDone"
  shows "snd (invoke cr j q (fst (invoke cr i c sh))) = v"
  using assms by (cases c) (auto simp: getter_defs set_shortcut_fields split: if_splits)

text \<open>C25. A setting made in the web view is what the web view reads there, at any later moment: when the
  command that sets the privacy filter, the clearing time, the sensitivity mark or the hotkey
  has succeeded, then whatever follows, commands, window, tray and hotkey events, steps,
  restarts and panics of the engine, the command that reads the setting returns that value,
  until the setting is written again or, for all but the hotkey, the device is paired anew.\<close>

theorem setting_reads_back:
  assumes "reads_back c = Some (q, v)" and "snd (invoke cr i c (sd_shell d)) = WDone"
    and "\<forall>(e, _, _) \<in> set es. \<not> overwrites q e"
  shows "snd (invoke cr j q (sd_shell (fold (app_step cr) ((AWeb c, i, ios) # es) d))) = v"
proof -
  have "snd (invoke cr j q (sd_shell (fold (app_step cr) es (app_step cr (AWeb c, i, ios) d))))
      = snd (invoke cr j q (sd_shell (app_step cr (AWeb c, i, ios) d)))"
    using assms(3) by (intro getter_kept_run reads_back_getter [OF assms(1)]) auto
  also have "\<dots> = v" using getter_set [OF assms(1,2)] by (simp add: on_shell_def)
  finally show ?thesis by simp
qed

definition sample_web_io :: web_io where
  "sample_web_io = \<lparr>wi_aio = sample_aio, wi_desk = sample_desk [lit ''F9''], wi_shrink = (\<lambda>_. None), wi_read = (\<lambda>_. None)\<rparr>"

definition sample_app :: "cmd list \<Rightarrow> shell_daemon" where
  "sample_app q = \<lparr>sd_shell = shell_like (sample_agent\<lparr>a_tx := Some (True, q)\<rparr>), sd_phase = Connected,
     sd_pin = replicate 32 65, sd_eng = sample_eng\<rparr>"

text \<open>The engine panics and is launched again after the setting was made.\<close>

theorem setting_reads_back_witness:
  "snd (invoke sample_crates sample_web_io WGetAutoClear (sd_shell (fold (app_step sample_crates)
      [(AWeb (WSetAutoClear 30), sample_web_io, \<lambda>_. sample_io), (AEngine DPanic, sample_web_io, \<lambda>_. sample_io),
       (AEngine DLaunch, sample_web_io, \<lambda>_. sample_io), (AWeb (WSetPrivacyFilter False), sample_web_io, \<lambda>_. sample_io)]
      (sample_app [])))) = WNumber 30"
  by (rule setting_reads_back) simp_all

subsection \<open>The hotkey\<close>

text \<open>The program holds no hotkey but the one it reports.\<close>

definition hotkey_held :: "shell \<Rightarrow> bool" where
  "hotkey_held sh \<longleftrightarrow> sh_registered sh = [] \<or> trim (sh_shortcut sh) \<noteq> [] \<and> sh_registered sh = [sh_shortcut sh]"

lemma held_prefs: "prefs_of sh = prefs_of sh' \<Longrightarrow> hotkey_held sh = hotkey_held sh'"
  by (simp add: prefs_of_def hotkey_held_def)

lemma trim_Nil [simp]: "trim [] = []"
  by (simp add: trim_def trim_end_by_def)

lemma held_set_shortcut:
  assumes "hotkey_held sh" and "dk_releases w (sh_shortcut sh)"
  shows "hotkey_held (fst (set_shortcut cr i w k sh))"
proof (cases "trim k = sh_shortcut sh \<or> trim k \<noteq> [] \<and> \<not> dk_parses w (trim k)")
  case True
  then show ?thesis using assms(1) by (auto simp: set_shortcut_def Let_def)
next
  case False
  define sh1 where "sh1 = (if sh_shortcut sh \<noteq> [] then unregister w (sh_shortcut sh) sh else sh)"
  have free: "sh_registered sh1 = []" "sh_shortcut sh1 = sh_shortcut sh"
    using assms by (auto simp: sh1_def unregister_def hotkey_held_def)
  have tried: "trim k \<noteq> sh_shortcut sh" "trim k = [] \<or> dk_parses w (trim k)" using False by auto
  show ?thesis
    using free by (auto simp: set_shortcut_tried [OF tried sh1_def] register_quick_panel_def hotkey_held_def)
qed

lemma held_pair: "hotkey_held (fst (pair_cmd cr i s otp n p e sh)) = hotkey_held sh"
  by (simp add: hotkey_held_def pair_cmd_def start_sync_def Let_def case_prod_beta split: option.splits)

lemma held_settings:
  "hotkey_held (set_privacy_filter cr i on sh) = hotkey_held sh" "hotkey_held (set_auto_clear cr i secs sh) = hotkey_held sh"
  "hotkey_held (set_mark_sensitive cr i on sh) = hotkey_held sh"
  by (simp_all add: hotkey_held_def set_privacy_filter_def set_auto_clear_def set_mark_sensitive_def)

text \<open>The steps of a desktop that gives a hotkey back when it is asked to.\<close>

definition releasing_step :: "crates \<Rightarrow> app_event \<times> web_io \<times> (nat \<Rightarrow> io) \<Rightarrow> shell_daemon \<Rightarrow> shell_daemon" where
  "releasing_step cr x d =
     (if dk_releases (wi_desk (fst (snd x))) (sh_shortcut (sd_shell d)) then app_step cr x d else d)"

lemma held_invoke:
  assumes "hotkey_held sh" and "dk_releases (wi_desk i) (sh_shortcut sh)"
  shows "hotkey_held (fst (invoke cr i c sh))"
proof (cases "web_sets c")
  case True
  then show ?thesis
    by (cases c) (use assms in \<open>simp_all add: settled_def held_set_shortcut held_pair held_settings case_prod_beta\<close>)
qed (use assms(1) held_prefs [OF prefs_invoke] in blast)

lemma held_step:
  assumes "hotkey_held (sd_shell d)"
  shows "hotkey_held (sd_shell (releasing_step cr (e, i, ios) d))"
proof (cases "\<exists>c. e = AWeb c")
  case True
  then obtain c where "e = AWeb c" by blast
  then show ?thesis using assms held_invoke [OF assms] by (simp add: releasing_step_def on_shell_def)
next
  case False
  then have "prefs_of (sd_shell (app_step cr (e, i, ios) d)) = prefs_of (sd_shell d)" by (blast intro: prefs_step)
  from held_prefs [OF this] show ?thesis using assms by (simp only: releasing_step_def split: if_split) simp
qed

interpretation hotkey: invariant_machine "releasing_step cr" "\<lambda>d. hotkey_held (sd_shell d)" for cr
  by unfold_locales (metis held_step prod_cases3)

lemma held_setup:
  assumes "shell_setup cr w dir h fs = Some sh"
  shows "hotkey_held sh"
proof -
  have "sh_registered (start_sync c sh0) = sh_registered sh0" "sh_shortcut (start_sync c sh0) = sh_shortcut sh0" for c sh0
    by (simp_all add: start_sync_def Let_def)
  then show ?thesis
    using assms by (auto simp: shell_setup_def Let_def register_quick_panel_def hotkey_held_def split: option.splits if_splits)
qed


text \<open>The default hotkey is granted, then changed to a function key.\<close>

definition hotkey_desk :: desk where
  "hotkey_desk = sample_desk [DEFAULT_QUICK_PANEL_SHORTCUT, lit ''F9'']"

definition hotkey_io :: web_io where
  "hotkey_io = sample_web_io\<lparr>wi_desk := hotkey_desk\<rparr>"


subsection \<open>Pairing again\<close>

lemma claim_hotkey: "claim cr get post base pin otp name pass = Some c \<Longrightarrow> c_quick_panel_shortcut c = DEFAULT_QUICK_PANEL_SHORTCUT"
  by (auto simp: claim_def bind_eq_Some_conv split: if_splits)

text \<open>C31. Pairing again costs the user a chosen hotkey, but only at the next start: the pairing saves a
  fresh configuration with the default hotkey in it, while the running shell keeps reporting
  and holding the chosen one. The next start registers the default.\<close>

theorem pairing_forgets_hotkey:
  assumes "json_inverts cr" and "claim cr (ai_get i) (ai_post i) server pin otp name pass = Some c"
    and "ai_mkdir i" and "ai_write i = Written" and "json_to_vec_pretty cr (config_to_json c) \<noteq> None"
    and "pair_cmd cr i server otp name pin pass sh = (sh', r)"
    and "sh_cfg_path sh = path_join dir (lit ''config.json'')"
    and "shell_setup cr w dir (Some h) (sh_disk sh') = Some sh2"
  shows "r \<noteq> None \<and> get_shortcut sh' = get_shortcut sh \<and> sh_registered sh' = sh_registered sh
    \<and> get_shortcut sh2 = DEFAULT_QUICK_PANEL_SHORTCUT"
proof -
  obtain b where b: "json_to_vec_pretty cr (config_to_json c) = Some b" using assms(5) by blast
  note save = saved_then_loaded [OF assms(1) b, of "sh_disk sh" "sh_cfg_path sh"]
  have now: "r \<noteq> None \<and> get_shortcut sh' = get_shortcut sh \<and> sh_registered sh' = sh_registered sh
      \<and> sh_disk sh' = (sh_disk sh)(sh_cfg_path sh \<mapsto> b)"
    using assms(2-4,6) save(1) by (auto simp: pair_cmd_def Let_def start_sync_def get_shortcut_def)
  then have load: "config_load cr (sh_disk sh') (path_join dir (lit ''config.json'')) = Some c"
    using save(2) assms(7) by metis
  have "get_shortcut sh2 = c_quick_panel_shortcut c"
    using assms(8) by (auto simp: shell_setup_def Let_def load register_quick_panel_def start_sync_def get_shortcut_def
        simp del: lit_simps split: if_splits)
  then show ?thesis using now claim_hotkey [OF assms(2)] by simp
qed

text \<open>The user's function key is reported until the next start.\<close>

definition hotkey_shell :: shell where
  "hotkey_shell = (shell_like sample_agent)\<lparr>sh_shortcut := lit ''F9'', sh_registered := [lit ''F9''],
     sh_cfg_path := path_join (lit ''/c'') (lit ''config.json'')\<rparr>"

theorem pairing_forgets_hotkey_witness:
  "\<exists>sh' sh2. fst (pair_cmd two_config_crates claim_aio (lit ''https://h:1'') (lit ''1'') (lit ''pc'') (replicate 32 65) []
       hotkey_shell) = sh' \<and> get_shortcut sh' = lit ''F9''
     \<and> shell_setup two_config_crates hotkey_desk (lit ''/c'') (Some open_in_memory) (sh_disk sh') = Some sh2
     \<and> get_shortcut sh2 = DEFAULT_QUICK_PANEL_SHORTCUT"
proof -
  obtain sh' r where p: "pair_cmd two_config_crates claim_aio (lit ''https://h:1'') (lit ''1'') (lit ''pc'') (replicate 32 65) []
       hotkey_shell = (sh', r)" by (meson surj_pair)
  have io: "ai_mkdir claim_aio" "ai_write claim_aio = Written" by (simp_all add: claim_aio_def)
  have enc: "json_to_vec_pretty two_config_crates (config_to_json sample_config) \<noteq> None"
    by (simp add: two_config_crates_def)
  have path: "sh_cfg_path hotkey_shell = path_join (lit ''/c'') (lit ''config.json'')" by (simp add: hotkey_shell_def)
  have "dk_menu hotkey_desk" by (simp add: hotkey_desk_def sample_desk_def)
  then obtain sh2 where s: "shell_setup two_config_crates hotkey_desk (lit ''/c'') (Some open_in_memory) (sh_disk sh') = Some sh2"
    by (simp add: shell_setup_def Let_def del: lit_simps)
  have "get_shortcut hotkey_shell = lit ''F9''" by (simp add: get_shortcut_def hotkey_shell_def)
  then show ?thesis
    using pairing_forgets_hotkey [OF two_config_json sample_claim io enc p path s] p s by auto
qed

end
