(* ===== verification/Spec2Isabelle.thy ===== *)
theory Spec2Isabelle
  imports Privacy Engine_Files Pinning Gui_Start Gui_View End_To_End Mailbox Shell_Web Unit_Tests
begin

text \<open>
  CopySync, the desktop client (\<open>clients/desktop\<close>): clipboard synchronisation between devices
  over a relay server, with optional end-to-end encryption.

  \<^bold>\<open>The program.\<close> A clipboard watcher thread turns changes of the clipboard into commands. The
  sync engine's actor (\<open>core/src/engine.rs\<close>, \<open>run\<close>) takes commands, sends clips over a pinned
  websocket, fetches and serves blobs over HTTPS, and applies received clips to the clipboard,
  the history database and the download directory. Two programs host the engine under a restart
  supervisor: the headless agent (\<open>agent/src/main.rs\<close>), which serves requests over a local socket,
  and the older Tauri shell (\<open>src-tauri/src/main.rs\<close>). The egui GUI (\<open>gui/src/main.rs\<close>) is a client
  of the agent, and \<open>core/examples/interop.rs\<close> a command-line driver of the core.

  \<^bold>\<open>Theories.\<close> In the order of the imports:
  \<^item> \<open>Prelude\<close>: characters, strings and bytes, UTF-8, paths, decimal numbers, saturating words, and the
    generic interfaces (locales) \<open>invariant_machine\<close>, \<open>simulation\<close>, \<open>bounded_fifo\<close> and \<open>keyed_ring\<close>.
  \<^item> \<open>Privacy\<close>: \<open>core/src/privacy.rs\<close>, the classifier of sensitive text.
  \<^item> \<open>Crates\<close>: JSON values and the record of third-party functions (digest, cipher, base64, JSON
    text, images, regular expressions), with what is assumed of them as named predicates, and a
    concrete instance for evaluation.
  \<^item> \<open>E2e\<close>, \<open>Protocol\<close>, \<open>Config\<close>, \<open>Net\<close>, \<open>History\<close>, \<open>Clipboard\<close>: the files of the same name under
    \<open>core/src\<close>; \<open>Net\<close> holds \<open>pinning.rs\<close>, \<open>ws.rs\<close>, \<open>blob.rs\<close>, \<open>pairing.rs\<close>, \<open>discovery.rs\<close> and
    \<open>telemetry.rs\<close>.
  \<^item> \<open>Pinning\<close>: the rest of \<open>pinning.rs\<close>: the process-wide provider, the verifier's signature checks and the
    client configurations, with the pull client of \<open>blob.rs\<close>.
  \<^item> \<open>Echo_Rings\<close>, \<open>Watcher\<close>, \<open>Engine\<close>, \<open>Engine_In\<close>, \<open>Engine_Run\<close>: \<open>core/src/engine.rs\<close>. Rings, holds and helpers;
    \<open>clipboard_loop\<close> and \<open>poll_once\<close>; the state with the outgoing clips; the incoming
    frames, blobs and texts; \<open>run\<close> as a step function on a phase (dialing, connected, stopped, crashed)
    and a state. Every arm of the \<open>select\<close> is an event.
  \<^item> \<open>Ipc\<close>, \<open>Agent\<close>: \<open>ipc/src/lib.rs\<close> and \<open>agent/src/main.rs\<close>. Requests with their JSON, telemetry
    buffer, emitter, supervisor, \<open>handle_request\<close>, connections, history key, command line.
  \<^item> \<open>Ipc_Wire\<close>, \<open>Serve\<close>: replies and events with their JSON and the lines they are sent as; the accept
    loop, any number of connections at the level of bytes, the broadcast bus, and \<open>run_serve\<close>.
  \<^item> \<open>Daemon\<close>: the agent and the engine's actor over their shared state, as one step function.
  \<^item> \<open>Shell\<close>, \<open>Shell_Daemon\<close>: \<open>src-tauri/src/main.rs\<close>. Commands, quick panel and hotkey, tray, supervisor, setup; the
    shell with the engine inside, as one step function over the daemon's events.
  \<^item> \<open>Shell_Web\<close>: the rest of \<open>src-tauri/src/main.rs\<close>. The commands of the web view with their replies, the events of
    windows, tray and hotkey, and the engine, as one step function.
  \<^item> \<open>Gui_Prefs\<close>, \<open>Gui\<close>: \<open>gui/src/main.rs\<close>. Preferences, palettes and wallpaper; the IPC client, the application
    state with its handlers and worker threads, and one frame of \<open>update\<close>.
  \<^item> \<open>Gui_Look\<close>, \<open>Gui_Start\<close>: the rest of \<open>gui/src/main.rs\<close>. What is painted, as the data handed to the toolkit; panic report,
    start of the agent, login entry, tray, the life of the event thread, and \<open>main\<close>.
  \<^item> \<open>Gui_View\<close>: the content of the four tabs as items with their captions and the actions they stand for, fonts and icon.
  \<^item> \<open>Mailbox\<close>: the daemon's promise about sent texts as an abstract mailbox, and the refinement of it.
  \<^item> \<open>Unit_Tests\<close>: the repository's own unit tests as predicates over the model, each proved.
  \<^item> \<open>Logs\<close>: the debug log files of the engine, the agent and the GUI.
  \<^item> \<open>Interop\<close>: \<open>core/examples/interop.rs\<close>, with the acknowledgement of \<open>protocol.rs\<close>.
  \<^item> \<open>Engine_Inv\<close>, \<open>Engine_Props\<close>, \<open>Engine_Blobs\<close>, \<open>Engine_Files\<close>, \<open>Engine_Told\<close>, \<open>Agent_Props\<close>, \<open>Agent_Serve\<close>, \<open>Shell_Props\<close>,
    \<open>Gui_Props\<close>, \<open>Gui_Agent\<close>, \<open>End_To_End\<close>: the lemmas and theorems about the components above and their composition.

  \<^bold>\<open>How the code is modelled.\<close> Structs are records with the same fields, enums are datatypes, machine
  integers are words, strings are lists of code points and byte strings lists of 8-bit words. A
  mutating function takes and returns the state; a call that fails or panics returns a value of
  \<open>option\<close>, a sum, or \<open>res\<close> with its own constructor for a panic. What the outside answers (server,
  clipboard, disk, clocks, desktop) is an argument: the records \<open>io\<close>, \<open>aio\<close>, \<open>os\<close>, \<open>desk\<close>, \<open>gdesk\<close>,
  \<open>frame_in\<close>. Detached tasks and worker threads are part of the state, and their completion is an event, so
  that their interleaving with everything else is a sequence of events. Texts for people are
  constructors. All loops are structural recursions or have a termination proof: no fuel is used,
  and a run is a fold over any finite list of events.

  \<^bold>\<open>What is shown.\<close>
  \<^item> Privacy and pinning: flagged text does not leave the device across requests, pairings and restarts
    (\<open>Daemon\<close>, and in the shell \<open>Shell_Daemon\<close>); nothing is sent before the server has shown the pinned certificate
    (\<open>Engine_Props\<close>, \<open>Net\<close>), and a pinned session is with a holder of the pinned key (\<open>Pinning\<close>); the history is sealed at rest (\<open>History\<close>).
  \<^item> Delivery: text and files arrive unchanged at a receiver with the same key; finished uploads are not
    lost; downloads stay in their directory (\<open>Engine_Props\<close>, \<open>Engine_Files\<close>, \<open>Engine_Blobs\<close>). The texts sent by clients
    are delivered in order, none lost or doubled, as the abstract mailbox says (\<open>Mailbox\<close>).
  \<^item> Invariants of whole runs of the actor, the daemon process with its clients, and the GUI; the actor never
    panics; buffers, rings and logs are bounded; the engine's listeners know its state (\<open>Engine_Told\<close>).
  \<^item> Round trips of requests, replies, events, clips, configuration, preferences and pairing across a restart.
  \<^item> Sockets: a subscriber that keeps up receives every event in order, requests arrive in any pieces, and a
    request over the socket is handled as that request (\<open>Serve\<close>, \<open>Ipc_Wire\<close>, \<open>End_To_End\<close>).
  \<^item> Composition: a text typed into the GUI goes through agent and actor to one frame and on to another
    device's clipboard; the shell simulates the daemon; the GUI's controls follow the agent's settings; the
    interop driver and the engine read the same clips.
  \<^item> Front ends: a setting made in the shell's web view reads back as made, and the shell holds no hotkey but the one it
    reports (\<open>Shell_Web\<close>); what the GUI does not show cannot be done in it (\<open>Gui_View\<close>).
  \<^item> Error behaviour: what a token rotation, a panic, a changed file, a failed re-advertisement, a locked
    keyring, a refused hotkey, a second pairing, a late status or a request line split by an event do, including the cases in which the code loses
    something.

  \<^bold>\<open>Interfaces.\<close> \<open>invariant_machine\<close> is interpreted on the actor, the agent, the socket server, the history, the
  discovery of servers and the shell with its desktop, \<open>simulation\<close> with its extension \<open>simulated_machine\<close> on the shell and
  the daemon and on the daemon and its mailbox, \<open>bounded_fifo\<close> on
  the telemetry buffer and the GUI's log, \<open>keyed_ring\<close> on the echo rings and the holds,
  \<open>command_channel\<close> on both hosts, and \<open>settings_server\<close> on the agent behind the socket.

  \<^bold>\<open>Not modelled.\<close> The asynchronous runtime and the threads are the order of the events; what a cancelled read
  keeps, the TLS handshake, the signature algorithms, SQLite, the window system and the clipboard of the
  operating system are parameters or records of answers. The calls that write debug lines are left out of the
  components that make them. In the GUI, sizes, spacing and scrolling are the toolkit's; a widget is
  what it shows and the action it triggers. The tests that observe only a third-party crate are not restated. The vendored renderer is third-party code; the Go server and the Android client are
  other programs in other languages. Random ids and timestamps are inputs. Floating-point numbers are reals in
  the classifier's entropy and rationals in the GUI.
\<close>

end
